(* ===== verification/Prelude.thy ===== *)
theory Prelude
  imports Main "HOL-Library.Word"
begin

text \<open>
  What the components share. The result of polling an external object
  (\<open>Poll<T, E> = Result<Async<T>, E>\<close> of the futures crate), of \<open>start_send\<close> on an
  external sink, of running code that may panic, and of one poll of a state machine; the
  reachable states of a step relation with the invariant rule as a locale.

  External objects (sockets, channels, the kernel) are not code of the repository. A
  definition that polls one takes the list of its answers, in order, as an argument; a
  theorem about the definition quantifies over every such list. A loop that has used up
  its list and would poll again has the value \<open>Starved\<close>, so that a loop which never
  stops is a loop that is \<open>Starved\<close> on every finite list.
\<close>

section \<open>Results\<close>

type_synonym byte = "8 word"

datatype ('a, 'e) poll = Ready 'a | NotReady | PollErr 'e

datatype 'e start_send = SendReady | SendNotReady | SendErr 'e

datatype 'a run = Return 'a | Panic | Starved

fun run_bind :: "'a run \<Rightarrow> ('a \<Rightarrow> 'b run) \<Rightarrow> 'b run" where
  "run_bind (Return x) f = f x"
| "run_bind Panic f = Panic"
| "run_bind Starved f = Starved"

lemma run_bind_eq_Return [simp]:
  "run_bind m f = Return y \<longleftrightarrow> (\<exists>x. m = Return x \<and> f x = Return y)"
  by (cases m) auto

lemma run_bind_eq_Panic [simp]:
  "run_bind m f = Panic \<longleftrightarrow> m = Panic \<or> (\<exists>x. m = Return x \<and> f x = Panic)"
  by (cases m) auto

lemma run_bind_split:
  "P (run_bind m f) \<longleftrightarrow>
     (\<forall>x. m = Return x \<longrightarrow> P (f x)) \<and> (m = Panic \<longrightarrow> P Panic) \<and> (m = Starved \<longrightarrow> P Starved)"
  by (cases m) auto

text \<open>
  What one poll of a generated state machine does to it: return \<open>NotReady\<close> with its state
  in place (\<open>Stay\<close>), make a transition (\<open>Goto\<close>), return \<open>NotReady\<close> after the state has
  been taken out of the machine (\<open>Lost\<close>), or return an error (\<open>Raise\<close>).
\<close>

datatype ('m, 'e) machine = Stay 'm | Goto 'm | Lost | Raise 'e

section \<open>Errors of the standard library\<close>

datatype error_kind = Interrupted | WouldBlock | UnexpectedEof | NotFound | OtherKind

datatype io_error = IoError (kind: error_kind) (err_text: string)

section \<open>Automation collections\<close>

named_theorems handler_defs \<open>the equations of the handlers, unfolded to go through their branches\<close>

named_theorems keeps \<open>what an operation leaves unchanged\<close>

section \<open>Generic lemmas\<close>

lemma distinct_concat_update:
  assumes "i < length xs" "distinct (concat (map f xs))" "f t = [] \<or> f t = f (xs ! i)"
  shows "distinct (concat (map f (xs[i := t])))"
  using assms
proof (induction xs arbitrary: i)
  case (Cons x xs)
  show ?case
  proof (cases i)
    case 0
    with Cons.prems show ?thesis by auto
  next
    case (Suc j)
    with Cons have "distinct (concat (map f (xs[j := t])))" by simp
    moreover have "set (concat (map f (xs[j := t]))) \<subseteq> set (concat (map f xs)) \<union> set (f t)"
      using set_update_subset_insert [of xs j t] by auto
    moreover from Suc Cons.prems have "set (f t) \<subseteq> set (concat (map f xs))" by auto
    ultimately show ?thesis using Suc Cons.prems by auto
  qed
qed simp

lemma distinct_concat_disjoint:
  assumes "distinct (concat (map f xs))" "i < length xs" "j < length xs" "i \<noteq> j"
  shows "set (f (xs ! i)) \<inter> set (f (xs ! j)) = {}"
  using assms
proof (induction xs arbitrary: i j)
  case (Cons x xs)
  from Cons.prems(1) have d: "distinct (concat (map f xs))"
    and x: "set (f x) \<inter> (\<Union>y \<in> set xs. set (f y)) = {}"
    by auto
  from x have head: "set (f x) \<inter> set (f (xs ! k)) = {}" if "k < length xs" for k
    using that nth_mem [OF that] by blast
  show ?case
  proof (cases i)
    case 0
    with Cons.prems head show ?thesis by (cases j) auto
  next
    case i: (Suc i')
    show ?thesis
    proof (cases j)
      case 0
      with i Cons.prems head [of i'] show ?thesis by auto
    next
      case (Suc j')
      with i d Cons.prems Cons.IH [of i' j'] show ?thesis by simp
    qed
  qed
qed simp

lemma list_all_update:
  "list_all P xs \<Longrightarrow> P t \<Longrightarrow> list_all P (xs[i := t])"
  by (auto simp: list_all_iff dest: set_update_subset_insert [THEN subsetD])

lemma in_updateD: "x \<in> set (ts[i := t]) \<Longrightarrow> x \<in> set ts \<or> x = t"
  using set_update_subset_insert [of ts i t] by blast

lemma in_update_other:
  "x \<in> set xs \<Longrightarrow> x \<noteq> xs ! i \<Longrightarrow> x \<in> set (xs[i := t])"
  by (metis in_set_conv_nth length_list_update nth_list_update_neq)

section \<open>Reachable states\<close>

inductive reach :: "('s \<Rightarrow> bool) \<Rightarrow> ('s \<Rightarrow> 's \<Rightarrow> bool) \<Rightarrow> 's \<Rightarrow> bool"
  for initial :: "'s \<Rightarrow> bool" and step :: "'s \<Rightarrow> 's \<Rightarrow> bool" where
  reach_init: "initial s \<Longrightarrow> reach initial step s"
| reach_step: "reach initial step s \<Longrightarrow> step s t \<Longrightarrow> reach initial step t"

text \<open>The contract of an inductive invariant, and what every provider of it gets.\<close>

locale inductive_invariant =
  fixes initial :: "'s \<Rightarrow> bool"
    and step :: "'s \<Rightarrow> 's \<Rightarrow> bool"
    and inv :: "'s \<Rightarrow> bool"
  assumes inv_initial: "initial s \<Longrightarrow> inv s"
    and inv_step: "inv s \<Longrightarrow> step s t \<Longrightarrow> inv t"
begin

lemma inv_reach: "reach initial step s \<Longrightarrow> inv s"
  by (induction rule: reach.induct) (auto intro: inv_initial inv_step)

lemma inv_reach_step: "reach initial step s \<Longrightarrow> step s t \<Longrightarrow> inv t"
  by (blast intro: inv_reach inv_step)

end

end
