(* ===== verification/Protocol.thy ===== *)
theory Protocol
  imports Prelude
begin

text \<open>
  The messages of \<open>protocol/src/lib.rs\<close>, with the source's constructors (a prefix
  tells the two message types apart), and the path of the socket. A Rust \<open>String\<close> is the
  list of its UTF-8 bytes, a \<open>PathBuf\<close> the bytes of the path.
\<close>

section \<open>Messages\<close>

record open_parameters =
  op_host :: string

record close_parameters =
  cp_host :: string

datatype client_message =
    CM_Open open_parameters
  | CM_UserData "byte list"
  | CM_Close close_parameters
  | CM_QueryStatus
  | CM_Exit
  | CM_Goodbye

datatype tunnel_status = TS_Open | TS_Closed | TS_Died

record tunnel_information =
  ti_host :: string
  ti_state :: tunnel_status

record status_information =
  tunnels :: "tunnel_information list"

datatype server_message =
    SM_Ok
  | SM_Error string
  | SM_SshData "byte list"
  | SM_TunnelAlreadyOpen
  | SM_TunnelNotOpen
  | SM_StatusResponse status_information

datatype open_result = OpenSuccess | OpenAlreadyOpen

datatype close_result = CloseSuccess | CloseNotOpen

section \<open>The socket path\<close>

text \<open>
  \<open>PathBuf::push\<close>: an absolute path replaces the old one, a relative one is appended with
  a separator where the old path does not already end in one.
\<close>

definition path_push :: "string \<Rightarrow> string \<Rightarrow> string" where
  "path_push p s =
     (if s \<noteq> [] \<and> hd s = CHR ''/'' then s
      else if p = [] \<or> last p = CHR ''/'' then p @ s
      else p @ CHR ''/'' # s)"

text \<open>\<open>home_dir\<close> is the answer of \<open>dirs::home_dir()\<close>.\<close>

definition get_socket_path :: "string option \<Rightarrow> string + string" where
  "get_socket_path home_dir =
     (case home_dir of
        None \<Rightarrow> Inl ''unable to determine your home directory''
      | Some p \<Rightarrow> Inr (path_push (path_push p ''.ssh'') ''stund.sock''))"

end
