(* ===== verification/KeyScan.thy ===== *)
theory KeyScan
  imports Protocol "HOL-Library.Sublist"
begin

text \<open>
  The search for the login marker in the output of SSH (\<open>src/daemon.rs\<close>, the inner loop
  of \<open>poll_communicating_for_open\<close>), and the marker itself (\<open>process_open_command\<close>).
\<close>

section \<open>The marker\<close>

text \<open>\<open>encode\<close> is the base64 engine, \<open>rnd\<close> what \<open>fill_bytes\<close> wrote; \<open>into_bytes\<close> follows.\<close>

definition make_key :: "(byte list \<Rightarrow> string) \<Rightarrow> byte list \<Rightarrow> string" where
  "make_key encode rnd = ''STUND:'' @ encode rnd"

definition into_bytes :: "string \<Rightarrow> byte list" where
  "into_bytes s = map of_char s"

section \<open>The search\<close>

datatype ssh_key_status = Searching nat | FoundIt

text \<open>
  The loop over the bytes of a chunk, from index \<open>n\<close> of the key. \<open>Panic\<close> is the
  out-of-bounds panic of \<open>ssh_key[n]\<close>.
\<close>

fun scan_bytes :: "byte list \<Rightarrow> nat \<Rightarrow> byte list \<Rightarrow> nat run" where
  "scan_bytes key n [] = Return n"
| "scan_bytes key n (b # bs) =
     (if n < length key then
        if b = key ! n then
          if n + 1 = length key then Return (n + 1) else scan_bytes key (n + 1) bs
        else scan_bytes key 0 bs
      else Panic)"

definition search_key :: "byte list \<Rightarrow> ssh_key_status \<Rightarrow> byte list \<Rightarrow> ssh_key_status run" where
  "search_key key status bytes =
     (case status of
        FoundIt \<Rightarrow> Return FoundIt
      | Searching next_idx \<Rightarrow>
          run_bind (scan_bytes key next_idx bytes)
            (\<lambda>n. Return (if n = length key then FoundIt else Searching n)))"

text \<open>The chunks of a session, one after the other.\<close>

fun search_chunks :: "byte list \<Rightarrow> ssh_key_status \<Rightarrow> byte list list \<Rightarrow> ssh_key_status run" where
  "search_chunks key status [] = Return status"
| "search_chunks key status (c # cs) =
     run_bind (search_key key status c) (\<lambda>s. search_chunks key s cs)"

section \<open>Status well-formedness\<close>

text \<open>The index kept between chunks is inside the key.\<close>

fun status_ok :: "byte list \<Rightarrow> ssh_key_status \<Rightarrow> bool" where
  "status_ok key (Searching n) \<longleftrightarrow> n < length key"
| "status_ok key FoundIt \<longleftrightarrow> key \<noteq> []"

lemma index_nonempty: "n < length key \<Longrightarrow> key \<noteq> []"
  by auto

lemma status_ok_nonempty: "status_ok key s \<Longrightarrow> key \<noteq> []"
  by (cases s) auto

text \<open>The three things one byte can do to an index inside the key.\<close>

lemma scan_step_cases:
  assumes "n < length key"
  obtains (full) "b = key ! n" "n + 1 = length key"
      "\<And>bs. scan_bytes key n (b # bs) = Return (length key)"
    | (hit) "b = key ! n" "n + 1 < length key"
      "\<And>bs. scan_bytes key n (b # bs) = scan_bytes key (n + 1) bs"
    | (miss) "b \<noteq> key ! n" "0 < length key"
      "\<And>bs. scan_bytes key n (b # bs) = scan_bytes key 0 bs"
proof (cases "b = key ! n")
  case hit: True
  show thesis
  proof (cases "n + 1 = length key")
    case True
    with hit assms show thesis by (intro that(1)) simp_all
  next
    case False
    with hit assms show thesis by (intro that(2)) simp_all
  qed
next
  case False
  from assms have "0 < length key" by linarith
  with False assms show thesis by (intro that(3)) simp_all
qed

lemma scan_bytes_returns:
  "n < length key \<Longrightarrow> \<exists>m \<le> length key. scan_bytes key n bs = Return m"
proof (induction bs arbitrary: n)
  case Nil
  then show ?case by (auto intro: less_imp_le)
next
  case (Cons b bs)
  from Cons.prems show ?case
  proof (cases rule: scan_step_cases [where b = b])
    case full
    then show ?thesis by blast
  next
    case hit
    from Cons.IH [OF hit(2)] show ?thesis by (simp only: hit(3))
  next
    case miss
    from Cons.IH [OF miss(2)] show ?thesis by (simp only: miss(3))
  qed
qed

text \<open>The status a scan ends in.\<close>

definition status_of :: "byte list \<Rightarrow> nat \<Rightarrow> ssh_key_status" where
  "status_of key n = (if n = length key then FoundIt else Searching n)"

lemma search_key_Searching:
  "search_key key (Searching n) bs = run_bind (scan_bytes key n bs) (\<lambda>m. Return (status_of key m))"
  by (simp add: search_key_def status_of_def)

lemma status_of_ok: "key \<noteq> [] \<Longrightarrow> m \<le> length key \<Longrightarrow> status_ok key (status_of key m)"
  by (simp add: status_of_def)

lemma search_key_returns:
  assumes "status_ok key s"
  shows "\<exists>s'. search_key key s bs = Return s' \<and> status_ok key s'"
proof (cases s)
  case (Searching n)
  with assms have n: "n < length key" by simp
  obtain m where m: "m \<le> length key" "scan_bytes key n bs = Return m"
    using scan_bytes_returns [OF n] by blast
  have "search_key key s bs = Return (status_of key m)"
    unfolding Searching search_key_Searching m(2) run_bind.simps ..
  with status_of_ok [OF index_nonempty [OF n] m(1)] show ?thesis by blast
qed (use assms in \<open>simp add: search_key_def\<close>)

lemma search_chunks_returns:
  "status_ok key s \<Longrightarrow> \<exists>s'. search_chunks key s cs = Return s' \<and> status_ok key s'"
proof (induction cs arbitrary: s)
  case (Cons c cs)
  then show ?case using search_key_returns [of key s c] by auto
qed simp

section \<open>Chunk boundaries do not matter\<close>

lemma scan_bytes_append:
  "n < length key \<Longrightarrow>
   scan_bytes key n (xs @ ys) =
     run_bind (scan_bytes key n xs)
       (\<lambda>m. if m = length key then Return m else scan_bytes key m ys)"
proof (induction xs arbitrary: n)
  case (Cons x xs)
  from Cons.prems show ?case
  proof (cases rule: scan_step_cases [where b = x])
    case full
    then show ?thesis by (simp only: append_Cons run_bind.simps refl if_True)
  next
    case hit
    from Cons.IH [OF hit(2)] show ?thesis by (simp only: append_Cons hit(3))
  next
    case miss
    from Cons.IH [OF miss(2)] show ?thesis by (simp only: append_Cons miss(3))
  qed
qed simp

lemma search_key_append:
  assumes "status_ok key s"
  shows "search_key key s (xs @ ys) = run_bind (search_key key s xs) (\<lambda>s'. search_key key s' ys)"
proof (cases s)
  case (Searching n)
  with assms have n: "n < length key" by simp
  obtain m where m: "m \<le> length key" "scan_bytes key n xs = Return m"
    using scan_bytes_returns [OF n] by blast
  show ?thesis
    unfolding Searching search_key_Searching scan_bytes_append [OF n] m(2) run_bind.simps
    by (cases "m = length key") (simp_all add: status_of_def search_key_def)
qed (simp add: search_key_def)

lemma search_key_Nil: "status_ok key s \<Longrightarrow> search_key key s [] = Return s"
  by (cases s) (auto simp: search_key_def)

lemma search_chunks_concat_lemma:
  "status_ok key s \<Longrightarrow> search_chunks key s cs = search_key key s (concat cs)"
proof (induction cs arbitrary: s)
  case Nil
  then show ?case by (simp add: search_key_Nil)
next
  case (Cons c cs)
  from search_key_returns [OF Cons.prems] obtain s' where
    "search_key key s c = Return s'" "status_ok key s'" by blast
  with Cons show ?case by (simp add: search_key_append)
qed

section \<open>A hit is a real occurrence\<close>

text \<open>
  What the index means: the last \<open>m\<close> bytes read are the first \<open>m\<close> of the key, and at the
  full length the whole key has been read.
\<close>

lemma take_Suc_snoc:
  "n < length key \<Longrightarrow> take n key @ key ! n # bs = take (Suc n) key @ bs"
  by (simp add: take_Suc_conv_app_nth)

lemma scan_bytes_suffix:
  "n < length key \<Longrightarrow> scan_bytes key n bs = Return m \<Longrightarrow> m < length key \<Longrightarrow>
   suffix (take m key) (take n key @ bs)"
proof (induction bs arbitrary: n)
  case (Cons b bs)
  from Cons.prems(1) show ?case
  proof (cases rule: scan_step_cases [where b = b])
    case full
    with Cons.prems show ?thesis by (simp only: run.inject)
  next
    case hit
    with Cons.prems Cons.IH [OF hit(2)] show ?thesis by (simp add: take_Suc_snoc)
  next
    case miss
    from Cons.prems(2) have "scan_bytes key 0 bs = Return m" by (simp only: miss(3))
    with Cons.IH [OF miss(2)] Cons.prems(3) have "suffix (take m key) bs" by simp
    then have "suffix (take m key) ((take n key @ [b]) @ bs)" by (rule suffix_appendI)
    then show ?thesis by simp
  qed
qed auto

lemma scan_bytes_sublist:
  "n < length key \<Longrightarrow> scan_bytes key n bs = Return (length key) \<Longrightarrow>
   sublist key (take n key @ bs)"
proof (induction bs arbitrary: n)
  case (Cons b bs)
  from Cons.prems(1) show ?case
  proof (cases rule: scan_step_cases [where b = b])
    case full
    then have "take n key @ b # bs = key @ bs"
      using take_Suc_snoc [OF Cons.prems(1), of bs] by simp
    then show ?thesis by (simp only: sublist_append_rightI)
  next
    case hit
    with Cons.prems Cons.IH [OF hit(2)] show ?thesis by (simp add: take_Suc_snoc)
  next
    case miss
    from Cons.prems(2) have "scan_bytes key 0 bs = Return (length key)" by (simp only: miss(3))
    with Cons.IH [OF miss(2)] have "sublist key bs" by simp
    then have "sublist key ((take n key @ [b]) @ bs)"
      by (metis sublist_append_leftI sublist_order.order_trans)
    then show ?thesis by simp
  qed
qed auto

lemma search_key_FoundIt_iff:
  "status_ok key (Searching n) \<Longrightarrow>
   search_key key (Searching n) bs = Return FoundIt \<longleftrightarrow>
     scan_bytes key n bs = Return (length key)"
  by (auto simp: search_key_def split: if_splits)

section \<open>When an occurrence is found\<close>

text \<open>Reading the rest of the key from index \<open>n\<close> completes it.\<close>

lemma scan_bytes_rest:
  "n < length key \<Longrightarrow> scan_bytes key n (drop n key @ post) = Return (length key)"
proof (induction "length key - n" arbitrary: n)
  case (Suc k)
  then have "drop n key = key ! n # drop (Suc n) key" by (simp add: Cons_nth_drop_Suc)
  with Suc show ?case by auto
qed simp

text \<open>A byte that is nowhere in the key sets the index back to 0.\<close>

lemma scan_bytes_break:
  assumes "n < length key" "b \<notin> set key"
  shows "scan_bytes key n (xs @ [b]) = Return (length key) \<or> scan_bytes key n (xs @ [b]) = Return 0"
proof -
  obtain m where m: "m \<le> length key" "scan_bytes key n xs = Return m"
    using scan_bytes_returns [OF assms(1)] by blast
  show ?thesis
  proof (cases "m = length key")
    case False
    with m have "m < length key" by simp
    with assms(2) have "b \<noteq> key ! m" by (metis nth_mem)
    with m False \<open>m < length key\<close> show ?thesis by (simp add: scan_bytes_append [OF assms(1)])
  qed (simp add: m scan_bytes_append [OF assms(1)])
qed

lemma scan_bytes_found_stays:
  assumes "n < length key" "scan_bytes key n xs = Return (length key)"
  shows "scan_bytes key n (xs @ ys) = Return (length key)"
  by (simp add: scan_bytes_append assms)

lemma scan_bytes_line:
  assumes "key \<noteq> []" "pre = [] \<or> last pre \<notin> set key"
  shows "scan_bytes key 0 (pre @ key @ post) = Return (length key)"
proof (cases "pre = []")
  case True
  with scan_bytes_rest [of 0 key post] assms(1) show ?thesis by simp
next
  case False
  then obtain xs b where pre: "pre = xs @ [b]" by (metis rev_exhaust)
  with assms False have b: "b \<notin> set key" by simp
  from assms(1) have n: "0 < length key" by simp
  from scan_bytes_rest [OF n] have key: "scan_bytes key 0 (key @ post) = Return (length key)"
    by simp
  from scan_bytes_break [OF n b, of xs]
  have "run_bind (scan_bytes key 0 (xs @ [b]))
      (\<lambda>m. if m = length key then Return m else scan_bytes key m (key @ post)) = Return (length key)"
    by (elim disjE) (use n key in simp_all)
  then show ?thesis
    unfolding pre scan_bytes_append [OF n, of "xs @ [b]" "key @ post", symmetric] .
qed

text \<open>
  After a mismatch the byte just read is not looked at again as the first byte of the
  key: the beginning of a key directly before the key hides the key.
\<close>

lemma scan_bytes_bound:
  "n < length key \<Longrightarrow> scan_bytes key n bs = Return m \<Longrightarrow> m \<le> n + length bs"
proof (induction bs arbitrary: n)
  case (Cons b bs)
  from Cons.prems(1) show ?case
  proof (cases rule: scan_step_cases [where b = b])
    case full
    with Cons.prems show ?thesis by (simp only: run.inject) simp
  next
    case hit
    from Cons.prems(2) Cons.IH [OF hit(2)] show ?thesis by (simp only: hit(3)) simp
  next
    case miss
    from Cons.prems(2) Cons.IH [OF miss(2)] show ?thesis by (simp only: miss(3)) simp
  qed
qed simp

lemma scan_bytes_prefix:
  "n + k < length key \<Longrightarrow> scan_bytes key n (take k (drop n key)) = Return (n + k)"
proof (induction k arbitrary: n)
  case (Suc k)
  then have "drop n key = key ! n # drop (Suc n) key" by (simp add: Cons_nth_drop_Suc)
  with Suc.IH [of "Suc n"] Suc.prems show ?case by simp
qed simp

lemma scan_bytes_hidden:
  assumes "0 < k" "k < length key" "key ! k \<noteq> key ! 0"
  shows "\<exists>m. m < length key \<and> scan_bytes key 0 (take k key @ key) = Return m"
proof -
  from assms(2) have n: "0 < length key" by linarith
  then obtain a rest where key: "key = a # rest" by (cases key) auto
  obtain m where m: "scan_bytes key 0 rest = Return m" "m \<le> length key"
    using scan_bytes_returns [OF n, of rest] by blast
  from scan_bytes_bound [OF n m(1)] key have "m < length key" by simp
  moreover from assms key have "scan_bytes key k key = scan_bytes key 0 rest"
    by (subst (2) key) simp
  then have "scan_bytes key 0 (take k key @ key) = Return m"
    using scan_bytes_prefix [of 0 k key] assms(2) m(1) by (simp add: scan_bytes_append [OF n])
  ultimately show ?thesis by blast
qed

section \<open>Properties of the search\<close>

lemma make_key_bytes:
  "into_bytes (make_key encode rnd) =
     into_bytes ''STUND:'' @ into_bytes (encode rnd)"
  by (simp add: into_bytes_def make_key_def)

lemma stund_bytes: "into_bytes ''STUND:'' = [83, 84, 85, 78, 68, 58]"
  by (simp add: into_bytes_def of_char_def)

lemma make_key_length: "6 \<le> length (into_bytes (make_key encode rnd))"
  by (simp add: make_key_bytes stund_bytes)

lemma make_key_nonempty [simp]: "into_bytes (make_key encode rnd) \<noteq> []"
  by (simp add: make_key_bytes stund_bytes)

lemma search_from_start:
  "key \<noteq> [] \<Longrightarrow> search_chunks key (Searching 0) cs = search_key key (Searching 0) (concat cs)"
  by (rule search_chunks_concat_lemma) simp

lemma marker_line_search:
  assumes "10 \<notin> set (into_bytes (encode rnd))"
    and "pre = [] \<or> last pre = 10"
    and "concat cs = pre @ into_bytes (make_key encode rnd) @ post"
  shows "search_chunks (into_bytes (make_key encode rnd)) (Searching 0) cs = Return FoundIt"
proof -
  let ?key = "into_bytes (make_key encode rnd)"
  from assms(1) have "10 \<notin> set ?key" by (simp add: make_key_bytes stund_bytes)
  with assms(2) have "pre = [] \<or> last pre \<notin> set ?key" by auto
  then have "scan_bytes ?key 0 (concat cs) = Return (length ?key)"
    unfolding assms(3) by (rule scan_bytes_line [OF make_key_nonempty])
  then show ?thesis by (simp add: search_from_start search_key_FoundIt_iff)
qed

text \<open>C11. The chunks in which the PTY delivers the output do not matter: searching chunk by
  chunk, with the index carried over, is searching the whole output at once.\<close>

theorem search_chunk_independent:
  assumes "status_ok key s"
  shows "search_chunks key s cs = search_key key s (concat cs)"
  using assms by (rule search_chunks_concat_lemma)

theorem search_chunk_independent_witness:
  "search_chunks [83, 84, 85] (Searching 1) [[84], [], [85, 7]] =
     search_key [83, 84, 85] (Searching 1) [84, 85, 7]"
  using search_chunk_independent [of "[83, 84, 85]" "Searching 1" "[[84], [], [85, 7]]"] by simp

text \<open>C10. The marker that \<open>echo\<close> prints is found, in whatever chunks it arrives, when it is
  the first output or follows a line feed. (The base64 text must have no line feed.)\<close>

theorem marker_line_found:
  assumes "10 \<notin> set (into_bytes (encode rnd))"
    and "pre = [] \<or> last pre = 10"
    and "concat cs = pre @ into_bytes (make_key encode rnd) @ post"
  shows "search_chunks (into_bytes (make_key encode rnd)) (Searching 0) cs = Return FoundIt"
  using assms by (rule marker_line_search)

theorem marker_line_found_witness:
  "search_chunks (into_bytes (make_key (map (\<lambda>b. if b < 128 then CHR ''A'' else CHR ''B'')) [1, 200]))
     (Searching 0) [[83, 10, 83, 84], [85, 78, 68, 58, 65], [66, 13, 10]] = Return FoundIt"
  by (rule marker_line_found [where pre = "[83, 10]" and post = "[13, 10]"])
    (simp_all add: make_key_def into_bytes_def of_char_def)

text \<open>C39. The search has false negatives: when it stands at the start of the marker and a nonempty
  beginning of the marker comes directly before the marker itself, the marker occurs in the
  output and the search misses it, in whatever chunks the output arrives, because a mismatch
  throws the byte away instead of trying it as the start of the marker. (The byte of the marker
  at which the two differ must not be an \<open>S\<close>; for the beginnings of \<open>STUND:\<close> up to \<open>STUND\<close> it is
  not.)\<close>

theorem marker_hidden_by_prefix:
  assumes "0 < k" "k < length (make_key encode rnd)"
    and "k < 6 \<or> into_bytes (make_key encode rnd) ! k \<noteq> 83"
    and "search_key (into_bytes (make_key encode rnd)) (Searching 0) pre = Return (Searching 0)"
    and "concat cs = pre @ take k (into_bytes (make_key encode rnd)) @ into_bytes (make_key encode rnd)"
  shows "\<exists>n. search_chunks (into_bytes (make_key encode rnd)) (Searching 0) cs = Return (Searching n) \<and>
    sublist (into_bytes (make_key encode rnd)) (concat cs)"
proof -
  let ?key = "into_bytes (make_key encode rnd)"
  have k: "k < length ?key" using assms(2) by (simp add: into_bytes_def)
  have "?key ! k \<noteq> ?key ! 0"
  proof (cases "k < 6")
    case True
    with assms(1) have "k \<in> {1, 2, 3, 4, 5}" by auto
    then show ?thesis by (auto simp: make_key_bytes stund_bytes)
  qed (use assms(3) in \<open>simp add: make_key_bytes stund_bytes\<close>)
  from scan_bytes_hidden [OF assms(1) k this] obtain m where
    "m < length ?key" "scan_bytes ?key 0 (take k ?key @ ?key) = Return m" by blast
  then have "search_key ?key (Searching 0) (take k ?key @ ?key) = Return (Searching m)"
    by (simp add: search_key_Searching status_of_def)
  then have "search_chunks ?key (Searching 0) cs = Return (Searching m)"
    using assms(4,5) by (simp add: search_from_start search_key_append)
  moreover have "sublist ?key (concat cs)"
    unfolding assms(5) using sublist_append_leftI [of ?key "pre @ take k ?key"] by simp
  ultimately show ?thesis by blast
qed

theorem marker_hidden_by_prefix_witness:
  "\<exists>n. search_chunks (into_bytes (make_key (\<lambda>b. ''AB'') [])) (Searching 0)
        [[104, 105, 32, 83], [84, 83, 84, 85, 78], [68, 58, 65, 66]] = Return (Searching n) \<and>
      sublist (into_bytes (make_key (\<lambda>b. ''AB'') [])) [104, 105, 32, 83, 84, 83, 84, 85, 78, 68, 58, 65, 66]"
  using marker_hidden_by_prefix [of 2 "\<lambda>b. ''AB''" "[]" "[104, 105, 32]"
      "[[104, 105, 32, 83], [84, 83, 84, 85, 78], [68, 58, 65, 66]]"]
  by (simp add: make_key_def into_bytes_def of_char_def search_key_def)

end
