(* ===== verification/Child.thy ===== *)
theory Child
  imports Prelude
begin

text \<open>
  \<open>Child\<close> of \<open>tokio-pty-process/src/lib.rs\<close>: a process that is polled for its exit, killed,
  and killed when it is dropped. The kernel's answers to \<open>waitpid\<close> and the \<open>SIGCHLD\<close> stream
  are arguments; the pids that get a \<open>SIGKILL\<close> are part of the results.
\<close>

section \<open>State and operations\<close>

type_synonym exit_status = "32 word"
type_synonym pid = "32 word"

record child =
  inner_id :: pid
  kill_on_drop :: bool
  reaped :: bool

definition child_new :: "pid \<Rightarrow> child" where
  "child_new inner = \<lparr>inner_id = inner, kill_on_drop = True, reaped = False\<rparr>"

definition child_id :: "child \<Rightarrow> pid" where
  [simp]: "child_id c = inner_id c"

text \<open>\<open>std::process::Child::kill\<close> signals the process and answers with \<open>os\<close>.\<close>

definition child_kill :: "child \<Rightarrow> io_error + unit \<Rightarrow> (io_error + unit) \<times> pid list" where
  "child_kill c os = (if reaped c then (Inr (), []) else (os, [inner_id c]))"

definition child_drop :: "child \<Rightarrow> io_error + unit \<Rightarrow> pid list" where
  "child_drop c os = (if kill_on_drop c then snd (child_kill c os) else [])"

text \<open>\<open>forget\<close> takes the child by value: it is dropped at the end of the call.\<close>

definition child_forget :: "child \<Rightarrow> io_error + unit \<Rightarrow> pid list" where
  "child_forget c os = child_drop (c\<lparr>kill_on_drop := False\<rparr>) os"

text \<open>One return of \<open>waitpid(id, &mut status, WNOHANG)\<close> and the error it left in \<open>errno\<close>.\<close>

record waitpid_answer =
  wp_ret :: int
  wp_status :: exit_status
  wp_errno :: io_error

text \<open>The child's id \<open>as c_int\<close> is \<open>sint\<close>; \<open>assert_eq!(n, id)\<close> panics.\<close>

fun try_wait ::
  "child \<Rightarrow> waitpid_answer list \<Rightarrow> ((io_error + exit_status option) \<times> waitpid_answer list) run"
where
  "try_wait c [] = Starved"
| "try_wait c (a # as) =
     (if wp_ret a = 0 then Return (Inr None, as)
      else if wp_ret a < 0 then
        if kind (wp_errno a) = Interrupted then try_wait c as
        else Return (Inl (wp_errno a), as)
      else if wp_ret a = sint (child_id c) then Return (Inr (Some (wp_status a)), as)
      else Panic)"

fun poll_exit_loop ::
  "child \<Rightarrow> waitpid_answer list \<Rightarrow> (unit option, io_error) poll list \<Rightarrow>
   ((exit_status, io_error) poll \<times> child) run" where
  "poll_exit_loop c waits sigs =
     (case try_wait c waits of
        Panic \<Rightarrow> Panic
      | Starved \<Rightarrow> Starved
      | Return (r, waits') \<Rightarrow>
          (case r of
             Inl e \<Rightarrow> Return (PollErr e, c)
           | Inr (Some e) \<Rightarrow> Return (Ready e, c\<lparr>reaped := True\<rparr>)
           | Inr None \<Rightarrow>
               (case sigs of
                  [] \<Rightarrow> Starved
                | PollErr e # _ \<Rightarrow> Return (PollErr e, c)
                | NotReady # _ \<Rightarrow> Return (NotReady, c)
                | Ready _ # sigs' \<Rightarrow> poll_exit_loop c waits' sigs')))"

declare poll_exit_loop.simps [simp del]

definition poll_exit ::
  "child \<Rightarrow> waitpid_answer list \<Rightarrow> (unit option, io_error) poll list \<Rightarrow>
   ((exit_status, io_error) poll \<times> child) run" where
  "poll_exit c waits sigs = (if reaped c then Panic else poll_exit_loop c waits sigs)"

text \<open>\<open>Child\<close> as a future.\<close>

definition child_poll ::
  "child \<Rightarrow> waitpid_answer list \<Rightarrow> (unit option, io_error) poll list \<Rightarrow>
   ((exit_status, io_error) poll \<times> child) run" where
  [simp]: "child_poll c waits sigs = poll_exit c waits sigs"

section \<open>What the kernel promises\<close>

text \<open>
  \<open>waitpid\<close> on one pid returns 0, an error, or that pid; a pid read back as \<open>c_int\<close> is
  positive.
\<close>

definition wait_answer_ok :: "child \<Rightarrow> waitpid_answer \<Rightarrow> bool" where
  "wait_answer_ok c a \<longleftrightarrow> wp_ret a \<le> 0 \<or> wp_ret a = sint (inner_id c)"

section \<open>Facts about the operations\<close>

lemma try_wait_not_Panic:
  "list_all (wait_answer_ok c) waits \<Longrightarrow> try_wait c waits \<noteq> Panic"
  by (induction c waits rule: try_wait.induct) (auto simp: wait_answer_ok_def)

lemma try_wait_rest:
  "try_wait c waits = Return (r, waits') \<Longrightarrow> set waits' \<subseteq> set waits"
  by (induction c waits rule: try_wait.induct) (auto split: if_splits)

lemma try_wait_status:
  "try_wait c waits = Return (Inr (Some e), waits') \<Longrightarrow>
   \<exists>a \<in> set waits. 0 < wp_ret a \<and> wp_ret a = sint (inner_id c) \<and> wp_status a = e"
  by (induction c waits rule: try_wait.induct) (auto split: if_splits)

lemma poll_exit_loop_not_Panic:
  "list_all (wait_answer_ok c) waits \<Longrightarrow> poll_exit_loop c waits sigs \<noteq> Panic"
proof (induction sigs arbitrary: waits)
  case Nil
  with try_wait_not_Panic show ?case
    by (subst poll_exit_loop.simps) (simp split: run.split prod.split sum.split option.split)
next
  case (Cons s sigs)
  have "poll_exit_loop c waits' sigs \<noteq> Panic" if "try_wait c waits = Return (r, waits')" for r waits'
    using try_wait_rest [OF that] Cons.prems by (intro Cons.IH) (auto simp: list_all_iff)
  with try_wait_not_Panic [OF Cons.prems] show ?case
    by (subst poll_exit_loop.simps)
      (simp split: run.split prod.split sum.split option.split poll.split)
qed

text \<open>A poll changes nothing but the \<open>reaped\<close> flag, and that exactly when it returns a status.\<close>

definition after_poll :: "(exit_status, io_error) poll \<Rightarrow> child \<Rightarrow> child" where
  "after_poll r c = (case r of Ready _ \<Rightarrow> c\<lparr>reaped := True\<rparr> | _ \<Rightarrow> c)"

lemma poll_exit_loop_child:
  "poll_exit_loop c waits sigs = Return (r, c') \<Longrightarrow> c' = after_poll r c"
proof (induction sigs arbitrary: waits)
  case Nil
  then show ?case
    by (subst (asm) poll_exit_loop.simps)
      (auto simp: after_poll_def split: run.splits sum.splits option.splits)
next
  case (Cons s sigs)
  from Cons.prems show ?case
    by (subst (asm) poll_exit_loop.simps)
      (auto dest!: Cons.IH simp: after_poll_def
        split: run.splits sum.splits option.splits poll.splits(2))
qed

lemma poll_exit_loop_status:
  "poll_exit_loop c waits sigs = Return (Ready e, c') \<Longrightarrow>
   \<exists>a \<in> set waits. 0 < wp_ret a \<and> wp_ret a = sint (inner_id c) \<and> wp_status a = e"
proof (induction sigs arbitrary: waits)
  case Nil
  then show ?case
    by (subst (asm) poll_exit_loop.simps)
      (auto split: run.splits sum.splits option.splits dest!: try_wait_status)
next
  case (Cons s sigs)
  show ?case
  proof (cases "\<exists>waits'. try_wait c waits = Return (Inr None, waits')")
    case True
    then obtain waits' where w: "try_wait c waits = Return (Inr None, waits')" by blast
    with Cons.prems have "poll_exit_loop c waits' sigs = Return (Ready e, c')"
      by (subst (asm) poll_exit_loop.simps) (auto split: poll.splits)
    from Cons.IH [OF this] try_wait_rest [OF w] show ?thesis by blast
  next
    case False
    with Cons.prems obtain waits' where "try_wait c waits = Return (Inr (Some e), waits')"
      by (subst (asm) poll_exit_loop.simps) (auto split: run.splits sum.splits option.splits)
    then show ?thesis by (rule try_wait_status)
  qed
qed

lemma poll_exit_child:
  "poll_exit c waits sigs = Return (r, c') \<Longrightarrow> \<not> reaped c \<and> c' = after_poll r c"
  by (auto simp: poll_exit_def dest: poll_exit_loop_child split: if_splits)

lemma poll_exit_not_Panic:
  "\<not> reaped c \<Longrightarrow> list_all (wait_answer_ok c) waits \<Longrightarrow> poll_exit c waits sigs \<noteq> Panic"
  by (simp add: poll_exit_def poll_exit_loop_not_Panic)

lemma after_poll_keeps [simp, keeps]:
  "inner_id (after_poll r c) = inner_id c"
  "kill_on_drop (after_poll r c) = kill_on_drop c"
  by (simp_all add: after_poll_def split: poll.split)

lemma after_poll_reaped:
  "reaped (after_poll r c) \<longleftrightarrow> reaped c \<or> (\<exists>e. r = Ready e)"
  by (simp add: after_poll_def split: poll.split)

section \<open>Enough answers\<close>

text \<open>
  \<open>try_wait\<close> asks again only after an interrupted call, \<open>poll_exit\<close> only after the signal
  stream was ready: with one conclusive answer of \<open>waitpid\<close> for each signal, and a signal
  answer that is not ready, the poll returns.
\<close>

definition conclusive :: "waitpid_answer \<Rightarrow> bool" where
  "conclusive a \<longleftrightarrow> \<not> (wp_ret a < 0 \<and> kind (wp_errno a) = Interrupted)"

lemma try_wait_enough:
  "filter conclusive waits \<noteq> [] \<Longrightarrow> try_wait c waits \<noteq> Starved \<and>
   (\<forall>r waits'. try_wait c waits = Return (r, waits') \<longrightarrow>
      filter conclusive waits' = tl (filter conclusive waits))"
  by (induction c waits rule: try_wait.induct) (auto simp: conclusive_def)

lemma poll_exit_loop_enough:
  "length sigs \<le> length (filter conclusive waits) \<Longrightarrow> \<exists>s \<in> set sigs. \<forall>v. s \<noteq> Ready v \<Longrightarrow>
   poll_exit_loop c waits sigs \<noteq> Starved"
proof (induction sigs arbitrary: waits)
  case (Cons s sigs)
  from Cons.prems(1) have "filter conclusive waits \<noteq> []" by auto
  note enough = try_wait_enough [OF this, of c]
  have "poll_exit_loop c waits' sigs \<noteq> Starved"
    if "try_wait c waits = Return (r, waits')" "s = Ready v" for r waits' v
    using enough that Cons.prems by (intro Cons.IH) auto
  with enough show ?case
    by (subst poll_exit_loop.simps)
      (simp split: run.split prod.split sum.split option.split poll.split)
qed simp

section \<open>The contract of a process handle\<close>

text \<open>
  A handle is polled, killed and at last dropped; the events of its life are the reaping of
  the process and the signals sent to it. After the reaping the pid may belong to another
  process.
\<close>

datatype ('i, 'k) handle_op = PollOp 'i | KillOp 'k

datatype handle_event = Reaped | Signalled pid

fun handle_life ::
  "('h \<Rightarrow> 'i \<Rightarrow> ((exit_status, io_error) poll \<times> 'h) run) \<Rightarrow> ('h \<Rightarrow> 'k \<Rightarrow> pid list) \<Rightarrow>
   ('h \<Rightarrow> 'k \<Rightarrow> pid list) \<Rightarrow> ('i, 'k) handle_op list \<Rightarrow> 'k \<Rightarrow> 'h \<Rightarrow> handle_event list run"
where
  "handle_life poll_h kill_h drop_h [] k h = Return (map Signalled (drop_h h k))"
| "handle_life poll_h kill_h drop_h (PollOp i # ops) k h =
     run_bind (poll_h h i) (\<lambda>(r, h').
       run_bind (handle_life poll_h kill_h drop_h ops k h') (\<lambda>es.
         Return ((case r of Ready _ \<Rightarrow> [Reaped] | _ \<Rightarrow> []) @ es)))"
| "handle_life poll_h kill_h drop_h (KillOp a # ops) k h =
     run_bind (handle_life poll_h kill_h drop_h ops k h) (\<lambda>es.
       Return (map Signalled (kill_h h a) @ es))"

fun signal_safe :: "handle_event list \<Rightarrow> bool" where
  "signal_safe [] = True"
| "signal_safe (Reaped # es) \<longleftrightarrow> list_all (\<lambda>e. e = Reaped) es"
| "signal_safe (Signalled p # es) \<longleftrightarrow> signal_safe es"

lemma signal_safe_signals [simp]: "signal_safe (map Signalled ps @ es) = signal_safe es"
  by (induction ps) auto

locale process_handle =
  fixes poll_h :: "'h \<Rightarrow> 'i \<Rightarrow> ((exit_status, io_error) poll \<times> 'h) run"
    and kill_h :: "'h \<Rightarrow> 'k \<Rightarrow> pid list"
    and drop_h :: "'h \<Rightarrow> 'k \<Rightarrow> pid list"
    and gone :: "'h \<Rightarrow> bool"
    and pid_of :: "'h \<Rightarrow> pid"
  assumes poll_ready: "poll_h h i = Return (Ready e, h') \<Longrightarrow> gone h'"
    and poll_alive: "poll_h h i = Return (r, h') \<Longrightarrow> \<not> gone h"
    and poll_pid: "poll_h h i = Return (r, h') \<Longrightarrow> pid_of h' = pid_of h"
    and kill_gone: "gone h \<Longrightarrow> kill_h h k = []"
    and drop_gone: "gone h \<Longrightarrow> drop_h h k = []"
    and kill_pid: "set (kill_h h k) \<subseteq> {pid_of h}"
    and drop_pid: "set (drop_h h k) \<subseteq> {pid_of h}"
begin

lemma life_gone:
  "gone h \<Longrightarrow> handle_life poll_h kill_h drop_h ops k h = Return es \<Longrightarrow> es = []"
proof (induction ops arbitrary: es)
  case (Cons x ops)
  then show ?case by (cases x) (auto simp: kill_gone dest: poll_alive)
qed (simp add: drop_gone)

lemma life_signal_safe:
  "handle_life poll_h kill_h drop_h ops k h = Return es \<Longrightarrow> signal_safe es"
proof (induction ops arbitrary: h es)
  case Nil
  then show ?case using signal_safe_signals [of "drop_h h k" "[]"] by simp
next
  case (Cons x ops)
  show ?case
  proof (cases x)
    case (PollOp i)
    with Cons.prems obtain r h' es' where
      p: "poll_h h i = Return (r, h')" and l: "handle_life poll_h kill_h drop_h ops k h' = Return es'"
      and es: "es = (case r of Ready _ \<Rightarrow> [Reaped] | _ \<Rightarrow> []) @ es'"
      by auto
    from Cons.IH [OF l] life_gone [OF _ l] p es show ?thesis
      by (cases r) (auto dest: poll_ready)
  next
    case (KillOp a)
    with Cons show ?thesis by auto
  qed
qed

lemma life_signals_own_pid:
  "handle_life poll_h kill_h drop_h ops k h = Return es \<Longrightarrow> Signalled p \<in> set es \<Longrightarrow> p = pid_of h"
proof (induction ops arbitrary: h es)
  case Nil
  then show ?case using drop_pid [of h k] by auto
next
  case (Cons x ops)
  show ?case
  proof (cases x)
    case (PollOp i)
    with Cons.prems obtain r h' es' where
      p: "poll_h h i = Return (r, h')" and l: "handle_life poll_h kill_h drop_h ops k h' = Return es'"
      and es: "es = (case r of Ready _ \<Rightarrow> [Reaped] | _ \<Rightarrow> []) @ es'"
      by auto
    from es Cons.prems(2) have "Signalled p \<in> set es'" by (cases r) auto
    with Cons.IH [OF l] poll_pid [OF p] show ?thesis by simp
  next
    case (KillOp a)
    with Cons.prems Cons.IH kill_pid [of h a] show ?thesis by auto
  qed
qed

end

interpretation child: process_handle
  "\<lambda>c (waits, sigs). poll_exit c waits sigs"
  "\<lambda>c os. snd (child_kill c os)"
  child_drop reaped inner_id
proof unfold_locales
  fix c c' :: child and i e
  assume "(case i of (waits, sigs) \<Rightarrow> poll_exit c waits sigs) = Return (Ready e, c')"
  then show "reaped c'"
    by (cases i) (auto dest!: poll_exit_child simp: after_poll_reaped)
next
  fix c c' :: child and i r
  assume p: "(case i of (waits, sigs) \<Rightarrow> poll_exit c waits sigs) = Return (r, c')"
  then show "\<not> reaped c" by (cases i) (auto dest!: poll_exit_child)
  from p show "inner_id c' = inner_id c" by (cases i) (auto dest!: poll_exit_child)
qed (auto simp: child_kill_def child_drop_def)

section \<open>Properties\<close>

text \<open>C35. Signals after death: in any life of a child (polls with any answers of the kernel,
  kills, and the drop at the end) a \<open>SIGKILL\<close> only ever goes to the child's own pid, and never
  after the child has been reaped, when the pid may already belong to another process.\<close>

theorem child_never_signals_after_reaping:
  assumes "handle_life (\<lambda>c (waits, sigs). poll_exit c waits sigs) (\<lambda>c os. snd (child_kill c os))
      child_drop ops os (child_new pid) = Return events"
  shows "signal_safe events \<and> (\<forall>p. Signalled p \<in> set events \<longrightarrow> p = pid)"
  using child.life_signal_safe [OF assms] child.life_signals_own_pid [OF assms]
  by (simp add: child_new_def)

theorem child_never_signals_after_reaping_witness:
  "\<exists>events. handle_life (\<lambda>c (waits, sigs). poll_exit c waits sigs) (\<lambda>c os. snd (child_kill c os))
      child_drop
      [PollOp ([\<lparr>wp_ret = - 1, wp_status = 0, wp_errno = IoError Interrupted []\<rparr>,
          \<lparr>wp_ret = 0, wp_status = 0, wp_errno = IoError OtherKind []\<rparr>], [NotReady]),
       KillOp (Inr ()),
       PollOp ([\<lparr>wp_ret = 0, wp_status = 0, wp_errno = IoError OtherKind []\<rparr>,
          \<lparr>wp_ret = 7, wp_status = 9, wp_errno = IoError OtherKind []\<rparr>], [Ready (Some ())]),
       KillOp (Inr ())] (Inr ()) (child_new 7) = Return events \<and>
     signal_safe events \<and> events = [Signalled 7, Reaped]"
    (is "\<exists>events. ?life = Return events \<and> _")
proof -
  have life: "?life = Return [Signalled 7, Reaped]"
    by (simp add: child_new_def poll_exit_def poll_exit_loop.simps child_kill_def child_drop_def)
  with child_never_signals_after_reaping [OF life] show ?thesis by blast
qed

text \<open>C36. \<open>poll_exit\<close> on a child that has not been reaped never trips its assertions, and
  returns as soon as the kernel has given one conclusive \<open>waitpid\<close> answer per signal and a
  signal answer that is not ready.\<close>

theorem poll_exit_returns:
  assumes "\<not> reaped c" "list_all (wait_answer_ok c) waits"
    and "length sigs \<le> length (filter conclusive waits)" "\<exists>s \<in> set sigs. \<forall>v. s \<noteq> Ready v"
  shows "\<exists>r. poll_exit c waits sigs = Return (r, after_poll r c)"
proof -
  from assms poll_exit_not_Panic have "poll_exit c waits sigs \<noteq> Panic" by blast
  moreover from assms have "poll_exit c waits sigs \<noteq> Starved"
    by (simp add: poll_exit_def poll_exit_loop_enough)
  ultimately obtain r c' where "poll_exit c waits sigs = Return (r, c')"
    by (cases "poll_exit c waits sigs") auto
  with poll_exit_child [OF this] show ?thesis by blast
qed

theorem poll_exit_returns_witness:
  "\<exists>r. poll_exit (child_new 7)
     [\<lparr>wp_ret = - 1, wp_status = 0, wp_errno = IoError Interrupted []\<rparr>,
      \<lparr>wp_ret = 0, wp_status = 0, wp_errno = IoError OtherKind []\<rparr>] [NotReady] =
     Return (r, after_poll r (child_new 7))"
  by (rule poll_exit_returns)
    (simp_all add: child_new_def wait_answer_ok_def conclusive_def)

text \<open>A status returned by \<open>poll_exit\<close> is the one the kernel reported for this very pid.\<close>

theorem poll_exit_reports_own_status:
  assumes "poll_exit c waits sigs = Return (Ready status, c')"
  shows "\<exists>a \<in> set waits. wp_ret a = sint (inner_id c) \<and> wp_status a = status"
  using assms poll_exit_loop_status [of c waits sigs status c']
  by (auto simp: poll_exit_def split: if_splits)

theorem poll_exit_reports_own_status_witness:
  "\<exists>a \<in> set [\<lparr>wp_ret = 7, wp_status = 256, wp_errno = IoError OtherKind []\<rparr>].
     wp_ret a = sint (inner_id (child_new 7)) \<and> wp_status a = 256"
  by (rule poll_exit_reports_own_status [where sigs = "[]" and c' = "child_new 7\<lparr>reaped := True\<rparr>"])
    (simp add: poll_exit_def poll_exit_loop.simps child_new_def)

end
