(* ===== verification/Pty.thy ===== *)
theory Pty
  imports Child
begin

unbundle bit_operations_syntax

text \<open>
  The pseudo-terminal of \<open>tokio-pty-process\<close>: opening a master, finding and opening its
  slave, the size of the terminal, launching a command on it (\<open>lib.rs\<close>). The C library's return values are arguments; the
  calls the code makes are part of the results. A \<open>c_int\<close> is an \<open>int\<close> or, where its bits
  are combined, a \<open>32 word\<close>.
\<close>

section \<open>C library calls\<close>

text \<open>The platform's constants.\<close>

record libc_consts =
  O_RDWR :: "32 word"
  O_NOCTTY :: "32 word"
  O_NONBLOCK :: "32 word"

datatype 'attrs syscall =
    Posix_openpt "32 word"
  | Grantpt int
  | Unlockpt int
  | Fcntl_getfl int
  | Fcntl_setfl int "32 word"
  | Tcgetattr int
  | Tcsetattr_now int 'attrs
  | Close_fd int
  | Setsid
  | Ioctl_sctty int
  | Dup2 int int

section \<open>Opening a master\<close>

record open_answers =
  openpt_ret :: int
  grantpt_ret :: int
  unlockpt_ret :: int
  getfl_ret :: int
  setfl_ret :: int
  open_errno :: io_error

text \<open>\<open>nonblock_after\<close> is \<open>APPLY_NONBLOCK_AFTER_OPEN\<close>; the result on success is the descriptor.\<close>

definition async_pty_open ::
  "libc_consts \<Rightarrow> bool \<Rightarrow> open_answers \<Rightarrow> (io_error + int) \<times> 'attrs syscall list" where
  "async_pty_open k nonblock_after a =
     (let fd = openpt_ret a;
          flags = (if nonblock_after then O_RDWR k OR O_NOCTTY k
                   else O_RDWR k OR O_NOCTTY k OR O_NONBLOCK k);
          s1 = [Posix_openpt flags];
          s2 = s1 @ [Grantpt fd];
          s3 = s2 @ [Unlockpt fd];
          s4 = s3 @ [Fcntl_getfl fd];
          s5 = s4 @ [Fcntl_setfl fd (word_of_int (getfl_ret a) OR O_NONBLOCK k)]
      in if fd < 0 then (Inl (open_errno a), s1)
         else if grantpt_ret a \<noteq> 0 then (Inl (open_errno a), s2)
         else if unlockpt_ret a \<noteq> 0 then (Inl (open_errno a), s3)
         else if nonblock_after then
           if getfl_ret a < 0 then (Inl (open_errno a), s4)
           else if setfl_ret a = - 1 then (Inl (open_errno a), s5)
           else (Inr fd, s5)
         else (Inr fd, s3))"

text \<open>The status flags a call sequence leaves on the descriptor it opened.\<close>

definition flags_after :: "'attrs syscall list \<Rightarrow> 32 word" where
  "flags_after cs =
     fold (\<lambda>c f. case c of Posix_openpt g \<Rightarrow> g | Fcntl_setfl _ g \<Rightarrow> g | _ \<Rightarrow> f) cs 0"

section \<open>The name of the slave\<close>

text \<open>
  The buffer is 512 bytes, zeroed. \<open>ptsname_r\<close> fills it and returns 0; on macOS and
  FreeBSD \<open>ptsname\<close> returns a string (\<open>None\<close>: a null pointer) that \<open>strncpy\<close> copies.
  \<open>CStr::from_ptr\<close> reads up to the first NUL: \<open>None\<close> if it would run off the buffer, which is
  undefined behaviour and stands as \<open>Panic\<close> in the callers.
\<close>

datatype ptsname_answer =
    Ptsname_r int "byte list"
  | Ptsname "byte list option"

definition strncpy :: "byte list \<Rightarrow> nat \<Rightarrow> byte list" where
  "strncpy s n = take n (s @ replicate n 0)"

definition cstr_from_ptr :: "byte list \<Rightarrow> byte list option" where
  "cstr_from_ptr buf = (if 0 \<in> set buf then Some (takeWhile (\<lambda>b. b \<noteq> 0) buf) else None)"

definition read_ptsname :: "ptsname_answer \<Rightarrow> io_error \<Rightarrow> io_error + byte list option" where
  "read_ptsname a errno =
     (case a of
        Ptsname_r ret buf \<Rightarrow> if ret \<noteq> 0 then Inl errno else Inr (cstr_from_ptr (take 512 buf))
      | Ptsname None \<Rightarrow> Inl errno
      | Ptsname (Some st) \<Rightarrow> Inr (cstr_from_ptr (strncpy st 512)))"

text \<open>\<open>open_sync_pty_slave\<close>: \<open>open_file\<close> is the file system opening a path for reading and writing.\<close>

definition open_sync_pty_slave ::
  "ptsname_answer \<Rightarrow> io_error \<Rightarrow> (byte list \<Rightarrow> io_error + int) \<Rightarrow> (io_error + int) run" where
  "open_sync_pty_slave a errno open_file =
     (case read_ptsname a errno of
        Inl e \<Rightarrow> Return (Inl e)
      | Inr None \<Rightarrow> Panic
      | Inr (Some name) \<Rightarrow> Return (open_file name))"

section \<open>The \<open>PtyMaster\<close> trait\<close>

text \<open>\<open>fd\<close> is the answer of \<open>as_async_pty_fd\<close>; \<open>try_ready!\<close> passes on all but a ready one.\<close>

definition ptsname ::
  "(int, io_error) poll \<Rightarrow> ptsname_answer \<Rightarrow> io_error \<Rightarrow> (byte list, io_error) poll run" where
  "ptsname fd a errno =
     (case fd of
        NotReady \<Rightarrow> Return NotReady
      | PollErr e \<Rightarrow> Return (PollErr e)
      | Ready _ \<Rightarrow>
          (case read_ptsname a errno of
             Inl e \<Rightarrow> Return (PollErr e)
           | Inr None \<Rightarrow> Panic
           | Inr (Some name) \<Rightarrow> Return (Ready name)))"

record winsize =
  ws_row :: "16 word"
  ws_col :: "16 word"
  ws_xpixel :: "16 word"
  ws_ypixel :: "16 word"

text \<open>\<open>fetch fd\<close> is what \<open>ioctl(fd, TIOCGWINSZ, ..)\<close> returns and stores.\<close>

definition winsize_of ::
  "(int, io_error) poll \<Rightarrow> (int \<Rightarrow> int \<times> winsize) \<Rightarrow> io_error \<Rightarrow> (16 word \<times> 16 word, io_error) poll"
where
  "winsize_of fd fetch errno =
     (case fd of
        NotReady \<Rightarrow> NotReady
      | PollErr e \<Rightarrow> PollErr e
      | Ready fd \<Rightarrow>
          (case fetch fd of (ret, winsz) \<Rightarrow>
             if ret \<noteq> 0 then PollErr errno else Ready (ws_row winsz, ws_col winsz)))"

text \<open>\<open>put fd winsz\<close> is what \<open>ioctl(fd, TIOCSWINSZ, ..)\<close> returns.\<close>

definition resize ::
  "(int, io_error) poll \<Rightarrow> 16 word \<Rightarrow> 16 word \<Rightarrow> (int \<Rightarrow> winsize \<Rightarrow> int) \<Rightarrow> io_error \<Rightarrow>
   (unit, io_error) poll" where
  "resize fd rows cols put errno =
     (case fd of
        NotReady \<Rightarrow> NotReady
      | PollErr e \<Rightarrow> PollErr e
      | Ready fd \<Rightarrow>
          (if put fd \<lparr>ws_row = rows, ws_col = cols, ws_xpixel = 0, ws_ypixel = 0\<rparr> \<noteq> 0
           then PollErr errno else Ready ()))"

section \<open>Launching a command on the slave\<close>

text \<open>
  What runs in the forked process between \<open>fork\<close> and \<open>exec\<close>, and what the C library
  returns there. \<open>cfmakeraw\<close> is the C library's change of the terminal attributes.
\<close>

record 'attrs pre_exec_answers =
  tcgetattr_ret :: int
  tcgetattr_attrs :: 'attrs
  tcsetattr_ret :: int
  close_ret :: int
  setsid_ret :: int
  sctty_ret :: int
  pre_errno :: io_error

definition pre_exec ::
  "('attrs \<Rightarrow> 'attrs) \<Rightarrow> bool \<Rightarrow> int \<Rightarrow> int \<Rightarrow> 'attrs pre_exec_answers \<Rightarrow>
   (io_error + unit) \<times> 'attrs syscall list" where
  "pre_exec cfmakeraw raw master_fd slave_fd a =
     (let s1 = [Tcgetattr slave_fd];
          s2 = s1 @ [Tcsetattr_now slave_fd (cfmakeraw (tcgetattr_attrs a))];
          s3 = (if raw then s2 else []) @ [Close_fd master_fd];
          s4 = s3 @ [Setsid];
          s5 = s4 @ [Ioctl_sctty 0]
      in if raw \<and> tcgetattr_ret a \<noteq> 0 then (Inl (pre_errno a), s1)
         else if raw \<and> tcsetattr_ret a \<noteq> 0 then (Inl (pre_errno a), s2)
         else if close_ret a \<noteq> 0 then (Inl (pre_errno a), s3)
         else if setsid_ret a < 0 then (Inl (pre_errno a), s4)
         else if sctty_ret a \<noteq> 0 then (Inl (pre_errno a), s5)
         else (Inr (), s5))"

text \<open>
  \<open>std::process::Command::spawn\<close>: an error of \<open>fork\<close>, of the \<open>pre_exec\<close> closure or of
  \<open>exec\<close> is the error of the call; otherwise the new pid.
\<close>

definition std_spawn :: "io_error + pid \<Rightarrow> io_error + unit \<Rightarrow> io_error + unit \<Rightarrow> io_error + pid" where
  "std_spawn fork pre exec =
     (case fork of
        Inl e \<Rightarrow> Inl e
      | Inr pid \<Rightarrow>
          (case pre of
             Inl e \<Rightarrow> Inl e
           | Inr _ \<Rightarrow> (case exec of Inl e \<Rightarrow> Inl e | Inr _ \<Rightarrow> Inr pid)))"

record 'attrs spawn_answers =
  slave_name :: ptsname_answer
  slave_errno :: io_error
  slave_open :: "byte list \<Rightarrow> io_error + int"
  clone_stdin :: "io_error + int"
  clone_stdout :: "io_error + int"
  fork_ret :: "io_error + pid"
  pre_answers :: "'attrs pre_exec_answers"
  exec_ret :: "io_error + unit"

text \<open>
  The standard library gives the new process its three standard streams before it runs the
  \<open>pre_exec\<close> closure; \<open>dup2\<close> does not fail on the open descriptors it is given here.
\<close>

definition attach_streams :: "int \<Rightarrow> int \<Rightarrow> int \<Rightarrow> 'attrs syscall list" where
  "attach_streams stdin_fd stdout_fd stderr_fd = [Dup2 stdin_fd 0, Dup2 stdout_fd 1, Dup2 stderr_fd 2]"

text \<open>The result is the child, with the calls its process made before \<open>exec\<close>.\<close>

definition spawn_pty_async_full ::
  "('attrs \<Rightarrow> 'attrs) \<Rightarrow> int \<Rightarrow> bool \<Rightarrow> 'attrs spawn_answers \<Rightarrow>
   ((io_error + child) \<times> 'attrs syscall list) run" where
  "spawn_pty_async_full cfmakeraw master_fd raw a =
     run_bind (open_sync_pty_slave (slave_name a) (slave_errno a) (slave_open a))
       (\<lambda>slave. case slave of
          Inl e \<Rightarrow> Return (Inl e, [])
        | Inr slave_fd \<Rightarrow>
            (case clone_stdin a of
               Inl e \<Rightarrow> Return (Inl e, [])
             | Inr stdin_fd \<Rightarrow>
                 (case clone_stdout a of
                    Inl e \<Rightarrow> Return (Inl e, [])
                  | Inr stdout_fd \<Rightarrow>
                      (case pre_exec cfmakeraw raw master_fd slave_fd (pre_answers a) of
                         (pre, calls) \<Rightarrow>
                           (case std_spawn (fork_ret a) pre (exec_ret a) of
                              Inl e \<Rightarrow> Return (Inl e, case fork_ret a of
                                  Inl _ \<Rightarrow> []
                                | Inr _ \<Rightarrow> attach_streams stdin_fd stdout_fd slave_fd @ calls)
                            | Inr pid \<Rightarrow>
                                Return (Inr (child_new pid),
                                  attach_streams stdin_fd stdout_fd slave_fd @ calls))))))"

definition spawn_pty_async ::
  "('attrs \<Rightarrow> 'attrs) \<Rightarrow> int \<Rightarrow> 'attrs spawn_answers \<Rightarrow>
   ((io_error + child) \<times> 'attrs syscall list) run" where
  "spawn_pty_async cfmakeraw master_fd a = spawn_pty_async_full cfmakeraw master_fd False a"

definition spawn_pty_async_raw ::
  "('attrs \<Rightarrow> 'attrs) \<Rightarrow> int \<Rightarrow> 'attrs spawn_answers \<Rightarrow>
   ((io_error + child) \<times> 'attrs syscall list) run" where
  "spawn_pty_async_raw cfmakeraw master_fd a = spawn_pty_async_full cfmakeraw master_fd True a"

section \<open>Facts\<close>

definition preamble :: "('attrs \<Rightarrow> 'attrs) \<Rightarrow> bool \<Rightarrow> int \<Rightarrow> int \<Rightarrow> 'attrs \<Rightarrow> 'attrs syscall list" where
  "preamble mk raw fd slave_fd attrs =
     (if raw then [Tcgetattr slave_fd, Tcsetattr_now slave_fd (mk attrs)] else []) @
     [Close_fd fd, Setsid, Ioctl_sctty 0]"

lemma pre_exec_Inr:
  "pre_exec mk raw fd slave_fd a = (Inr u, calls) \<Longrightarrow>
   calls = preamble mk raw fd slave_fd (tcgetattr_attrs a)"
  by (auto simp: pre_exec_def preamble_def Let_def split: if_split_asm)

lemma std_spawn_Inr:
  "std_spawn fork pre exec = Inr pid \<longleftrightarrow> fork = Inr pid \<and> pre = Inr () \<and> exec = Inr ()"
  by (auto simp: std_spawn_def split: sum.split)

lemma spawn_full_child:
  assumes "spawn_pty_async_full mk fd raw a = Return (Inr c, calls)"
  obtains pid slave_fd stdin_fd stdout_fd where "fork_ret a = Inr pid" "c = child_new pid"
    "open_sync_pty_slave (slave_name a) (slave_errno a) (slave_open a) = Return (Inr slave_fd)"
    "clone_stdin a = Inr stdin_fd" "clone_stdout a = Inr stdout_fd"
    "calls = attach_streams stdin_fd stdout_fd slave_fd @
       preamble mk raw fd slave_fd (tcgetattr_attrs (pre_answers a))"
proof -
  from assms obtain slave where slave:
    "open_sync_pty_slave (slave_name a) (slave_errno a) (slave_open a) = Return slave"
    by (auto simp: spawn_pty_async_full_def)
  with assms obtain slave_fd stdin_fd stdout_fd where fds:
    "slave = Inr slave_fd" "clone_stdin a = Inr stdin_fd" "clone_stdout a = Inr stdout_fd"
    by (cases slave; cases "clone_stdin a"; cases "clone_stdout a")
      (simp_all add: spawn_pty_async_full_def)
  obtain pre calls' where pre: "pre_exec mk raw fd slave_fd (pre_answers a) = (pre, calls')" by fastforce
  with assms slave fds obtain pid where
    "std_spawn (fork_ret a) pre (exec_ret a) = Inr pid" "c = child_new pid"
    "calls = attach_streams stdin_fd stdout_fd slave_fd @ calls'"
    by (auto simp: spawn_pty_async_full_def split: sum.split_asm)
  with that pre slave fds show thesis by (auto simp: std_spawn_Inr dest!: pre_exec_Inr)
qed

lemma spawned_child_fresh:
  "spawn_pty_async mk fd a = Return (Inr c, calls) \<Longrightarrow> \<not> reaped c \<and> kill_on_drop c"
  by (auto simp: spawn_pty_async_def child_new_def elim: spawn_full_child)

lemma cstr_from_strncpy:
  assumes "0 \<notin> set st" "length st < n"
  shows "cstr_from_ptr (strncpy st n) = Some st"
proof -
  from assms(2) obtain m where m: "n - length st = Suc m" by (cases "n - length st") auto
  with assms(2) have buf: "strncpy st n = st @ 0 # replicate m 0"
    by (simp add: strncpy_def)
  from assms(1) have "takeWhile (\<lambda>b. b \<noteq> 0) (st @ 0 # replicate m 0) = st"
    by (subst takeWhile_append2) auto
  then show ?thesis by (simp add: cstr_from_ptr_def buf)
qed

section \<open>Properties\<close>

text \<open>A master that was opened is in nonblocking mode on every platform: the flags given to
  \<open>posix_openpt\<close> or set by the last \<open>fcntl\<close> include \<open>O_NONBLOCK\<close>.\<close>

theorem opened_master_nonblocking:
  assumes "async_pty_open k nonblock_after a = (Inr fd, calls)"
  shows "flags_after calls AND O_NONBLOCK k = O_NONBLOCK k \<and> fd = openpt_ret a \<and> 0 \<le> fd"
proof -
  have absorb: "(x OR O_NONBLOCK k) AND O_NONBLOCK k = O_NONBLOCK k" for x
    by (auto simp: bit_eq_iff bit_and_iff bit_or_iff)
  moreover have "(x OR y OR O_NONBLOCK k) AND O_NONBLOCK k = O_NONBLOCK k" for x y
    by (auto simp: bit_eq_iff bit_and_iff bit_or_iff)
  ultimately show ?thesis using assms
    by (auto simp: async_pty_open_def Let_def flags_after_def split: if_splits)
qed

theorem opened_master_nonblocking_witness:
  "flags_after [Posix_openpt 258, Grantpt 5, Unlockpt 5, Fcntl_getfl 5, Fcntl_setfl 5 (2050 :: 32 word)]
     AND 2048 = (2048 :: 32 word)"
  using opened_master_nonblocking [of "\<lparr>O_RDWR = 2, O_NOCTTY = 256, O_NONBLOCK = 2048\<rparr>" True
      "\<lparr>openpt_ret = 5, grantpt_ret = 0, unlockpt_ret = 0, getfl_ret = 2, setfl_ret = 0,
        open_errno = IoError OtherKind []\<rparr>" 5
      "[Posix_openpt 258, Grantpt 5, Unlockpt 5, Fcntl_getfl 5, Fcntl_setfl 5 2050]"]
  by (simp add: async_pty_open_def)

text \<open>Every failure of \<open>open\<close> after \<open>posix_openpt\<close> has succeeded leaks the descriptor: it
  is returned to nobody and no call closes it.\<close>

theorem open_error_leaks_descriptor:
  assumes "async_pty_open k nonblock_after a = (Inl e, calls)" "0 \<le> openpt_ret a"
  shows "(\<exists>flags. Posix_openpt flags \<in> set calls) \<and> (\<forall>fd. Close_fd fd \<notin> set calls)"
  using assms by (auto simp: async_pty_open_def Let_def split: if_splits)

theorem open_error_leaks_descriptor_witness:
  "(\<exists>flags. Posix_openpt flags \<in> set [Posix_openpt 2306, Grantpt 5 :: unit syscall]) \<and>
   (\<forall>fd. Close_fd fd \<notin> set [Posix_openpt 2306, Grantpt 5 :: unit syscall])"
  using open_error_leaks_descriptor [of "\<lparr>O_RDWR = 2, O_NOCTTY = 256, O_NONBLOCK = 2048\<rparr>" False
      "\<lparr>openpt_ret = 5, grantpt_ret = - 1, unlockpt_ret = 0, getfl_ret = 0, setfl_ret = 0,
        open_errno = IoError OtherKind []\<rparr>" "IoError OtherKind []"
      "[Posix_openpt 2306, Grantpt 5] :: unit syscall list"]
  by (simp add: async_pty_open_def)

text \<open>C37. A command launched on a terminal starts in a process that has the terminal as its three
  standard streams, has closed the master, started a session and taken the terminal through its
  standard input, in this order. The attributes of the terminal are left alone in cooked mode and
  made raw first in raw mode, and the child handle is live, has the forked pid and kills on drop.\<close>

theorem spawned_process_preamble:
  assumes "spawn_pty_async_full mk fd raw a = Return (Inr c, calls)"
  shows "fork_ret a = Inr (inner_id c) \<and> \<not> reaped c \<and> kill_on_drop c \<and>
    (\<exists>slave_fd stdin_fd stdout_fd.
       open_sync_pty_slave (slave_name a) (slave_errno a) (slave_open a) = Return (Inr slave_fd) \<and>
       clone_stdin a = Inr stdin_fd \<and> clone_stdout a = Inr stdout_fd \<and>
       calls = [Dup2 stdin_fd 0, Dup2 stdout_fd 1, Dup2 slave_fd 2] @
         (if raw then [Tcgetattr slave_fd, Tcsetattr_now slave_fd (mk (tcgetattr_attrs (pre_answers a)))]
          else []) @ [Close_fd fd, Setsid, Ioctl_sctty 0])"
  using assms by (rule spawn_full_child) (simp add: child_new_def preamble_def attach_streams_def)

theorem spawned_process_preamble_witness:
  "\<exists>slave_fd. [Dup2 7 0, Dup2 8 1, Dup2 6 2, Tcgetattr 6, Tcsetattr_now 6 (4 :: nat), Close_fd 5, Setsid, Ioctl_sctty 0] =
     [Dup2 7 0, Dup2 8 1, Dup2 slave_fd 2, Tcgetattr slave_fd, Tcsetattr_now slave_fd (Suc 3), Close_fd 5, Setsid, Ioctl_sctty 0]"
proof -
  let ?a = "\<lparr>slave_name = Ptsname_r 0 [47, 100, 0], slave_errno = IoError OtherKind [],
      slave_open = (\<lambda>p. if p = [47, 100] then Inr 6 else Inl (IoError NotFound [])),
      clone_stdin = Inr 7, clone_stdout = Inr 8, fork_ret = Inr 42,
      pre_answers = \<lparr>tcgetattr_ret = 0, tcgetattr_attrs = 3, tcsetattr_ret = 0, close_ret = 0,
        setsid_ret = 42, sctty_ret = 0, pre_errno = IoError OtherKind []\<rparr>,
      exec_ret = Inr ()\<rparr> :: nat spawn_answers"
  have "spawn_pty_async_full Suc 5 True ?a = Return (Inr (child_new 42),
      [Dup2 7 0, Dup2 8 1, Dup2 6 2, Tcgetattr 6, Tcsetattr_now 6 4, Close_fd 5, Setsid, Ioctl_sctty 0])"
    by (simp add: spawn_pty_async_full_def open_sync_pty_slave_def read_ptsname_def
        cstr_from_ptr_def pre_exec_def std_spawn_def attach_streams_def)
  from spawned_process_preamble [OF this] show ?thesis by simp
qed

end
