(* ===== verification/DaemonState.thy ===== *)
theory DaemonState
  imports KeyScan Pty "HOL-Library.AList"
begin

text \<open>
  The data of the daemon (\<open>src/daemon.rs\<close>): the struct \<open>State\<close> with its table of tunnels,
  the states of the two state machines, and the process around them (its reactor's tasks,
  what has been written to the connections, the signals it has sent). The lines written to
  the log are constructors named after their texts.
\<close>

section \<open>The tunnel table\<close>

text \<open>A oneshot channel is named by a number; \<open>Running\<close> holds the sending end of one.\<close>

type_synonym kill_chan = nat

datatype tunnel_state = Running kill_chan | Exited "exit_status option"

type_synonym tunnel_table = "(string \<times> tunnel_state) list"

text \<open>
  \<open>HashMap\<close>: an association list with one entry per key. Its iteration order is not
  specified by Rust; only the set of the entries is used below.
\<close>

definition children_get :: "tunnel_table \<Rightarrow> string \<Rightarrow> tunnel_state option" where
  "children_get m k = map_of m k"

definition children_insert :: "string \<Rightarrow> tunnel_state \<Rightarrow> tunnel_table \<Rightarrow> tunnel_table" where
  "children_insert k v m = AList.update k v m"

definition children_remove :: "string \<Rightarrow> tunnel_table \<Rightarrow> tunnel_table" where
  "children_remove k m = AList.delete k m"

definition table_ok :: "tunnel_table \<Rightarrow> bool" where
  "table_ok m \<longleftrightarrow> distinct (map fst m)"

text \<open>What the users of the table rely on.\<close>

locale hash_map =
  fixes empty :: "'m"
    and get :: "'m \<Rightarrow> 'k \<Rightarrow> 'v option"
    and ins :: "'k \<Rightarrow> 'v \<Rightarrow> 'm \<Rightarrow> 'm"
    and del :: "'k \<Rightarrow> 'm \<Rightarrow> 'm"
    and iter :: "'m \<Rightarrow> ('k \<times> 'v) list"
    and ok :: "'m \<Rightarrow> bool"
  assumes ok_empty: "ok empty"
    and ok_ins: "ok m \<Longrightarrow> ok (ins k v m)"
    and ok_del: "ok m \<Longrightarrow> ok (del k m)"
    and get_empty: "get empty k = None"
    and get_ins: "ok m \<Longrightarrow> get (ins k v m) = (get m)(k \<mapsto> v)"
    and get_del: "ok m \<Longrightarrow> get (del k m) = (get m)(k := None)"
    and iter_get: "ok m \<Longrightarrow> map_of (iter m) = get m"
    and iter_distinct: "ok m \<Longrightarrow> distinct (map fst (iter m))"
begin

lemma iter_iff: "ok m \<Longrightarrow> (k, v) \<in> set (iter m) \<longleftrightarrow> get m k = Some v"
  using iter_get [of m] iter_distinct [of m] by (metis map_of_eq_Some_iff)

lemma iter_keys: "ok m \<Longrightarrow> fst ` set (iter m) = {k. get m k \<noteq> None}"
  by (force simp: iter_iff [symmetric])

lemma get_ins_same: "ok m \<Longrightarrow> get (ins k v m) k = Some v"
  by (simp add: get_ins)

lemma get_ins_other: "ok m \<Longrightarrow> k' \<noteq> k \<Longrightarrow> get (ins k v m) k' = get m k'"
  by (simp add: get_ins)

lemma get_del_same: "ok m \<Longrightarrow> get (del k m) k = None"
  by (simp add: get_del)

end

interpretation table: hash_map "[]" children_get children_insert children_remove "\<lambda>m. m" table_ok
  by unfold_locales
    (auto simp: table_ok_def children_get_def children_insert_def children_remove_def
      distinct_update distinct_delete update_conv' delete_conv' fun_eq_iff)

section \<open>The daemon's state and its log\<close>

text \<open>
  The errors that end a client session. \<open>IoFailure\<close> is an error of the connection or of the
  PTY passed on by \<open>?\<close>, as its text; the others are the \<open>format_err!\<close>s of the file.
\<close>

datatype session_error =
    IoFailure string
  | UnexpectedMessage client_message
  | UnexpectedDuringOpen client_message
  | ConnectionClosed
  | EndingAfterNotify

datatype log_line =
    LogStartingUp
  | LogExitingOnSignal int
  | LogAcceptError string
  | LogChildDied string exit_status
  | LogKillOrdered string
  | LogChildReaped string
  | LogSessionFinished bool
  | LogSessionError session_error
  | LogExitCommanded
  | LogSpawn string
  | LogAlreadyOpen
  | LogSshOutput "byte list"
  | LogSshPollError string
  | LogClose string
  | LogNoSuchTunnel

record state =
  sock_path :: string
  opts_foreground :: bool
  log_lines :: "log_line list"
  children :: tunnel_table

text \<open>Failures to write or flush the log are ignored by the code.\<close>

definition log_items :: "log_line \<Rightarrow> 'z state_scheme \<Rightarrow> 'z state_scheme" where
  "log_items l st = st\<lparr>log_lines := log_lines st @ [l]\<rparr>"

definition insert_child :: "string \<Rightarrow> tunnel_state \<Rightarrow> 'z state_scheme \<Rightarrow> 'z state_scheme" where
  "insert_child k v st = st\<lparr>children := children_insert k v (children st)\<rparr>"

definition remove_child :: "string \<Rightarrow> 'z state_scheme \<Rightarrow> 'z state_scheme" where
  "remove_child k st = st\<lparr>children := children_remove k (children st)\<rparr>"

section \<open>The state machines' states\<close>

datatype monitor =
    AwaitingChildEvent string child kill_chan
  | AwaitingChildReaped string child
  | NotifyingChildDied "exit_status option"
  | ChildReaped
  | ChildError

text \<open>A connection to a client is named by a number, in the place of its serializer.\<close>

type_synonym conn = nat

record client_common =
  exit_on_close :: bool

text \<open>\<open>ssh_tx\<close> is what the sink to the PTY has taken.\<close>

record comm_state =
  comm_common :: client_common
  cl_tx :: conn
  cl_buf :: "byte list"
  ssh_tx :: "byte list"
  ssh_buf :: "byte list"
  ssh_key :: "byte list"
  ssh_key_status :: ssh_key_status

text \<open>
  \<open>Send<Ser>\<close> is the connection together with the message it is sending, none once the sink has
  taken it. A \<open>FinalizingTxn\<close> is polled once at most, so its message is always still there.
\<close>

datatype client =
    AwaitingCommand client_common conn
  | CommunicatingForOpen comm_state
  | FinalizingTxn client_common conn server_message
  | Finished client_common conn
  | Aborting client_common conn "server_message option"
  | Failed session_error

section \<open>The process\<close>

text \<open>The tasks given to the reactor; \<open>LostTask\<close> is a session whose machine has no state left.\<close>

datatype task =
    AcceptTask
  | MonitorTask monitor
  | ClientTask client
  | SshLogTask
  | ExitTask
  | LostTask
  | DoneTask

record ssh_command =
  cmd_program :: string
  cmd_args :: "string list"
  cmd_env_remove :: "string list"

text \<open>
  \<open>sent\<close> is what the connections have taken, oldest first; \<open>kill_sent\<close> the oneshot channels
  whose message has been sent; \<open>exit_msgs\<close> the messages in the exit channel; \<open>lingers\<close> the linger options set, as connection,
  \<open>l_onoff\<close> and \<open>l_linger\<close>.
\<close>

record world = state +
  tasks :: "task list"
  sent :: "(conn \<times> server_message) list"
  sigkills :: "pid list"
  launched :: "ssh_command list"
  kill_sent :: "kill_chan list"
  next_chan :: kill_chan
  next_conn :: conn
  exit_msgs :: nat
  lingers :: "(conn \<times> int \<times> int) list"

definition spawn :: "task \<Rightarrow> world \<Rightarrow> world" where
  "spawn t w = w\<lparr>tasks := tasks w @ [t]\<rparr>"

definition send_signals :: "pid list \<Rightarrow> world \<Rightarrow> world" where
  "send_signals ps w = w\<lparr>sigkills := sigkills w @ ps\<rparr>"

definition take_message :: "conn \<Rightarrow> server_message \<Rightarrow> world \<Rightarrow> world" where
  "take_message c m w = w\<lparr>sent := sent w @ [(c, m)]\<rparr>"

definition sent_to :: "conn \<Rightarrow> world \<Rightarrow> server_message list" where
  "sent_to c w = map snd (filter (\<lambda>(d, m). d = c) (sent w))"

lemma sent_to_take_message [simp]:
  "sent_to c (take_message d m w) = (if c = d then sent_to c w @ [m] else sent_to c w)"
  by (simp add: sent_to_def take_message_def)

lemma world_ops_keep [simp, keeps]:
  "children (log_items l w) = children w" "tasks (log_items l w) = tasks w"
  "sent (log_items l w) = sent w" "sigkills (log_items l w) = sigkills w"
  "kill_sent (log_items l w) = kill_sent w" "next_chan (log_items l w) = next_chan w"
  "next_conn (log_items l w) = next_conn w" "exit_msgs (log_items l w) = exit_msgs w"
  "launched (log_items l w) = launched w"
  "children (insert_child k v w) = children_insert k v (children w)"
  "tasks (insert_child k v w) = tasks w" "sent (insert_child k v w) = sent w"
  "sigkills (insert_child k v w) = sigkills w" "kill_sent (insert_child k v w) = kill_sent w"
  "next_chan (insert_child k v w) = next_chan w" "next_conn (insert_child k v w) = next_conn w"
  "exit_msgs (insert_child k v w) = exit_msgs w" "launched (insert_child k v w) = launched w"
  "log_lines (insert_child k v st) = log_lines st"
  "children (remove_child k w) = children_remove k (children w)"
  "tasks (remove_child k w) = tasks w" "sent (remove_child k w) = sent w"
  "sigkills (remove_child k w) = sigkills w" "kill_sent (remove_child k w) = kill_sent w"
  "next_chan (remove_child k w) = next_chan w" "next_conn (remove_child k w) = next_conn w"
  "exit_msgs (remove_child k w) = exit_msgs w" "launched (remove_child k w) = launched w"
  "log_lines (remove_child k st) = log_lines st"
  "children (spawn t w) = children w" "tasks (spawn t w) = tasks w @ [t]"
  "sent (spawn t w) = sent w" "sigkills (spawn t w) = sigkills w"
  "kill_sent (spawn t w) = kill_sent w" "next_chan (spawn t w) = next_chan w"
  "next_conn (spawn t w) = next_conn w" "exit_msgs (spawn t w) = exit_msgs w"
  "launched (spawn t w) = launched w"
  "log_lines (spawn t w) = log_lines w"
  "children (send_signals ps w) = children w" "tasks (send_signals ps w) = tasks w"
  "sent (send_signals ps w) = sent w" "sigkills (send_signals ps w) = sigkills w @ ps"
  "kill_sent (send_signals ps w) = kill_sent w" "next_chan (send_signals ps w) = next_chan w"
  "next_conn (send_signals ps w) = next_conn w" "exit_msgs (send_signals ps w) = exit_msgs w"
  "launched (send_signals ps w) = launched w"
  "log_lines (send_signals ps w) = log_lines w"
  "children (take_message c m w) = children w" "tasks (take_message c m w) = tasks w"
  "sent (take_message c m w) = sent w @ [(c, m)]" "sigkills (take_message c m w) = sigkills w"
  "kill_sent (take_message c m w) = kill_sent w" "next_chan (take_message c m w) = next_chan w"
  "next_conn (take_message c m w) = next_conn w" "exit_msgs (take_message c m w) = exit_msgs w"
  "launched (take_message c m w) = launched w"
  "log_lines (take_message c m w) = log_lines w" "log_lines (log_items l st) = log_lines st @ [l]"
  by (simp_all add: log_items_def insert_child_def remove_child_def spawn_def send_signals_def
      take_message_def)

end
