(* ===== verification/Monitor.thy ===== *)
theory Monitor
  imports DaemonState
begin

text \<open>
  The state machine \<open>ChildMonitor\<close> of \<open>src/daemon.rs\<close>, one handler per state. The answers
  of the kernel, of the kill channel and of the die channel during one poll are the record
  \<open>monitor_env\<close>.
\<close>

section \<open>The handlers\<close>

record monitor_env =
  waits :: "waitpid_answer list"
  sigs :: "(unit option, io_error) poll list"
  os_kill :: "io_error + unit"
  kill_rx :: "(unit, unit) poll"
  die_tx :: "(unit, unit) poll"

type_synonym monitor_step = "((monitor, unit) machine \<times> world) run"

text \<open>
  A state that has been taken is dropped at the end of the handler, and the child in it with
  it; a child that goes on into the next state is not.
\<close>

definition poll_awaiting_child_event ::
  "monitor_env \<Rightarrow> string \<Rightarrow> child \<Rightarrow> kill_chan \<Rightarrow> world \<Rightarrow> monitor_step" where
  "poll_awaiting_child_event env key child rx_kill w =
     run_bind (child_poll child (waits env) (sigs env)) (\<lambda>(r, child').
       case r of
         PollErr _ \<Rightarrow> Return (Raise (), w)
       | Ready status \<Rightarrow>
           Return (Goto (NotifyingChildDied (Some status)),
             send_signals (child_drop child' (os_kill env))
               (insert_child key (Exited (Some status)) (log_items (LogChildDied key status) w)))
       | NotReady \<Rightarrow>
           (case kill_rx env of
              PollErr _ \<Rightarrow> Return (Raise (), w)
            | Ready _ \<Rightarrow>
                Return (Goto (AwaitingChildReaped key child'),
                  send_signals (snd (child_kill child' (os_kill env)))
                    (log_items (LogKillOrdered key) w))
            | NotReady \<Rightarrow> Return (Stay (AwaitingChildEvent key child' rx_kill), w)))"

definition poll_awaiting_child_reaped ::
  "monitor_env \<Rightarrow> string \<Rightarrow> child \<Rightarrow> world \<Rightarrow> monitor_step" where
  "poll_awaiting_child_reaped env key child w =
     run_bind (child_poll child (waits env) (sigs env)) (\<lambda>(r, child').
       case r of
         PollErr _ \<Rightarrow> Return (Raise (), w)
       | Ready _ \<Rightarrow>
           Return (Goto (NotifyingChildDied None),
             send_signals (child_drop child' (os_kill env))
               (insert_child key (Exited None) (log_items (LogChildReaped key) w)))
       | NotReady \<Rightarrow> Return (Stay (AwaitingChildReaped key child'), w))"

definition poll_notifying_child_died ::
  "monitor_env \<Rightarrow> exit_status option \<Rightarrow> world \<Rightarrow> monitor_step" where
  "poll_notifying_child_died env tx_die w =
     (case die_tx env of
        PollErr _ \<Rightarrow> Return (Raise (), w)
      | Ready _ \<Rightarrow> Return (Goto ChildReaped, w)
      | NotReady \<Rightarrow> Return (Stay (NotifyingChildDied tx_die), w))"

text \<open>The machine: the handler of its state. The two final states are not polled.\<close>

fun poll_monitor :: "monitor_env \<Rightarrow> monitor \<Rightarrow> world \<Rightarrow> monitor_step" where
  "poll_monitor env (AwaitingChildEvent key child rx_kill) w =
     poll_awaiting_child_event env key child rx_kill w"
| "poll_monitor env (AwaitingChildReaped key child) w = poll_awaiting_child_reaped env key child w"
| "poll_monitor env (NotifyingChildDied tx_die) w = poll_notifying_child_died env tx_die w"
| "poll_monitor env ChildReaped w = Panic"
| "poll_monitor env ChildError w = Panic"

lemmas monitor_handlers [handler_defs] =
  poll_awaiting_child_event_def poll_awaiting_child_reaped_def poll_notifying_child_died_def

fun child_of :: "monitor \<Rightarrow> child option" where
  "child_of (AwaitingChildEvent key child rx_kill) = Some child"
| "child_of (AwaitingChildReaped key child) = Some child"
| "child_of _ = None"

text \<open>A machine that returns an error is dropped, with the child in its state.\<close>

definition drop_monitor :: "monitor_env \<Rightarrow> monitor \<Rightarrow> world \<Rightarrow> world" where
  "drop_monitor env m w =
     (case child_of m of
        None \<Rightarrow> w
      | Some child \<Rightarrow> send_signals (child_drop child (os_kill env)) w)"

section \<open>Going through the handlers\<close>

text \<open>
  Every poll of a monitor that returns has one of these outcomes; the properties below are
  case analyses over them. The child keeps its pid throughout.
\<close>

inductive monitor_move :: "monitor \<Rightarrow> world \<Rightarrow> (monitor, unit) machine \<Rightarrow> world \<Rightarrow> bool" where
  died: "\<not> reaped c \<Longrightarrow>
    monitor_move (AwaitingChildEvent key c ch) w (Goto (NotifyingChildDied (Some status)))
      (insert_child key (Exited (Some status)) (log_items (LogChildDied key status) w))"
| ordered: "\<not> reaped c \<Longrightarrow>
    monitor_move (AwaitingChildEvent key c ch) w (Goto (AwaitingChildReaped key c))
      (send_signals [inner_id c] (log_items (LogKillOrdered key) w))"
| waits_event: "\<not> reaped c \<Longrightarrow>
    monitor_move (AwaitingChildEvent key c ch) w (Stay (AwaitingChildEvent key c ch)) w"
| event_error: "\<not> reaped c \<Longrightarrow> monitor_move (AwaitingChildEvent key c ch) w (Raise ()) w"
| reaped: "\<not> reaped c \<Longrightarrow>
    monitor_move (AwaitingChildReaped key c) w (Goto (NotifyingChildDied None))
      (insert_child key (Exited None) (log_items (LogChildReaped key) w))"
| waits_reaped: "\<not> reaped c \<Longrightarrow>
    monitor_move (AwaitingChildReaped key c) w (Stay (AwaitingChildReaped key c)) w"
| reaped_error: "\<not> reaped c \<Longrightarrow> monitor_move (AwaitingChildReaped key c) w (Raise ()) w"
| notified: "monitor_move (NotifyingChildDied st) w (Goto ChildReaped) w"
| waits_notify: "monitor_move (NotifyingChildDied st) w (Stay (NotifyingChildDied st)) w"
| notify_error: "monitor_move (NotifyingChildDied st) w (Raise ()) w"

inductive_cases move_event: "monitor_move (AwaitingChildEvent key c ch) w m w'"
inductive_cases move_reaped: "monitor_move (AwaitingChildReaped key c) w m w'"
inductive_cases move_notify: "monitor_move (NotifyingChildDied st) w m w'"
inductive_simps move_final [simp]:
  "monitor_move ChildReaped w m w'" "monitor_move ChildError w m w'"

lemma send_no_signals [simp]: "send_signals [] w = w"
  by (simp add: send_signals_def)

lemma child_drop_reaped [simp]: "reaped c \<Longrightarrow> child_drop c os = []"
  by (rule child.drop_gone)

lemma child_kill_live [simp]: "\<not> reaped c \<Longrightarrow> snd (child_kill c os) = [inner_id c]"
  by (simp add: child_kill_def)

lemma poll_monitor_move:
  assumes "poll_monitor env m w = Return (res, w')"
  shows "monitor_move m w res w'"
proof (cases m)
  case (AwaitingChildEvent key c ch)
  with assms obtain r c' where p: "poll_exit c (waits env) (sigs env) = Return (r, c')"
    and h: "(case r of PollErr _ \<Rightarrow> Return (Raise (), w)
       | Ready status \<Rightarrow>
           Return (Goto (NotifyingChildDied (Some status)),
             send_signals (child_drop c' (os_kill env))
               (insert_child key (Exited (Some status)) (log_items (LogChildDied key status) w)))
       | NotReady \<Rightarrow>
           (case kill_rx env of
              PollErr _ \<Rightarrow> Return (Raise (), w)
            | Ready _ \<Rightarrow>
                Return (Goto (AwaitingChildReaped key c'),
                  send_signals (snd (child_kill c' (os_kill env))) (log_items (LogKillOrdered key) w))
            | NotReady \<Rightarrow> Return (Stay (AwaitingChildEvent key c' ch), w))) = Return (res, w')"
    by (auto simp: handler_defs)
  from poll_exit_child [OF p] have "\<not> reaped c" "c' = after_poll r c" by auto
  with h AwaitingChildEvent show ?thesis
    by (cases r; cases "kill_rx env")
      (auto simp: after_poll_def intro: monitor_move.intros)
next
  case (AwaitingChildReaped key c)
  with assms obtain r c' where p: "poll_exit c (waits env) (sigs env) = Return (r, c')"
    and h: "(case r of PollErr _ \<Rightarrow> Return (Raise (), w)
       | Ready _ \<Rightarrow>
           Return (Goto (NotifyingChildDied None),
             send_signals (child_drop c' (os_kill env))
               (insert_child key (Exited None) (log_items (LogChildReaped key) w)))
       | NotReady \<Rightarrow> Return (Stay (AwaitingChildReaped key c'), w)) = Return (res, w')"
    by (auto simp: handler_defs)
  from poll_exit_child [OF p] have "\<not> reaped c" "c' = after_poll r c" by auto
  with h AwaitingChildReaped show ?thesis
    by (cases r) (auto simp: after_poll_def intro: monitor_move.intros)
next
  case (NotifyingChildDied st)
  with assms show ?thesis
    by (cases "die_tx env") (auto simp: handler_defs intro: monitor_move.intros)
qed (use assms in simp_all)

section \<open>Progress\<close>

text \<open>The order in which a monitor goes through its states, as a library order.\<close>

datatype phase = Watching | Reaping | Notifying | Over

fun phase_rank :: "phase \<Rightarrow> nat" where
  "phase_rank Watching = 0"
| "phase_rank Reaping = 1"
| "phase_rank Notifying = 2"
| "phase_rank Over = 3"

lemma phase_rank_inj: "phase_rank p = phase_rank q \<longleftrightarrow> p = q"
  by (cases p; cases q) simp_all

instantiation phase :: linorder
begin

definition less_eq_phase :: "phase \<Rightarrow> phase \<Rightarrow> bool" where
  "less_eq_phase p q \<longleftrightarrow> phase_rank p \<le> phase_rank q"

definition less_phase :: "phase \<Rightarrow> phase \<Rightarrow> bool" where
  "less_phase p q \<longleftrightarrow> phase_rank p < phase_rank q"

instance
  by standard (auto simp: less_eq_phase_def less_phase_def phase_rank_inj)

end

fun phase_of :: "monitor \<Rightarrow> phase" where
  "phase_of (AwaitingChildEvent key child rx_kill) = Watching"
| "phase_of (AwaitingChildReaped key child) = Reaping"
| "phase_of (NotifyingChildDied tx_die) = Notifying"
| "phase_of ChildReaped = Over"
| "phase_of ChildError = Over"

lemma move_phase:
  "monitor_move m w (Goto m') w' \<Longrightarrow> phase_of m < phase_of m'"
  by (auto simp: less_phase_def elim!: monitor_move.cases)

lemma move_stays:
  "monitor_move m w (Stay m') w' \<Longrightarrow> m' = m \<and> w' = w"
  by (auto elim!: monitor_move.cases)

section \<open>What a monitor touches\<close>

text \<open>The entry of its own host, the log and the signals; nothing else of the process.\<close>

fun key_of :: "monitor \<Rightarrow> string option" where
  "key_of (AwaitingChildEvent key child rx_kill) = Some key"
| "key_of (AwaitingChildReaped key child) = Some key"
| "key_of _ = None"

lemma move_keeps [keeps]:
  assumes "monitor_move m w res w'"
  shows "tasks w' = tasks w" "sent w' = sent w" "kill_sent w' = kill_sent w"
    "next_chan w' = next_chan w" "next_conn w' = next_conn w" "exit_msgs w' = exit_msgs w"
    "launched w' = launched w" "prefix (log_lines w) (log_lines w')"
  using assms by (auto elim!: monitor_move.cases)

lemma move_children:
  "monitor_move m w res w' \<Longrightarrow>
   children w' = children w \<or>
   (\<exists>key st. key_of m = Some key \<and> children w' = children_insert key (Exited st) (children w))"
  by (auto elim!: monitor_move.cases)

lemma move_signals:
  "monitor_move m w res w' \<Longrightarrow>
   sigkills w' = sigkills w \<or>
   (\<exists>c. child_of m = Some c \<and> \<not> reaped c \<and> sigkills w' = sigkills w @ [inner_id c])"
  by (auto elim!: monitor_move.cases)

lemma move_child_live:
  "monitor_move m w res w' \<Longrightarrow> child_of m = Some c \<Longrightarrow> \<not> reaped c"
  by (auto elim!: monitor_move.cases)

end
