(* ===== verification/Relay.thy ===== *)
theory Relay
  imports Prelude "HOL-Library.Sublist"
begin

text \<open>
  The contract of the byte buffers of \<open>poll_communicating_for_open\<close> (daemon) and
  \<open>poll_communicating\<close> (client): bytes are appended as they arrive, and the whole buffer is
  offered to a sink, which takes it, asks to be offered it again, or fails. Four buffers of
  the program follow it; whatever is proved here holds for each.
\<close>

datatype relay_event = Receive "byte list" | Flush "string start_send"

fun relay_run ::
  "(byte list \<Rightarrow> 's \<Rightarrow> 's) \<Rightarrow> (string start_send \<Rightarrow> 's \<Rightarrow> string + 's) \<Rightarrow>
   relay_event list \<Rightarrow> 's \<Rightarrow> string + 's" where
  "relay_run receive flush [] s = Inr s"
| "relay_run receive flush (Receive d # es) s = relay_run receive flush es (receive d s)"
| "relay_run receive flush (Flush a # es) s =
     (case flush a s of Inl e \<Rightarrow> Inl e | Inr s' \<Rightarrow> relay_run receive flush es s')"

fun received :: "relay_event list \<Rightarrow> byte list" where
  "received [] = []"
| "received (Receive d # es) = d @ received es"
| "received (Flush a # es) = received es"

lemma received_append [simp]: "received (es @ fs) = received es @ received fs"
  by (induction es rule: received.induct) auto

lemma received_receives [simp]: "received (map Receive ds) = concat ds"
  by (induction ds) auto

lemma relay_run_append:
  "relay_run rec fl (es @ fs) s =
     (case relay_run rec fl es s of Inl e \<Rightarrow> Inl e | Inr s' \<Rightarrow> relay_run rec fl fs s')"
  by (induction rec fl es s rule: relay_run.induct) (auto split: sum.splits)

lemma relay_run_receives: "relay_run rec fl (map Receive ds) s = Inr (fold rec ds s)"
  by (induction ds arbitrary: s) auto

locale byte_relay =
  fixes pending :: "'s \<Rightarrow> byte list"
    and delivered :: "'s \<Rightarrow> byte list"
    and receive :: "byte list \<Rightarrow> 's \<Rightarrow> 's"
    and flush :: "string start_send \<Rightarrow> 's \<Rightarrow> string + 's"
  assumes receive_pending: "pending (receive d s) = pending s @ d"
    and receive_delivered: "delivered (receive d s) = delivered s"
    and flush_whole: "flush a s = Inr s' \<Longrightarrow>
      delivered s' = delivered s \<and> pending s' = pending s \<or>
      a = SendReady \<and> delivered s' = delivered s @ pending s \<and> pending s' = []"
begin

lemma flush_conserves:
  "flush a s = Inr s' \<Longrightarrow> delivered s' @ pending s' = delivered s @ pending s"
  by (auto dest: flush_whole)

lemma flush_grows: "flush a s = Inr s' \<Longrightarrow> prefix (delivered s) (delivered s')"
  by (auto dest: flush_whole)

lemma fold_receive_pending: "pending (fold receive ds s) = pending s @ concat ds"
  by (induction ds arbitrary: s) (simp_all add: receive_pending)

lemma fold_receive_delivered: "delivered (fold receive ds s) = delivered s"
  by (induction ds arbitrary: s) (simp_all add: receive_delivered)

text \<open>Nothing is lost, duplicated or reordered on the way to the sink.\<close>

lemma run_conserves:
  "relay_run receive flush es s = Inr s' \<Longrightarrow>
   delivered s' @ pending s' = delivered s @ pending s @ received es"
proof (induction es arbitrary: s)
  case (Cons e es)
  show ?case
  proof (cases e)
    case (Receive d)
    with Cons.prems Cons.IH [of "receive d s"] show ?thesis
      by (simp add: receive_pending receive_delivered)
  next
    case (Flush a)
    with Cons.prems obtain t where t: "flush a s = Inr t" "relay_run receive flush es t = Inr s'"
      by (auto split: sum.splits)
    have "delivered s' @ pending s' = (delivered t @ pending t) @ received es"
      using Cons.IH [OF t(2)] by simp
    with Flush show ?thesis by (simp add: flush_conserves [OF t(1)])
  qed
qed simp

lemma run_grows:
  "relay_run receive flush es s = Inr s' \<Longrightarrow> prefix (delivered s) (delivered s')"
proof (induction es arbitrary: s)
  case (Cons e es)
  show ?case
  proof (cases e)
    case (Receive d)
    with Cons.prems Cons.IH [of "receive d s"] show ?thesis by (simp add: receive_delivered)
  next
    case (Flush a)
    with Cons.prems obtain t where t: "flush a s = Inr t" "relay_run receive flush es t = Inr s'"
      by (auto split: sum.splits)
    with Cons.IH show ?thesis by (blast intro: flush_grows prefix_order.trans)
  qed
qed simp

lemma run_delivers_prefix:
  assumes "relay_run receive flush es s = Inr s'"
    and "delivered s = []" "pending s = []"
  shows "prefix (delivered s') (received es)"
  using run_conserves [OF assms(1)] assms(2,3) by (metis append_Nil prefixI)

end

end
