(* ===== verification/Session.thy ===== *)
theory Session
  imports Monitor Relay
begin

text \<open>
  The state machine \<open>Client\<close> of \<open>src/daemon.rs\<close>, the session with one client: one handler per
  state and one per command. The answers of everything outside during one poll are the
  record \<open>session_env\<close>.
\<close>

section \<open>The environment of one poll\<close>

record session_env =
  rx_answers :: "(client_message option, string) poll list"
  ssh_rx_answers :: "(byte list option, string) poll list"
  cl_start :: "string start_send"
  ssh_start :: "string start_send"
  cl_flush :: "(unit, string) poll"
  ssh_flush :: "(unit, string) poll"
  kill_send :: "unit + unit"
  rng_bytes :: "byte list"
  b64_encode :: "byte list \<Rightarrow> string"
  libc_k :: libc_consts
  nonblock_after :: bool
  pty_open :: open_answers
  cfmakeraw :: "byte list \<Rightarrow> byte list"
  pty_spawn :: "byte list spawn_answers"

type_synonym session_step = "((client, session_error) machine \<times> world) run"

section \<open>Commands\<close>

definition abort_client :: "client_common \<Rightarrow> conn \<Rightarrow> string \<Rightarrow> client" where
  "abort_client common tx message = Aborting common tx (Some (SM_Error message))"

text \<open>The command line of the SSH process.\<close>

definition ssh_command :: "string \<Rightarrow> string \<Rightarrow> ssh_command" where
  "ssh_command host key =
     \<lparr>cmd_program = ''ssh'',
      cmd_args = [''-t'', host,
        ''echo '' @ [CHR 0x22] @ key @ [CHR 0x22] @ '' && exec tail -f /dev/null''],
      cmd_env_remove = [''DISPLAY'']\<rparr>"

text \<open>
  The nested function \<open>inner\<close>: launch SSH on a new terminal, spawn its monitor, record the
  tunnel as running. The text of an error is that of its context.
\<close>

definition open_inner :: "session_env \<Rightarrow> open_parameters \<Rightarrow> string \<Rightarrow> world \<Rightarrow> ((string + int) \<times> world) run" where
  "open_inner env params key w =
     (let chan = next_chan w;
          w0 = w\<lparr>next_chan := chan + 1\<rparr>
      in case fst (async_pty_open (libc_k env) (nonblock_after env) (pty_open env)
             :: (io_error + int) \<times> byte list syscall list) of
           Inl e \<Rightarrow> Return (Inl ''failed to create PTY'', w0)
         | Inr ptymaster \<Rightarrow>
             run_bind (spawn_pty_async (cfmakeraw env) ptymaster (pty_spawn env)) (\<lambda>(r, calls).
               case r of
                 Inl e \<Rightarrow> Return (Inl ''failed to launch SSH'', w0)
               | Inr child \<Rightarrow>
                   let w1 = w0\<lparr>launched := launched w0 @ [ssh_command (op_host params) key]\<rparr>;
                       w2 = spawn (MonitorTask (AwaitingChildEvent (op_host params) child chan)) w1;
                       w3 = insert_child (op_host params) (Running chan) w2
                   in Return (Inr ptymaster, w3)))"

definition process_open_command ::
  "session_env \<Rightarrow> client_common \<Rightarrow> open_parameters \<Rightarrow> conn \<Rightarrow> world \<Rightarrow> session_step" where
  "process_open_command env common params tx w =
     (let w1 = log_items (LogSpawn (op_host params)) w in
      case children_get (children w1) (op_host params) of
        Some (Running _) \<Rightarrow>
          Return (Goto (FinalizingTxn common tx SM_TunnelAlreadyOpen), log_items LogAlreadyOpen w1)
      | _ \<Rightarrow>
          let key = make_key (b64_encode env) (rng_bytes env) in
          run_bind (open_inner env params key w1) (\<lambda>(r, w2).
            case r of
              Inl e \<Rightarrow> Return (Goto (abort_client common tx (''failed to launch SSH: '' @ e)), w2)
            | Inr ptymaster \<Rightarrow>
                (case cl_start env of
                   SendReady \<Rightarrow>
                     Return (Goto (CommunicatingForOpen
                       \<lparr>comm_common = common, cl_tx = tx, cl_buf = [], ssh_tx = [], ssh_buf = [],
                        ssh_key = into_bytes key, ssh_key_status = Searching 0\<rparr>),
                       take_message tx SM_Ok w2)
                 | _ \<Rightarrow> Panic)))"

definition process_close_command ::
  "session_env \<Rightarrow> client_common \<Rightarrow> close_parameters \<Rightarrow> conn \<Rightarrow> world \<Rightarrow> session_step" where
  "process_close_command env common params tx w =
     (let w1 = log_items (LogClose (cp_host params)) w;
          w2 = remove_child (cp_host params) w1
      in case children_get (children w1) (cp_host params) of
           Some (Running tx_kill) \<Rightarrow>
             (case kill_send env of
                Inl _ \<Rightarrow>
                  Return (Goto (abort_client common tx ''failed to send internal kill signal (?)''), w2)
              | Inr _ \<Rightarrow>
                  Return (Goto (FinalizingTxn common tx SM_Ok), w2\<lparr>kill_sent := tx_kill # kill_sent w2\<rparr>))
         | _ \<Rightarrow>
             Return (Goto (FinalizingTxn common tx SM_TunnelNotOpen), log_items LogNoSuchTunnel w2))"

definition status_of_tunnel :: "tunnel_state \<Rightarrow> tunnel_status" where
  "status_of_tunnel st =
     (case st of
        Running _ \<Rightarrow> TS_Open
      | Exited None \<Rightarrow> TS_Closed
      | Exited (Some _) \<Rightarrow> TS_Died)"

definition process_status_query :: "client_common \<Rightarrow> conn \<Rightarrow> world \<Rightarrow> session_step" where
  "process_status_query common tx w =
     (let info = \<lparr>tunnels =
        map (\<lambda>(host, tinfo). \<lparr>ti_host = host, ti_state = status_of_tunnel tinfo\<rparr>) (children w)\<rparr>
      in Return (Goto (FinalizingTxn common tx (SM_StatusResponse info)), w))"

definition poll_awaiting_command ::
  "session_env \<Rightarrow> client_common \<Rightarrow> conn \<Rightarrow> world \<Rightarrow> session_step" where
  "poll_awaiting_command env common tx w =
     (case rx_answers env of
        [] \<Rightarrow> Starved
      | NotReady # _ \<Rightarrow> Return (Stay (AwaitingCommand common tx), w)
      | PollErr e # _ \<Rightarrow> Return (Raise (IoFailure e), w)
      | Ready msg # _ \<Rightarrow>
          (case msg of
             None \<Rightarrow> Return (Goto (Finished common tx), w)
           | Some (CM_Close params) \<Rightarrow> process_close_command env common params tx w
           | Some (CM_Open params) \<Rightarrow> process_open_command env common params tx w
           | Some CM_Exit \<Rightarrow>
               Return (Goto (FinalizingTxn (common\<lparr>exit_on_close := True\<rparr>) tx SM_Ok),
                 log_items LogExitCommanded w)
           | Some CM_Goodbye \<Rightarrow> Return (Goto (Finished common tx), w)
           | Some CM_QueryStatus \<Rightarrow> process_status_query common tx w
           | Some other \<Rightarrow> Return (Raise (UnexpectedMessage other), w)))"

section \<open>Communicating with SSH\<close>

text \<open>New text from the user.\<close>

fun read_user ::
  "(client_message option, string) poll list \<Rightarrow> comm_state \<Rightarrow> (session_error + comm_state) run"
where
  "read_user [] c = Starved"
| "read_user (NotReady # as) c = Return (Inr c)"
| "read_user (PollErr e # as) c = Return (Inl (IoFailure e))"
| "read_user (Ready (Some (CM_UserData data)) # as) c =
     read_user as (c\<lparr>ssh_buf := ssh_buf c @ data\<rparr>)"
| "read_user (Ready (Some other) # as) c = Return (Inl (UnexpectedDuringOpen other))"
| "read_user (Ready None # as) c = Return (Inl ConnectionClosed)"

text \<open>New text from SSH; the left result is the text of the message the client is aborted with.\<close>

fun read_ssh ::
  "(byte list option, string) poll list \<Rightarrow> comm_state \<Rightarrow> (string + comm_state) run" where
  "read_ssh [] c = Starved"
| "read_ssh (NotReady # as) c = Return (Inr c)"
| "read_ssh (PollErr e # as) c =
     Return (Inl (''something went wrong communicating with the SSH process: '' @ e))"
| "read_ssh (Ready None # as) c = Return (Inl ''unexpected EOF from SSH (program died?)'')"
| "read_ssh (Ready (Some bytes) # as) c =
     run_bind (search_key (ssh_key c) (ssh_key_status c) bytes) (\<lambda>status.
       read_ssh as (c\<lparr>ssh_key_status := status, cl_buf := cl_buf c @ bytes\<rparr>))"

text \<open>Bytes to the client, while the key has not been found.\<close>

definition flush_cl_buf :: "string start_send \<Rightarrow> comm_state \<times> world \<Rightarrow> string + comm_state \<times> world" where
  "flush_cl_buf a cw =
     (case cw of (c, w) \<Rightarrow>
       if cl_buf c \<noteq> [] then
         (case ssh_key_status c of
            Searching _ \<Rightarrow>
              (case a of
                 SendReady \<Rightarrow>
                   Inr (c\<lparr>cl_buf := []\<rparr>, take_message (cl_tx c) (SM_SshData (cl_buf c)) w)
               | SendNotReady \<Rightarrow> Inr (c, w)
               | SendErr e \<Rightarrow> Inl e)
          | FoundIt \<Rightarrow> Inr (c, w))
       else Inr (c, w))"

text \<open>Bytes to SSH.\<close>

definition flush_ssh_buf :: "string start_send \<Rightarrow> comm_state \<Rightarrow> string + comm_state" where
  "flush_ssh_buf a c =
     (if ssh_buf c \<noteq> [] then
        (case a of
           SendReady \<Rightarrow> Inr (c\<lparr>ssh_tx := ssh_tx c @ ssh_buf c, ssh_buf := []\<rparr>)
         | SendNotReady \<Rightarrow> Inr c
         | SendErr e \<Rightarrow> Inl e)
      else Inr c)"

text \<open>\<open>hand_off_ssh_process\<close>: the PTY goes to a task that logs what it prints.\<close>

definition hand_off_ssh_process :: "world \<Rightarrow> world" where
  "hand_off_ssh_process w = spawn SshLogTask w"

text \<open>The end of the handler, after the two buffers have been offered: flush, then hand off.\<close>

definition finish_communicating :: "session_env \<Rightarrow> comm_state \<Rightarrow> world \<Rightarrow> session_step" where
  "finish_communicating env c w =
     (case cl_flush env of
        PollErr e \<Rightarrow> Return (Raise (IoFailure e), w)
      | NotReady \<Rightarrow> Return (Stay (CommunicatingForOpen c), w)
      | Ready _ \<Rightarrow>
          (case ssh_flush env of
             PollErr e \<Rightarrow> Return (Raise (IoFailure e), w)
           | NotReady \<Rightarrow> Return (Stay (CommunicatingForOpen c), w)
           | Ready _ \<Rightarrow>
               if ssh_key_status c = FoundIt then
                 Return (Goto (FinalizingTxn (comm_common c) (cl_tx c) SM_Ok), hand_off_ssh_process w)
               else Return (Stay (CommunicatingForOpen c), w)))"

definition poll_communicating_for_open ::
  "session_env \<Rightarrow> comm_state \<Rightarrow> world \<Rightarrow> session_step" where
  "poll_communicating_for_open env c w =
     run_bind (read_user (rx_answers env) c) (\<lambda>r.
       case r of
         Inl e \<Rightarrow> Return (Raise e, w)
       | Inr c1 \<Rightarrow>
           run_bind (read_ssh (ssh_rx_answers env) c1) (\<lambda>r.
             case r of
               Inl msg \<Rightarrow> Return (Goto (abort_client (comm_common c1) (cl_tx c1) msg), w)
             | Inr c2 \<Rightarrow>
                 (case flush_cl_buf (cl_start env) (c2, w) of
                    Inl e \<Rightarrow> Return (Raise (IoFailure e), w)
                  | Inr (c3, w3) \<Rightarrow>
                      (case flush_ssh_buf (ssh_start env) c3 of
                         Inl e \<Rightarrow> Return (Raise (IoFailure e), w3)
                       | Inr c4 \<Rightarrow> finish_communicating env c4 w3))))"

section \<open>Finishing a reply\<close>

text \<open>
  \<open>Send::poll\<close> of the futures crate: the message is given to the sink, unless the sink has it
  already, and the sink is flushed. Its result, the message still to be given, and the process.
\<close>

fun poll_send ::
  "session_env \<Rightarrow> conn \<Rightarrow> server_message option \<Rightarrow> world \<Rightarrow>
   (unit, string) poll \<times> server_message option \<times> world" where
  "poll_send env tx None w = (cl_flush env, None, w)"
| "poll_send env tx (Some msg) w =
     (case cl_start env of
        SendReady \<Rightarrow> (cl_flush env, None, take_message tx msg w)
      | SendNotReady \<Rightarrow> (NotReady, Some msg, w)
      | SendErr e \<Rightarrow> (PollErr e, None, w))"

text \<open>The state is taken before the send is polled, so a send that is not ready loses it.\<close>

definition poll_finalizing_txn ::
  "session_env \<Rightarrow> client_common \<Rightarrow> conn \<Rightarrow> server_message \<Rightarrow> world \<Rightarrow> session_step" where
  "poll_finalizing_txn env common tx msg w =
     (case poll_send env tx (Some msg) w of
        (NotReady, _, w') \<Rightarrow> Return (Lost, w')
      | (PollErr e, _, w') \<Rightarrow> Return (Raise (IoFailure e), w')
      | (Ready _, _, w') \<Rightarrow> Return (Goto (AwaitingCommand common tx), w'))"

definition poll_aborting ::
  "session_env \<Rightarrow> client_common \<Rightarrow> conn \<Rightarrow> server_message option \<Rightarrow> world \<Rightarrow> session_step" where
  "poll_aborting env common tx msg w =
     (case poll_send env tx msg w of
        (NotReady, msg', w') \<Rightarrow> Return (Stay (Aborting common tx msg'), w')
      | (PollErr e, _, w') \<Rightarrow> Return (Raise (IoFailure e), w')
      | (Ready _, _, w') \<Rightarrow> Return (Raise EndingAfterNotify, w'))"

text \<open>The machine: the handler of its state. The two final states are not polled.\<close>

fun poll_client :: "session_env \<Rightarrow> client \<Rightarrow> world \<Rightarrow> session_step" where
  "poll_client env (AwaitingCommand common tx) w = poll_awaiting_command env common tx w"
| "poll_client env (CommunicatingForOpen c) w = poll_communicating_for_open env c w"
| "poll_client env (FinalizingTxn common tx msg) w = poll_finalizing_txn env common tx msg w"
| "poll_client env (Aborting common tx msg) w = poll_aborting env common tx msg w"
| "poll_client env (Finished common tx) w = Panic"
| "poll_client env (Failed e) w = Panic"

end
