(* ===== verification/SessionFacts.thy ===== *)
theory SessionFacts
  imports Session
begin

text \<open>
  What the handlers of \<open>Session\<close> do, branch by branch: the two relays, the key search over a
  whole run, the replies, the declared transitions.
\<close>

section \<open>The relays\<close>

text \<open>The SSH output in a sequence of messages to a client.\<close>

fun ssh_data :: "server_message list \<Rightarrow> byte list" where
  "ssh_data [] = []"
| "ssh_data (SM_SshData d # ms) = d @ ssh_data ms"
| "ssh_data (m # ms) = ssh_data ms"

lemma ssh_data_append [simp]: "ssh_data (ms @ ns) = ssh_data ms @ ssh_data ns"
  by (induction ms rule: ssh_data.induct) auto

lemma flush_cl_buf_cases:
  assumes "flush_cl_buf a (c, w) = Inr (c', w')"
  obtains (kept) "c' = c" "w' = w"
  | (taken) n where "a = SendReady" "ssh_key_status c = Searching n" "cl_buf c \<noteq> []"
      "c' = c\<lparr>cl_buf := []\<rparr>" "w' = take_message (cl_tx c) (SM_SshData (cl_buf c)) w"
  using assms
  by (auto simp: flush_cl_buf_def split: if_splits ssh_key_status.splits start_send.splits)

lemma flush_ssh_buf_cases:
  assumes "flush_ssh_buf a c = Inr c'"
  obtains (kept) "c' = c"
  | (taken) "a = SendReady" "c' = c\<lparr>ssh_tx := ssh_tx c @ ssh_buf c, ssh_buf := []\<rparr>"
  using assms by (auto simp: flush_ssh_buf_def split: if_splits start_send.splits)

interpretation to_client: byte_relay
  "\<lambda>(c, w). cl_buf c" "\<lambda>(c, w). ssh_data (sent_to (cl_tx c) w)"
  "\<lambda>d (c, w). (c\<lparr>cl_buf := cl_buf c @ d\<rparr>, w)" flush_cl_buf
  by unfold_locales (auto elim!: flush_cl_buf_cases)

interpretation to_ssh: byte_relay
  ssh_buf ssh_tx "\<lambda>d c. c\<lparr>ssh_buf := ssh_buf c @ d\<rparr>" flush_ssh_buf
  by unfold_locales (auto elim!: flush_ssh_buf_cases)

section \<open>Reading\<close>

fun typed :: "(client_message option, string) poll list \<Rightarrow> byte list" where
  "typed (Ready (Some (CM_UserData d)) # as) = d @ typed as"
| "typed _ = []"

fun printed :: "(byte list option, string) poll list \<Rightarrow> byte list list" where
  "printed (Ready (Some b) # as) = b # printed as"
| "printed _ = []"

lemma read_user_Inr:
  "read_user as c = Return (Inr c') \<Longrightarrow> c' = c\<lparr>ssh_buf := ssh_buf c @ typed as\<rparr>"
  by (induction as c rule: read_user.induct) auto

lemma read_ssh_Inr:
  "read_ssh as c = Return (Inr c') \<Longrightarrow>
   \<exists>st. search_chunks (ssh_key c) (ssh_key_status c) (printed as) = Return st \<and>
     c' = c\<lparr>ssh_key_status := st, cl_buf := cl_buf c @ concat (printed as)\<rparr>"
  by (induction as c rule: read_ssh.induct) auto

lemma read_user_ready:
  "read_user (map (\<lambda>d. Ready (Some (CM_UserData d))) ds @ NotReady # as) c =
     Return (Inr (c\<lparr>ssh_buf := ssh_buf c @ concat ds\<rparr>))"
  by (induction ds arbitrary: c) simp_all

lemma read_ssh_ready:
  "search_chunks (ssh_key c) (ssh_key_status c) bs = Return st \<Longrightarrow>
   read_ssh (map (\<lambda>b. Ready (Some b)) bs @ NotReady # as) c =
     Return (Inr (c\<lparr>ssh_key_status := st, cl_buf := cl_buf c @ concat bs\<rparr>))"
  by (induction bs arbitrary: c) auto

lemma read_user_not_Panic: "read_user as c \<noteq> Panic"
  by (induction as c rule: read_user.induct) auto

lemma read_ssh_not_Panic:
  "status_ok (ssh_key c) (ssh_key_status c) \<Longrightarrow> read_ssh as c \<noteq> Panic"
proof (induction as c rule: read_ssh.induct)
  case (5 bytes as c)
  from search_key_returns [OF 5(2), of bytes] obtain st where
    st: "search_key (ssh_key c) (ssh_key_status c) bytes = Return st" "status_ok (ssh_key c) st"
    by blast
  from 5(1) [of st] st(2) have
    "read_ssh as (c\<lparr>ssh_key_status := st, cl_buf := cl_buf c @ bytes\<rparr>) \<noteq> Panic" by simp
  with st(1) show ?case by simp
qed simp_all

text \<open>Both loops stop at the first answer that is not more text.\<close>

lemma read_user_returns:
  "\<exists>a \<in> set as. \<forall>d. a \<noteq> Ready (Some (CM_UserData d)) \<Longrightarrow> read_user as c \<noteq> Starved"
  by (induction as c rule: read_user.induct) auto

lemma read_ssh_returns:
  assumes "\<exists>a \<in> set as. \<forall>b. a \<noteq> Ready (Some b)" "status_ok (ssh_key c) (ssh_key_status c)"
  shows "read_ssh as c \<noteq> Starved"
  using assms
proof (induction as c rule: read_ssh.induct)
  case (5 bytes as c)
  from search_key_returns [OF 5(3), of bytes] obtain st where
    st: "search_key (ssh_key c) (ssh_key_status c) bytes = Return st" "status_ok (ssh_key c) st"
    by blast
  from 5(1) [of st] 5(2) st(2) have
    "read_ssh as (c\<lparr>ssh_key_status := st, cl_buf := cl_buf c @ bytes\<rparr>) \<noteq> Starved" by simp
  with st(1) show ?case by simp
qed simp_all

section \<open>One poll while communicating\<close>

text \<open>
  The state after the reading part, and the five ways the poll can go on from it.
\<close>

definition after_reading :: "session_env \<Rightarrow> comm_state \<Rightarrow> ssh_key_status \<Rightarrow> comm_state" where
  "after_reading env c st =
     c\<lparr>ssh_buf := ssh_buf c @ typed (rx_answers env), ssh_key_status := st,
       cl_buf := cl_buf c @ concat (printed (ssh_rx_answers env))\<rparr>"

definition reads_to :: "session_env \<Rightarrow> comm_state \<Rightarrow> ssh_key_status \<Rightarrow> bool" where
  "reads_to env c st \<longleftrightarrow>
     search_chunks (ssh_key c) (ssh_key_status c) (printed (ssh_rx_answers env)) = Return st"

lemma finish_communicating_cases:
  assumes "finish_communicating env c w = Return (res, w')"
  obtains (failed) e where "res = Raise (IoFailure e)" "w' = w"
  | (waiting) "res = Stay (CommunicatingForOpen c)" "w' = w"
  | (found) "res = Goto (FinalizingTxn (comm_common c) (cl_tx c) SM_Ok)" "w' = spawn SshLogTask w"
      "ssh_key_status c = FoundIt"
  using assms
  by (auto simp: finish_communicating_def hand_off_ssh_process_def split: poll.splits if_splits)

lemma poll_communicating_cases:
  assumes "poll_communicating_for_open env c w = Return (res, w')"
  obtains
    (failed_reading) e where "res = Raise e" "w' = w"
  | (aborted) msg where
      "res = Goto (Aborting (comm_common c) (cl_tx c) (Some (SM_Error msg)))" "w' = w"
  | (failed_sending) e st where "reads_to env c st" "res = Raise (IoFailure e)"
      "w' = w \<or> (\<exists>d. d \<noteq> [] \<and> w' = take_message (cl_tx c) (SM_SshData d) w)"
  | (waiting) st c3 c4 where "reads_to env c st"
      "flush_cl_buf (cl_start env) (after_reading env c st, w) = Inr (c3, w')"
      "flush_ssh_buf (ssh_start env) c3 = Inr c4" "res = Stay (CommunicatingForOpen c4)"
  | (found) "reads_to env c FoundIt"
      "res = Goto (FinalizingTxn (comm_common c) (cl_tx c) SM_Ok)" "w' = spawn SshLogTask w"
proof -
  from assms obtain r1 where r1: "read_user (rx_answers env) c = Return r1"
    by (auto simp: poll_communicating_for_open_def)
  show thesis
  proof (cases r1)
    case (Inl e)
    with assms r1 failed_reading show thesis by (auto simp: poll_communicating_for_open_def)
  next
    case c1: (Inr c1)
    from r1 c1 have c1_def: "c1 = c\<lparr>ssh_buf := ssh_buf c @ typed (rx_answers env)\<rparr>"
      by (simp add: read_user_Inr)
    from assms r1 c1 obtain r2 where r2: "read_ssh (ssh_rx_answers env) c1 = Return r2"
      by (auto simp: poll_communicating_for_open_def)
    show thesis
    proof (cases r2)
      case (Inl msg)
      with assms r1 c1 r2 aborted show thesis
        by (auto simp: poll_communicating_for_open_def abort_client_def c1_def)
    next
      case c2: (Inr c2)
      from read_ssh_Inr [OF r2 [unfolded c2]] obtain st where
        st: "reads_to env c st" and c2_def: "c2 = after_reading env c st"
        by (auto simp: reads_to_def after_reading_def c1_def)
      show thesis
      proof (cases "flush_cl_buf (cl_start env) (c2, w)")
        case (Inl e)
        with assms r1 c1 r2 c2 failed_sending [OF st] show thesis
          by (auto simp: poll_communicating_for_open_def)
      next
        case cw3: (Inr cw3)
        obtain c3 w3 where cw3_def: "cw3 = (c3, w3)" by (cases cw3)
        from cw3 cw3_def have f3: "flush_cl_buf (cl_start env) (after_reading env c st, w) = Inr (c3, w3)"
          by (simp add: c2_def)
        from f3 have w3: "w3 = w \<or> (\<exists>d. d \<noteq> [] \<and> w3 = take_message (cl_tx c) (SM_SshData d) w)"
        proof (cases rule: flush_cl_buf_cases)
          case (taken n)
          then show ?thesis
            by (intro disjI2 exI [of _ "cl_buf (after_reading env c st)"]) (simp add: after_reading_def)
        qed simp
        show thesis
        proof (cases "flush_ssh_buf (ssh_start env) c3")
          case (Inl e)
          with assms r1 c1 r2 c2 cw3 cw3_def failed_sending [OF st] w3 show thesis
            by (auto simp: poll_communicating_for_open_def)
        next
          case (Inr c4)
          with assms r1 c1 r2 c2 cw3 cw3_def have
            "finish_communicating env c4 w3 = Return (res, w')"
            by (simp add: poll_communicating_for_open_def)
          then show thesis
          proof (cases rule: finish_communicating_cases)
            case (failed e)
            with failed_sending [OF st] w3 show thesis by blast
          next
            case waiting
            with that(4) [OF st _ Inr] f3 show thesis by blast
          next
            case found
            from Inr have "ssh_key_status c4 = ssh_key_status c3" "comm_common c4 = comm_common c3"
              "cl_tx c4 = cl_tx c3"
              by (auto elim!: flush_ssh_buf_cases)
            moreover from f3 calculation(1) found(3) have "w3 = w" "c3 = after_reading env c st"
              by (auto elim!: flush_cl_buf_cases)
            ultimately show thesis
              using found st that(5) by (auto simp: after_reading_def)
          qed
        qed
      qed
    qed
  qed
qed

section \<open>One poll of a reply\<close>

text \<open>The message is given to the sink at most once, and before anything else succeeds.\<close>

lemma poll_send_cases:
  assumes "poll_send env tx msg w = (r, msg', w')"
  obtains (refused) m where "msg = Some m" "cl_start env = SendNotReady" "r = NotReady" "msg' = msg" "w' = w"
  | (failed) m e where "msg = Some m" "cl_start env = SendErr e" "r = PollErr e" "msg' = None" "w' = w"
  | (given) m where "msg = Some m" "cl_start env = SendReady" "r = cl_flush env" "msg' = None"
      "w' = take_message tx m w"
  | (flushed) "msg = None" "r = cl_flush env" "msg' = None" "w' = w"
  using assms by (cases "(env, tx, msg, w)" rule: poll_send.cases) (auto split: start_send.split_asm)

lemma poll_finalizing_cases:
  assumes "poll_finalizing_txn env cm tx msg w = Return (res, w')"
  obtains (replied) "res = Goto (AwaitingCommand cm tx)" "w' = take_message tx msg w"
      "cl_start env = SendReady" "cl_flush env = Ready ()"
  | (over) "res = Lost \<or> (\<exists>e. res = Raise e)" "w' = w \<or> w' = take_message tx msg w"
proof -
  obtain r msg' v where s: "poll_send env tx (Some msg) w = (r, msg', v)"
    by (cases "poll_send env tx (Some msg) w")
  with assms that show thesis
    by (cases r; cases rule: poll_send_cases [OF s]) (auto simp: poll_finalizing_txn_def)
qed

lemma poll_aborting_cases:
  assumes "poll_aborting env cm tx msg w = Return (res, w')"
  obtains (waiting) msg' where "res = Stay (Aborting cm tx msg')" "msg' = msg" "w' = w"
  | (given) m where "res = Stay (Aborting cm tx None)" "msg = Some m" "w' = take_message tx m w"
  | (over) e where "res = Raise e" "w' = w \<or> (\<exists>m. msg = Some m \<and> w' = take_message tx m w)"
proof -
  obtain r msg' v where s: "poll_send env tx msg w = (r, msg', v)" by (cases "poll_send env tx msg w")
  with assms that show thesis
    by (cases r; cases rule: poll_send_cases [OF s]) (auto simp: poll_aborting_def)
qed

section \<open>Launching SSH\<close>

text \<open>The two outcomes of \<open>inner\<close>.\<close>

lemma open_inner_cases:
  assumes "open_inner env params key w = Return (r, w')"
  obtains (failed) e where "r = Inl e" "w' = w\<lparr>next_chan := next_chan w + 1\<rparr>"
  | (running) fd child where "r = Inr fd" "\<not> reaped child" "kill_on_drop child"
      "w' = insert_child (op_host params) (Running (next_chan w))
        (spawn (MonitorTask (AwaitingChildEvent (op_host params) child (next_chan w)))
          (w\<lparr>next_chan := next_chan w + 1,
            launched := launched w @ [ssh_command (op_host params) key]\<rparr>))"
proof (cases "fst (async_pty_open (libc_k env) (nonblock_after env) (pty_open env)
    :: (io_error + int) \<times> byte list syscall list)")
  case (Inl e)
  with assms show thesis by (intro failed) (auto simp: open_inner_def Let_def)
next
  case (Inr fd)
  with assms obtain c calls where
    sp: "spawn_pty_async (cfmakeraw env) fd (pty_spawn env) = Return (c, calls)"
    by (auto simp: open_inner_def Let_def)
  show thesis
  proof (cases c)
    case (Inl e)
    with assms Inr sp show thesis by (intro failed) (auto simp: open_inner_def Let_def)
  next
    case child: (Inr child)
    with sp have "\<not> reaped child" "kill_on_drop child" by (auto dest: spawned_child_fresh)
    with assms Inr sp child show thesis
      by (intro running [of fd child]) (auto simp: open_inner_def Let_def)
  qed
qed

text \<open>The three outcomes of an open command.\<close>

lemma process_open_cases:
  assumes "process_open_command env cm params tx w = Return (res, w')"
  obtains (already) "res = Goto (FinalizingTxn cm tx SM_TunnelAlreadyOpen)"
      "w' = log_items LogAlreadyOpen (log_items (LogSpawn (op_host params)) w)"
      "\<exists>ch. children_get (children w) (op_host params) = Some (Running ch)"
  | (failed) e where "res = Goto (Aborting cm tx (Some (SM_Error e)))"
      "w' = (log_items (LogSpawn (op_host params)) w)\<lparr>next_chan := next_chan w + 1\<rparr>"
      "\<nexists>ch. children_get (children w) (op_host params) = Some (Running ch)"
  | (launched) w2 fd where
      "open_inner env params (make_key (b64_encode env) (rng_bytes env))
        (log_items (LogSpawn (op_host params)) w) = Return (Inr fd, w2)"
      "res = Goto (CommunicatingForOpen
        \<lparr>comm_common = cm, cl_tx = tx, cl_buf = [], ssh_tx = [], ssh_buf = [],
         ssh_key = into_bytes (make_key (b64_encode env) (rng_bytes env)),
         ssh_key_status = Searching 0\<rparr>)"
      "w' = take_message tx SM_Ok w2"
      "\<nexists>ch. children_get (children w) (op_host params) = Some (Running ch)"
proof (cases "\<exists>ch. children_get (children w) (op_host params) = Some (Running ch)")
  case True
  with assms already show thesis by (auto simp: process_open_command_def)
next
  case False
  let ?key = "make_key (b64_encode env) (rng_bytes env)"
  from False assms obtain r w2 where
    inner: "open_inner env params ?key (log_items (LogSpawn (op_host params)) w) = Return (r, w2)"
    and res: "(case r of
              Inl e \<Rightarrow> Return (Goto (abort_client cm tx (''failed to launch SSH: '' @ e)), w2)
            | Inr ptymaster \<Rightarrow>
                (case cl_start env of
                   SendReady \<Rightarrow>
                     Return (Goto (CommunicatingForOpen
                       \<lparr>comm_common = cm, cl_tx = tx, cl_buf = [], ssh_tx = [], ssh_buf = [],
                        ssh_key = into_bytes ?key, ssh_key_status = Searching 0\<rparr>),
                       take_message tx SM_Ok w2)
                 | _ \<Rightarrow> Panic)) = Return (res, w')"
    by (cases "children_get (children w) (op_host params)")
      (auto simp: process_open_command_def Let_def split: tunnel_state.split_asm)
  show thesis
  proof (cases r)
    case (Inl e)
    from inner Inl have "w2 = (log_items (LogSpawn (op_host params)) w)\<lparr>next_chan := next_chan w + 1\<rparr>"
      by (auto elim: open_inner_cases)
    with res Inl failed False show thesis by (auto simp: abort_client_def)
  next
    case (Inr fd)
    with res inner launched False show thesis by (cases "cl_start env") auto
  qed
qed

text \<open>A session that waits for a command goes on waiting only if none has arrived.\<close>

lemma awaiting_stays_waiting:
  assumes "poll_awaiting_command env cm tx w = Return (Stay cl, w')"
  shows "\<exists>as. rx_answers env = NotReady # as \<and> cl = AwaitingCommand cm tx"
proof (cases "rx_answers env")
  case Nil
  with assms show ?thesis by (simp add: poll_awaiting_command_def)
next
  case (Cons a as)
  have opens: "process_open_command env cm p tx w \<noteq> Return (Stay cl, w')" for p
  proof
    assume "process_open_command env cm p tx w = Return (Stay cl, w')"
    then show False by (cases rule: process_open_cases) simp_all
  qed
  show ?thesis
  proof (cases a)
    case (Ready m)
    with assms Cons opens show ?thesis
      by (auto simp: poll_awaiting_command_def process_close_command_def process_status_query_def Let_def
          split: option.split_asm client_message.split_asm tunnel_state.split_asm sum.split_asm)
  qed (use assms Cons in \<open>simp_all add: poll_awaiting_command_def\<close>)
qed

end
