(* ===== verification/SessionRun.thy ===== *)
theory SessionRun
  imports SessionFacts
begin

text \<open>
  Whole runs of \<open>poll_communicating_for_open\<close>, from the opening of a tunnel to the discovery of
  the key, with whatever the other tasks of the daemon do in between.
\<close>

section \<open>Runs\<close>

text \<open>A turn is what the other tasks have done to the process, and then the environment of a poll.\<close>

type_synonym turn = "(world \<Rightarrow> world) \<times> session_env"

fun communicate :: "turn list \<Rightarrow> comm_state \<Rightarrow> world \<Rightarrow> session_step" where
  "communicate [] c w = Return (Stay (CommunicatingForOpen c), w)"
| "communicate ((others, env) # ts) c w =
     run_bind (poll_communicating_for_open env c (others w)) (\<lambda>(m, w').
       case m of
         Stay (CommunicatingForOpen c') \<Rightarrow> communicate ts c' w'
       | _ \<Rightarrow> Return (m, w'))"

text \<open>Other tasks do not write to this client's connection.\<close>

definition undisturbed :: "conn \<Rightarrow> turn list \<Rightarrow> bool" where
  "undisturbed tx ts \<longleftrightarrow> (\<forall>(others, env) \<in> set ts. \<forall>w. sent_to tx (others w) = sent_to tx w)"

definition all_typed :: "turn list \<Rightarrow> byte list" where
  "all_typed ts = concat (map (\<lambda>(others, env). typed (rx_answers env)) ts)"

definition all_printed :: "turn list \<Rightarrow> byte list list" where
  "all_printed ts = concat (map (\<lambda>(others, env). printed (ssh_rx_answers env)) ts)"

lemma all_simps [simp]:
  "all_typed [] = []" "all_typed ((others, env) # ts) = typed (rx_answers env) @ all_typed ts"
  "all_printed [] = []"
  "all_printed ((others, env) # ts) = printed (ssh_rx_answers env) @ all_printed ts"
  by (simp_all add: all_typed_def all_printed_def)

lemma undisturbed_Nil [simp]: "undisturbed tx []"
  by (simp add: undisturbed_def)

lemma undisturbed_Cons [simp]:
  "undisturbed tx ((others, env) # ts) \<longleftrightarrow>
     (\<forall>w. sent_to tx (others w) = sent_to tx w) \<and> undisturbed tx ts"
  by (auto simp: undisturbed_def)

lemma search_chunks_append:
  "search_chunks key s (xs @ ys) = run_bind (search_chunks key s xs) (\<lambda>s'. search_chunks key s' ys)"
proof (induction xs arbitrary: s)
  case (Cons x xs)
  show ?case by (cases "search_key key s x") (simp_all add: Cons.IH)
qed simp

lemma search_chunks_FoundIt [simp]: "search_chunks key FoundIt cs = Return FoundIt"
  by (induction cs) (simp_all add: search_key_def)

lemma found_key:
  assumes "search_chunks (into_bytes key) (Searching 0) cs = Return FoundIt" "key \<noteq> []"
  shows "sublist (into_bytes key) (concat cs)"
proof -
  from assms(2) have k: "into_bytes key \<noteq> []" by (simp add: into_bytes_def)
  with assms(1) have "scan_bytes (into_bytes key) 0 (concat cs) = Return (length (into_bytes key))"
    by (simp add: search_from_start search_key_FoundIt_iff)
  with k scan_bytes_sublist [of 0 "into_bytes key"] show ?thesis by simp
qed

section \<open>One turn\<close>

text \<open>What a poll that keeps the session communicating has done to it.\<close>

definition turn_effect :: "session_env \<Rightarrow> comm_state \<Rightarrow> world \<Rightarrow> comm_state \<Rightarrow> world \<Rightarrow> bool" where
  "turn_effect env c w c' w' \<longleftrightarrow>
     comm_common c' = comm_common c \<and> cl_tx c' = cl_tx c \<and> ssh_key c' = ssh_key c \<and>
     reads_to env c (ssh_key_status c') \<and>
     ssh_tx c' @ ssh_buf c' = ssh_tx c @ ssh_buf c @ typed (rx_answers env) \<and>
     ssh_data (sent_to (cl_tx c) w') @ cl_buf c' =
       ssh_data (sent_to (cl_tx c) w) @ cl_buf c @ concat (printed (ssh_rx_answers env))"

lemma poll_communicating_Stay:
  assumes "poll_communicating_for_open env c w = Return (Stay m, w')"
  obtains c' where "m = CommunicatingForOpen c'" "turn_effect env c w c' w'"
  using assms
proof (cases rule: poll_communicating_cases)
  case (waiting st c3 c4)
  let ?c = "after_reading env c st"
  from to_client.flush_conserves [OF waiting(2)]
  have client: "ssh_data (sent_to (cl_tx c3) w') @ cl_buf c3 =
      ssh_data (sent_to (cl_tx c) w) @ cl_buf c @ concat (printed (ssh_rx_answers env))"
    by (simp add: after_reading_def)
  from waiting(2) have c3: "comm_common c3 = comm_common c" "cl_tx c3 = cl_tx c" "ssh_key c3 = ssh_key c"
      "ssh_key_status c3 = st" "ssh_tx c3 = ssh_tx c"
      "ssh_buf c3 = ssh_buf c @ typed (rx_answers env)"
    by (auto elim!: flush_cl_buf_cases simp: after_reading_def)
  from waiting(3) have c4: "comm_common c4 = comm_common c3" "cl_tx c4 = cl_tx c3"
      "ssh_key c4 = ssh_key c3" "ssh_key_status c4 = ssh_key_status c3" "cl_buf c4 = cl_buf c3"
    by (auto elim!: flush_ssh_buf_cases)
  from to_ssh.flush_conserves [OF waiting(3)] c3 have
    "ssh_tx c4 @ ssh_buf c4 = ssh_tx c @ ssh_buf c @ typed (rx_answers env)" by simp
  with client c3 c4 waiting(1) have "turn_effect env c w c4 w'"
    by (simp add: turn_effect_def)
  with waiting(4) that show thesis by blast
qed simp_all

section \<open>Whole runs\<close>

lemma communicate_Stay:
  assumes "communicate ts c w = Return (Stay m, w')" "undisturbed (cl_tx c) ts"
  shows "\<exists>c'. m = CommunicatingForOpen c' \<and> cl_tx c' = cl_tx c \<and> ssh_key c' = ssh_key c \<and>
    comm_common c' = comm_common c \<and>
    search_chunks (ssh_key c) (ssh_key_status c) (all_printed ts) = Return (ssh_key_status c') \<and>
    ssh_tx c' @ ssh_buf c' = ssh_tx c @ ssh_buf c @ all_typed ts \<and>
    ssh_data (sent_to (cl_tx c) w') @ cl_buf c' =
      ssh_data (sent_to (cl_tx c) w) @ cl_buf c @ concat (all_printed ts)"
  using assms
proof (induction ts arbitrary: c w)
  case (Cons t ts)
  obtain others env where t: "t = (others, env)" by (cases t)
  from Cons.prems(1) t obtain m1 w1 where
    poll: "poll_communicating_for_open env c (others w) = Return (m1, w1)" and
    rest: "(case m1 of Stay (CommunicatingForOpen c') \<Rightarrow> communicate ts c' w1 | _ \<Rightarrow> Return (m1, w1)) =
      Return (Stay m, w')"
    by auto
  from rest obtain m2 where "m1 = Stay m2" by (cases m1) auto
  with poll obtain c1 where c1: "m1 = Stay (CommunicatingForOpen c1)"
    and eff: "turn_effect env c (others w) c1 w1"
    by (auto elim: poll_communicating_Stay)
  from eff Cons.prems(2) t have kept: "cl_tx c1 = cl_tx c" and dist: "undisturbed (cl_tx c1) ts"
    by (auto simp: turn_effect_def)
  from rest c1 have "communicate ts c1 w1 = Return (Stay m, w')" by simp
  from Cons.IH [OF this dist] obtain c' where IH: "m = CommunicatingForOpen c'" "cl_tx c' = cl_tx c1"
    "ssh_key c' = ssh_key c1" "comm_common c' = comm_common c1"
    "search_chunks (ssh_key c1) (ssh_key_status c1) (all_printed ts) = Return (ssh_key_status c')"
    "ssh_tx c' @ ssh_buf c' = (ssh_tx c1 @ ssh_buf c1) @ all_typed ts"
    "ssh_data (sent_to (cl_tx c1) w') @ cl_buf c' =
       (ssh_data (sent_to (cl_tx c1) w1) @ cl_buf c1) @ concat (all_printed ts)"
    by auto
  from eff Cons.prems(2) t IH show ?case
    by (auto simp: turn_effect_def reads_to_def search_chunks_append simp del: append_assoc
        simp: append_assoc [symmetric])
qed auto

lemma communicate_found:
  assumes "communicate ts c w = Return (Goto (FinalizingTxn cm tx msg), w')"
    and "undisturbed (cl_tx c) ts"
  shows "msg = SM_Ok \<and> cm = comm_common c \<and> tx = cl_tx c \<and>
    search_chunks (ssh_key c) (ssh_key_status c) (all_printed ts) = Return FoundIt \<and>
    prefix (ssh_data (sent_to (cl_tx c) w'))
      (ssh_data (sent_to (cl_tx c) w) @ cl_buf c @ concat (all_printed ts))"
  using assms
proof (induction ts arbitrary: c w)
  case (Cons t ts)
  obtain others env where t: "t = (others, env)" by (cases t)
  from Cons.prems(1) t obtain m1 w1 where
    poll: "poll_communicating_for_open env c (others w) = Return (m1, w1)" and
    rest: "(case m1 of Stay (CommunicatingForOpen c') \<Rightarrow> communicate ts c' w1 | _ \<Rightarrow> Return (m1, w1)) =
      Return (Goto (FinalizingTxn cm tx msg), w')"
    by auto
  show ?case
  proof (cases "\<exists>m2. m1 = Stay m2")
    case True
    with poll obtain c1 where c1: "m1 = Stay (CommunicatingForOpen c1)"
      and eff: "turn_effect env c (others w) c1 w1"
      by (auto elim: poll_communicating_Stay)
    from eff Cons.prems(2) t have dist: "undisturbed (cl_tx c1) ts"
      by (auto simp: turn_effect_def)
    from rest c1 have "communicate ts c1 w1 = Return (Goto (FinalizingTxn cm tx msg), w')" by simp
    from Cons.IH [OF this dist] have IH: "msg = SM_Ok \<and> cm = comm_common c1 \<and> tx = cl_tx c1 \<and>
      search_chunks (ssh_key c1) (ssh_key_status c1) (all_printed ts) = Return FoundIt \<and>
      prefix (ssh_data (sent_to (cl_tx c1) w'))
        ((ssh_data (sent_to (cl_tx c1) w1) @ cl_buf c1) @ concat (all_printed ts))"
      by simp
    from eff Cons.prems(2) t IH show ?thesis
      by (auto simp: turn_effect_def reads_to_def search_chunks_append)
  next
    case False
    with rest have "m1 = Goto (FinalizingTxn cm tx msg)" "w1 = w'" by (cases m1; simp)+
    with poll have "poll_communicating_for_open env c (others w) =
        Return (Goto (FinalizingTxn cm tx msg), w')" by simp
    then show ?thesis
    proof (cases rule: poll_communicating_cases)
      case found
      moreover have "sent_to (cl_tx c) (spawn SshLogTask (others w)) = sent_to (cl_tx c) w"
        using Cons.prems(2) t by (simp add: sent_to_def)
      ultimately show ?thesis
        by (simp add: reads_to_def search_chunks_append t)
    qed simp_all
  qed
qed simp

end
