(* ===== verification/Samples.thy ===== *)
theory Samples
  imports Session
begin

text \<open>
  Concrete values for the witnesses: \<open>sample_env\<close>, an environment in which nothing arrives and
  every send and every call succeeds, and the process of a daemon that has just started.
  A witness replaces the fields it needs.
\<close>

definition sample_env :: session_env where
  "sample_env =
     \<lparr>rx_answers = [NotReady], ssh_rx_answers = [NotReady],
      cl_start = SendReady, ssh_start = SendReady, cl_flush = Ready (), ssh_flush = Ready (),
      kill_send = Inr (), rng_bytes = [1, 200],
      b64_encode = map (\<lambda>b. if b < 128 then CHR ''A'' else CHR ''B''),
      libc_k = \<lparr>O_RDWR = 2, O_NOCTTY = 256, O_NONBLOCK = 2048\<rparr>, nonblock_after = False,
      pty_open = \<lparr>openpt_ret = 5, grantpt_ret = 0, unlockpt_ret = 0, getfl_ret = 0, setfl_ret = 0,
        open_errno = IoError OtherKind []\<rparr>,
      cfmakeraw = (\<lambda>a. a),
      pty_spawn = \<lparr>slave_name = Ptsname_r 0 [47, 0], slave_errno = IoError OtherKind [],
        slave_open = (\<lambda>p. Inr 6), clone_stdin = Inr 7, clone_stdout = Inr 8, fork_ret = Inr 42,
        pre_answers = \<lparr>tcgetattr_ret = 0, tcgetattr_attrs = [], tcsetattr_ret = 0, close_ret = 0,
          setsid_ret = 42, sctty_ret = 0, pre_errno = IoError OtherKind []\<rparr>,
        exec_ret = Inr ()\<rparr>\<rparr>"

definition empty_world :: world where
  "empty_world =
     \<lparr>sock_path = ''/home/u/.ssh/stund.sock'', opts_foreground = True, log_lines = [], children = [],
      tasks = [], sent = [], sigkills = [], launched = [], kill_sent = [], next_chan = 0,
      next_conn = 1, exit_msgs = 0, lingers = []\<rparr>"

end
