(* ===== verification/SessionProps.thy ===== *)
theory SessionProps
  imports SessionRun Samples
begin

text \<open>
  The properties of a client session.
\<close>

text \<open>The state \<open>process_open_command\<close> enters when it has launched SSH.\<close>

definition opened :: "client_common \<Rightarrow> conn \<Rightarrow> string \<Rightarrow> comm_state" where
  "opened cm tx key =
     \<lparr>comm_common = cm, cl_tx = tx, cl_buf = [], ssh_tx = [], ssh_buf = [],
      ssh_key = into_bytes key, ssh_key_status = Searching 0\<rparr>"

section \<open>Opening a tunnel\<close>

text \<open>What the user types reaches SSH byte for byte and in order: at every moment of the
  open dialogue, the bytes the PTY has taken followed by those still buffered are exactly the
  bytes the client has sent.\<close>

theorem typed_bytes_reach_ssh:
  assumes "communicate ts (opened cm tx key) w = Return (Stay (CommunicatingForOpen c'), w')"
    and "undisturbed tx ts"
  shows "ssh_tx c' @ ssh_buf c' = all_typed ts"
  using communicate_Stay [OF assms(1)] assms(2) by (simp add: opened_def)

theorem typed_bytes_reach_ssh_witness:
  "\<exists>c' :: comm_state. ssh_tx c' @ ssh_buf c' = all_typed
     [(id, sample_env\<lparr>rx_answers := [Ready (Some (CM_UserData [1, 2])), NotReady]\<rparr>),
      (log_items LogStartingUp,
       sample_env\<lparr>rx_answers := [Ready (Some (CM_UserData [3])), NotReady], ssh_start := SendNotReady\<rparr>)] \<and>
     ssh_tx c' = [1, 2] \<and> ssh_buf c' = [3]"
proof -
  let ?ts = "[(id, sample_env\<lparr>rx_answers := [Ready (Some (CM_UserData [1, 2])), NotReady]\<rparr>),
      (log_items LogStartingUp,
       sample_env\<lparr>rx_answers := [Ready (Some (CM_UserData [3])), NotReady], ssh_start := SendNotReady\<rparr>)]"
  let ?c = "(opened \<lparr>exit_on_close = False\<rparr> 0 ''K'')\<lparr>ssh_tx := [1, 2], ssh_buf := [3]\<rparr>"
  have run: "communicate ?ts (opened \<lparr>exit_on_close = False\<rparr> 0 ''K'') empty_world =
      Return (Stay (CommunicatingForOpen ?c), log_items LogStartingUp empty_world)"
    by (simp add: poll_communicating_for_open_def opened_def sample_env_def flush_cl_buf_def
        flush_ssh_buf_def finish_communicating_def)
  have "undisturbed 0 ?ts" by (simp add: sent_to_def)
  from typed_bytes_reach_ssh [OF run this] show ?thesis
    by (intro exI [of _ ?c]) (simp add: opened_def)
qed

text \<open>What SSH prints reaches the user byte for byte and in order: the data messages the
  client has been sent during the dialogue, followed by the buffer, are exactly the output
  read from the PTY.\<close>

theorem printed_bytes_reach_client:
  assumes "communicate ts (opened cm tx key) w = Return (Stay (CommunicatingForOpen c'), w')"
    and "undisturbed tx ts"
  shows "ssh_data (sent_to tx w') @ cl_buf c' = ssh_data (sent_to tx w) @ concat (all_printed ts)"
  using communicate_Stay [OF assms(1)] assms(2) by (simp add: opened_def)

theorem printed_bytes_reach_client_witness:
  "ssh_data [SM_Ok, SM_SshData [9, 8]] @ [] =
     ssh_data [SM_Ok] @ concat (all_printed
       [(id, sample_env\<lparr>ssh_rx_answers := [Ready (Some [9]), Ready (Some [8]), NotReady]\<rparr>)])"
proof -
  let ?ts = "[(id, sample_env\<lparr>ssh_rx_answers := [Ready (Some [9]), Ready (Some [8]), NotReady]\<rparr>)]"
  let ?w = "take_message 0 SM_Ok empty_world"
  have run: "communicate ?ts (opened \<lparr>exit_on_close = False\<rparr> 0 ''K'') ?w =
      Return (Stay (CommunicatingForOpen (opened \<lparr>exit_on_close = False\<rparr> 0 ''K'')),
        take_message 0 (SM_SshData [9, 8]) ?w)"
    by (simp add: poll_communicating_for_open_def opened_def sample_env_def flush_cl_buf_def
        flush_ssh_buf_def finish_communicating_def search_key_def into_bytes_def of_char_def)
  have "undisturbed 0 ?ts" by simp
  from printed_bytes_reach_client [OF run this] show ?thesis
    by (simp add: opened_def sent_to_def take_message_def empty_world_def)
qed

text \<open>A client is told that its tunnel is open only after SSH has printed the marker of this
  very tunnel, whole: a dialogue leaves for a final reply only with \<open>Ok\<close>, and then the marker
  occurs in the output; what the user was shown is a prefix of that output.\<close>

theorem success_only_after_marker:
  assumes "communicate ts (opened cm tx key) w = Return (Goto (FinalizingTxn cm' tx' msg), w')"
    and "undisturbed tx ts" and "key \<noteq> []"
  shows "msg = SM_Ok \<and> tx' = tx \<and> sublist (into_bytes key) (concat (all_printed ts)) \<and>
    prefix (ssh_data (sent_to tx w')) (ssh_data (sent_to tx w) @ concat (all_printed ts))"
proof -
  from communicate_found [OF assms(1)] assms(2) have
    found: "search_chunks (into_bytes key) (Searching 0) (all_printed ts) = Return FoundIt"
    and rest: "msg = SM_Ok" "tx' = tx"
      "prefix (ssh_data (sent_to tx w')) (ssh_data (sent_to tx w) @ concat (all_printed ts))"
    by (simp_all add: opened_def)
  from found_key [OF found assms(3)] rest show ?thesis by simp
qed

theorem success_only_after_marker_witness:
  "sublist (into_bytes ''AB'') (concat (all_printed
     [(id, sample_env\<lparr>ssh_rx_answers := [Ready (Some [7, 65]), NotReady]\<rparr>),
      (id, sample_env\<lparr>ssh_rx_answers := [Ready (Some [66, 10]), NotReady]\<rparr>)]))"
proof -
  let ?ts = "[(id, sample_env\<lparr>ssh_rx_answers := [Ready (Some [7, 65]), NotReady]\<rparr>),
      (id, sample_env\<lparr>ssh_rx_answers := [Ready (Some [66, 10]), NotReady]\<rparr>)]"
  have "communicate ?ts (opened \<lparr>exit_on_close = False\<rparr> 0 ''AB'') empty_world =
      Return (Goto (FinalizingTxn \<lparr>exit_on_close = False\<rparr> 0 SM_Ok),
        spawn SshLogTask (take_message 0 (SM_SshData [7, 65]) empty_world))"
    by (simp add: poll_communicating_for_open_def opened_def sample_env_def flush_cl_buf_def
        flush_ssh_buf_def finish_communicating_def search_key_def into_bytes_def of_char_def
        hand_off_ssh_process_def)
  from success_only_after_marker [OF this] show ?thesis by simp
qed

text \<open>C9. The marker ends the dialogue: in the poll that reads its last byte, printed on a line
  of its own, and finds both sinks flushed, the session hands the PTY over to the logging task
  and goes on to send the final \<open>Ok\<close>. (\<open>past\<close> is what earlier polls have read.)\<close>

theorem marker_completes_open:
  assumes "ssh_key c = into_bytes (make_key encode rnd)"
    and "search_chunks (ssh_key c) (Searching 0) past = Return (ssh_key_status c)"
    and "10 \<notin> set (into_bytes (encode rnd))" "pre = [] \<or> last pre = 10"
    and "concat (past @ news) = pre @ into_bytes (make_key encode rnd) @ post"
    and "rx_answers env = map (\<lambda>d. Ready (Some (CM_UserData d))) ds @ [NotReady]"
    and "ssh_rx_answers env = map (\<lambda>b. Ready (Some b)) news @ [NotReady]"
    and "\<forall>e. ssh_start env \<noteq> SendErr e" "cl_flush env = Ready ()" "ssh_flush env = Ready ()"
  shows "poll_communicating_for_open env c w =
    Return (Goto (FinalizingTxn (comm_common c) (cl_tx c) SM_Ok), spawn SshLogTask w)"
proof -
  have "search_chunks (ssh_key c) (Searching 0) (past @ news) = Return FoundIt"
    unfolding assms(1) by (rule marker_line_search [OF assms(3-5)])
  with assms(2) have "search_chunks (ssh_key c) (ssh_key_status c) news = Return FoundIt"
    by (simp add: search_chunks_append)
  then have "read_ssh (ssh_rx_answers env) (c\<lparr>ssh_buf := ssh_buf c @ concat ds\<rparr>) =
      Return (Inr (c\<lparr>ssh_buf := ssh_buf c @ concat ds, ssh_key_status := FoundIt,
        cl_buf := cl_buf c @ concat news\<rparr>))"
    unfolding assms(7) by (simp add: read_ssh_ready)
  moreover have "read_user (rx_answers env) c = Return (Inr (c\<lparr>ssh_buf := ssh_buf c @ concat ds\<rparr>))"
    unfolding assms(6) by (simp add: read_user_ready)
  ultimately show ?thesis using assms(8-10)
    by (auto simp: poll_communicating_for_open_def flush_cl_buf_def flush_ssh_buf_def
        finish_communicating_def hand_off_ssh_process_def split: start_send.split)
qed

theorem marker_completes_open_witness:
  "poll_communicating_for_open
     (sample_env\<lparr>ssh_rx_answers := [Ready (Some [85, 78, 68, 58, 65, 66, 13, 10]), NotReady]\<rparr>)
     ((opened \<lparr>exit_on_close = False\<rparr> 0 (make_key (b64_encode sample_env) [1, 200]))
       \<lparr>ssh_key_status := Searching 2\<rparr>) empty_world =
   Return (Goto (FinalizingTxn \<lparr>exit_on_close = False\<rparr> 0 SM_Ok), spawn SshLogTask empty_world)"
  using marker_completes_open [of
      "(opened \<lparr>exit_on_close = False\<rparr> 0 (make_key (b64_encode sample_env) [1, 200]))
        \<lparr>ssh_key_status := Searching 2\<rparr>"
      "b64_encode sample_env" "[1, 200]" "[[10, 83, 84]]" "[10]" "[[85, 78, 68, 58, 65, 66, 13, 10]]"
      "[13, 10]" "sample_env\<lparr>ssh_rx_answers := [Ready (Some [85, 78, 68, 58, 65, 66, 13, 10]), NotReady]\<rparr>"
      "[]" empty_world]
  by (simp add: opened_def sample_env_def make_key_def into_bytes_def of_char_def search_key_def)

text \<open>C22. A successful launch: the host's entry, and only it, becomes \<open>Running\<close> with a fresh kill
  channel; a monitor for the new process listens on that channel; the client gets a first
  \<open>Ok\<close>; and the marker the session will look for is the one on the command line of SSH.\<close>

theorem open_launches_tunnel:
  assumes "rx_answers env = Ready (Some (CM_Open params)) # as" "table_ok (children w)"
    and "\<forall>ch. children_get (children w) (op_host params) \<noteq> Some (Running ch)"
    and "fst (async_pty_open (libc_k env) (nonblock_after env) (pty_open env) ::
      (io_error + int) \<times> byte list syscall list) = Inr fd"
    and "spawn_pty_async (cfmakeraw env) fd (pty_spawn env) = Return (Inr child, calls)"
    and "cl_start env = SendReady"
  shows "\<exists>key w'. poll_awaiting_command env cm tx w =
      Return (Goto (CommunicatingForOpen (opened cm tx key)), w') \<and>
    children_get (children w') = (children_get (children w))(op_host params \<mapsto> Running (next_chan w)) \<and>
    tasks w' = tasks w @ [MonitorTask (AwaitingChildEvent (op_host params) child (next_chan w))] \<and>
    launched w' = launched w @ [ssh_command (op_host params) key] \<and>
    sent w' = sent w @ [(tx, SM_Ok)]"
proof -
  let ?key = "make_key (b64_encode env) (rng_bytes env)"
  let ?w' = "take_message tx SM_Ok (insert_child (op_host params) (Running (next_chan w))
      (spawn (MonitorTask (AwaitingChildEvent (op_host params) child (next_chan w)))
        ((log_items (LogSpawn (op_host params)) w)\<lparr>next_chan := next_chan w + 1,
          launched := launched w @ [ssh_command (op_host params) ?key]\<rparr>)))"
  have "poll_awaiting_command env cm tx w =
      Return (Goto (CommunicatingForOpen (opened cm tx ?key)), ?w')"
    using assms(1,3-)
    by (cases "children_get (children w) (op_host params)")
      (auto simp: poll_awaiting_command_def process_open_command_def open_inner_def opened_def
        Let_def split: tunnel_state.split)
  moreover have "children_get (children ?w') =
      (children_get (children w))(op_host params \<mapsto> Running (next_chan w))"
    using table.get_ins [OF assms(2)] by (simp add: spawn_def log_items_def)
  ultimately show ?thesis
    by (intro exI [of _ ?key] exI [of _ ?w']) (simp add: spawn_def log_items_def)
qed

theorem open_launches_tunnel_witness:
  "\<exists>key w'. poll_awaiting_command
       (sample_env\<lparr>rx_answers := [Ready (Some (CM_Open \<lparr>op_host = ''h''\<rparr>))]\<rparr>)
       \<lparr>exit_on_close = False\<rparr> 0 (empty_world\<lparr>children := [(''h'', Exited None)]\<rparr>) =
       Return (Goto (CommunicatingForOpen (opened \<lparr>exit_on_close = False\<rparr> 0 key)), w') \<and>
     tasks w' = [MonitorTask (AwaitingChildEvent ''h'' (child_new 42) 0)]"
proof -
  let ?env = "sample_env\<lparr>rx_answers := [Ready (Some (CM_Open \<lparr>op_host = ''h''\<rparr>))]\<rparr>"
  let ?w = "empty_world\<lparr>children := [(''h'', Exited None)]\<rparr>"
  have "spawn_pty_async (cfmakeraw ?env) 5 (pty_spawn ?env) =
      Return (Inr (child_new 42), [Dup2 7 0, Dup2 8 1, Dup2 6 2, Close_fd 5, Setsid, Ioctl_sctty 0])"
    by (simp add: sample_env_def spawn_pty_async_def spawn_pty_async_full_def pre_exec_def
        open_sync_pty_slave_def read_ptsname_def cstr_from_ptr_def std_spawn_def attach_streams_def)
  with open_launches_tunnel [of ?env "\<lparr>op_host = ''h''\<rparr>" "[]" ?w 5 "child_new 42"]
  show ?thesis
    by (fastforce simp: sample_env_def empty_world_def table_ok_def children_get_def
        async_pty_open_def)
qed

section \<open>The other commands\<close>

text \<open>Closing a running tunnel: the kill message goes out on the very channel stored in the
  host's entry, that entry and no other leaves the table, and the reply is \<open>Ok\<close>.\<close>

theorem close_running_tunnel:
  assumes "rx_answers env = Ready (Some (CM_Close params)) # as" "table_ok (children w)"
    and "children_get (children w) (cp_host params) = Some (Running ch)" "kill_send env = Inr ()"
  shows "\<exists>w'. poll_awaiting_command env cm tx w = Return (Goto (FinalizingTxn cm tx SM_Ok), w') \<and>
    children_get (children w') = (children_get (children w))(cp_host params := None) \<and>
    kill_sent w' = ch # kill_sent w \<and> tasks w' = tasks w \<and> sent w' = sent w"
  using assms table.get_del [OF assms(2), of "cp_host params"]
  by (simp add: poll_awaiting_command_def process_close_command_def)

theorem close_running_tunnel_witness:
  "\<exists>w'. poll_awaiting_command
       (sample_env\<lparr>rx_answers := [Ready (Some (CM_Close \<lparr>cp_host = ''h''\<rparr>))]\<rparr>)
       \<lparr>exit_on_close = False\<rparr> 0 (empty_world\<lparr>children := [(''g'', Exited None), (''h'', Running 3)]\<rparr>) =
       Return (Goto (FinalizingTxn \<lparr>exit_on_close = False\<rparr> 0 SM_Ok), w') \<and> kill_sent w' = [3]"
proof -
  let ?env = "sample_env\<lparr>rx_answers := [Ready (Some (CM_Close \<lparr>cp_host = ''h''\<rparr>))]\<rparr>"
  let ?w = "empty_world\<lparr>children := [(''g'', Exited None), (''h'', Running 3)]\<rparr>"
  have "\<exists>w'. poll_awaiting_command ?env \<lparr>exit_on_close = False\<rparr> 0 ?w =
      Return (Goto (FinalizingTxn \<lparr>exit_on_close = False\<rparr> 0 SM_Ok), w') \<and>
    children_get (children w') = (children_get (children ?w))(cp_host \<lparr>cp_host = ''h''\<rparr> := None) \<and>
    kill_sent w' = 3 # kill_sent ?w \<and> tasks w' = tasks ?w \<and> sent w' = sent ?w"
    by (rule close_running_tunnel [where as = "[]"])
      (simp_all add: table_ok_def children_get_def sample_env_def)
  then show ?thesis by (auto simp: empty_world_def)
qed

text \<open>Closing a tunnel that is not running is answered \<open>TunnelNotOpen\<close> and kills nothing, but
  it does change the table: the record of a tunnel that has exited is erased, so that a later
  status report no longer lists it.\<close>

theorem close_forgets_exited_tunnel:
  assumes "rx_answers env = Ready (Some (CM_Close params)) # as" "table_ok (children w)"
    and "\<forall>ch. children_get (children w) (cp_host params) \<noteq> Some (Running ch)"
  shows "\<exists>w'. poll_awaiting_command env cm tx w =
      Return (Goto (FinalizingTxn cm tx SM_TunnelNotOpen), w') \<and>
    children_get (children w') = (children_get (children w))(cp_host params := None) \<and>
    kill_sent w' = kill_sent w \<and> tasks w' = tasks w \<and> sent w' = sent w"
  using assms table.get_del [OF assms(2), of "cp_host params"]
  by (cases "children_get (children w) (cp_host params)";
      cases "the (children_get (children w) (cp_host params))")
    (simp_all add: poll_awaiting_command_def process_close_command_def)

theorem close_forgets_exited_tunnel_witness:
  "\<exists>w'. poll_awaiting_command
       (sample_env\<lparr>rx_answers := [Ready (Some (CM_Close \<lparr>cp_host = ''h''\<rparr>))]\<rparr>)
       \<lparr>exit_on_close = False\<rparr> 0 (empty_world\<lparr>children := [(''h'', Exited None)]\<rparr>) =
       Return (Goto (FinalizingTxn \<lparr>exit_on_close = False\<rparr> 0 SM_TunnelNotOpen), w') \<and>
     children_get (children w') ''h'' = None"
proof -
  let ?env = "sample_env\<lparr>rx_answers := [Ready (Some (CM_Close \<lparr>cp_host = ''h''\<rparr>))]\<rparr>"
  let ?w = "empty_world\<lparr>children := [(''h'', Exited None)]\<rparr>"
  have "\<exists>w'. poll_awaiting_command ?env \<lparr>exit_on_close = False\<rparr> 0 ?w =
      Return (Goto (FinalizingTxn \<lparr>exit_on_close = False\<rparr> 0 SM_TunnelNotOpen), w') \<and>
    children_get (children w') = (children_get (children ?w))(cp_host \<lparr>cp_host = ''h''\<rparr> := None) \<and>
    kill_sent w' = kill_sent ?w \<and> tasks w' = tasks ?w \<and> sent w' = sent ?w"
    by (rule close_forgets_exited_tunnel [where as = "[]"])
      (simp_all add: table_ok_def children_get_def)
  then show ?thesis by auto
qed

text \<open>C23. A status report lists every host of the table exactly once, with \<open>Open\<close> for a running
  tunnel, \<open>Closed\<close> for one that was killed on request and \<open>Died\<close> for any other exit; it
  changes nothing.\<close>

theorem status_report_is_table:
  assumes "rx_answers env = Ready (Some CM_QueryStatus) # as" "table_ok (children w)"
  shows "\<exists>info. poll_awaiting_command env cm tx w =
      Return (Goto (FinalizingTxn cm tx (SM_StatusResponse info)), w) \<and>
    distinct (map ti_host (tunnels info)) \<and>
    (\<forall>host s. \<lparr>ti_host = host, ti_state = s\<rparr> \<in> set (tunnels info) \<longleftrightarrow>
       (\<exists>t. children_get (children w) host = Some t \<and>
         s = (case t of Running _ \<Rightarrow> TS_Open | Exited None \<Rightarrow> TS_Closed | Exited (Some _) \<Rightarrow> TS_Died)))"
proof -
  let ?ts = "map (\<lambda>(host, t). \<lparr>ti_host = host, ti_state = status_of_tunnel t\<rparr>) (children w)"
  have poll: "poll_awaiting_command env cm tx w =
      Return (Goto (FinalizingTxn cm tx (SM_StatusResponse \<lparr>tunnels = ?ts\<rparr>)), w)"
    by (simp add: poll_awaiting_command_def process_status_query_def assms(1))
  have "map ti_host ?ts = map fst (children w)" by (induction "children w") auto
  with assms(2) have hosts: "distinct (map ti_host (tunnels \<lparr>tunnels = ?ts\<rparr>))"
    by (simp only: status_information.select_convs table_ok_def)
  have "\<lparr>ti_host = host, ti_state = s\<rparr> \<in> set (tunnels \<lparr>tunnels = ?ts\<rparr>) \<longleftrightarrow>
      (\<exists>t. children_get (children w) host = Some t \<and> s = status_of_tunnel t)" for host s
    unfolding table.iter_iff [OF assms(2), symmetric] by force
  with poll hosts show ?thesis unfolding status_of_tunnel_def by blast
qed

theorem status_report_is_table_witness:
  "\<exists>info. poll_awaiting_command (sample_env\<lparr>rx_answers := [Ready (Some CM_QueryStatus)]\<rparr>)
       \<lparr>exit_on_close = False\<rparr> 0 (empty_world\<lparr>children := [(''g'', Exited None), (''h'', Running 3)]\<rparr>) =
       Return (Goto (FinalizingTxn \<lparr>exit_on_close = False\<rparr> 0 (SM_StatusResponse info)),
         empty_world\<lparr>children := [(''g'', Exited None), (''h'', Running 3)]\<rparr>) \<and>
     \<lparr>ti_host = ''h'', ti_state = TS_Open\<rparr> \<in> set (tunnels info)"
  using status_report_is_table [of "sample_env\<lparr>rx_answers := [Ready (Some CM_QueryStatus)]\<rparr>" "[]"
      "empty_world\<lparr>children := [(''g'', Exited None), (''h'', Running 3)]\<rparr>" "\<lparr>exit_on_close = False\<rparr>" 0]
  by (fastforce simp: table_ok_def children_get_def)

text \<open>A reply whose send is not ready at its first poll is lost with the session: the state has
  been taken before the send was polled, so the machine has none left and no error is reported,
  whether or not the sink has taken the message. The error replies of \<open>Aborting\<close> survive the
  same situations, and give their message once only.\<close>

theorem unready_reply_loses_session:
  assumes "cl_start env = SendNotReady \<or> cl_start env = SendReady \<and> cl_flush env = NotReady"
  shows "\<exists>w'. poll_client env (FinalizingTxn cm tx msg) w = Return (Lost, w') \<and>
    (\<exists>left. poll_client env (Aborting cm tx (Some msg)) w = Return (Stay (Aborting cm tx left), w') \<and>
      (left = Some msg \<and> sent w' = sent w \<or> left = None \<and> sent w' = sent w @ [(tx, msg)]))"
  using assms by (auto simp: poll_finalizing_txn_def poll_aborting_def)

theorem unready_reply_loses_session_witness:
  "\<exists>w'. poll_client (sample_env\<lparr>cl_flush := NotReady\<rparr>)
     (FinalizingTxn \<lparr>exit_on_close = False\<rparr> 0 SM_Ok) empty_world = Return (Lost, w')"
proof -
  have "cl_start (sample_env\<lparr>cl_flush := NotReady\<rparr>) = SendReady" by (simp add: sample_env_def)
  with unready_reply_loses_session [of "sample_env\<lparr>cl_flush := NotReady\<rparr>"
      "\<lparr>exit_on_close = False\<rparr>" 0 SM_Ok empty_world] show ?thesis by auto
qed

end
