(* ===== verification/Replies.thy ===== *)
theory Replies
  imports SessionFacts Samples
begin

text \<open>
  The conversation the daemon promises its clients: an abstract machine over what is sent on
  a connection, which every poll of a session implements.
\<close>

section \<open>The abstract conversation\<close>

datatype talk =
    Idle
  | Dialogue
  | Replying server_message
  | Ending "server_message option"
  | Closed

text \<open>What a session that waits for a command hears in one poll.\<close>

datatype cue = Silence | Heard client_message | Gone

fun cue_of :: "(client_message option, string) poll list \<Rightarrow> cue" where
  "cue_of (Ready (Some m) # as) = Heard m"
| "cue_of (Ready None # as) = Gone"
| "cue_of (PollErr e # as) = Gone"
| "cue_of _ = Silence"

definition runs :: "tunnel_table \<Rightarrow> string \<Rightarrow> bool" where
  "runs tab host \<longleftrightarrow> (\<exists>ch. children_get tab host = Some (Running ch))"

text \<open>
  The reply to a command, given the table of tunnels. An open is answered in this way only if
  the tunnel is open already; the final commands and bytes from the user are not answered.
\<close>

fun right_reply :: "tunnel_table \<Rightarrow> client_message \<Rightarrow> server_message \<Rightarrow> bool" where
  "right_reply tab (CM_Open p) r \<longleftrightarrow> runs tab (op_host p) \<and> r = SM_TunnelAlreadyOpen"
| "right_reply tab (CM_Close p) r \<longleftrightarrow> r = (if runs tab (cp_host p) then SM_Ok else SM_TunnelNotOpen)"
| "right_reply tab CM_QueryStatus r \<longleftrightarrow>
     (\<exists>info. r = SM_StatusResponse info \<and>
        set (tunnels info) = (\<lambda>(h, t). \<lparr>ti_host = h, ti_state = status_of_tunnel t\<rparr>) ` set tab)"
| "right_reply tab CM_Exit r \<longleftrightarrow> r = SM_Ok"
| "right_reply tab CM_Goodbye r \<longleftrightarrow> False"
| "right_reply tab (CM_UserData d) r \<longleftrightarrow> False"

text \<open>The commands that the daemon may fail to carry out.\<close>

fun may_fail :: "tunnel_table \<Rightarrow> client_message \<Rightarrow> bool" where
  "may_fail tab (CM_Open p) \<longleftrightarrow> \<not> runs tab (op_host p)"
| "may_fail tab (CM_Close p) \<longleftrightarrow> runs tab (cp_host p)"
| "may_fail tab m \<longleftrightarrow> False"

fun ends_session :: "cue \<Rightarrow> bool" where
  "ends_session Gone \<longleftrightarrow> True"
| "ends_session (Heard CM_Goodbye) \<longleftrightarrow> True"
| "ends_session (Heard (CM_UserData d)) \<longleftrightarrow> True"
| "ends_session q \<longleftrightarrow> False"

text \<open>
  \<open>speaks tab q s ms t\<close>: the table is \<open>tab\<close> and the session has heard \<open>q\<close>; from \<open>s\<close>, the daemon
  sends \<open>ms\<close> and is then in \<open>t\<close>. A command that has been heard is answered, refused, or ends the
  session; it is never passed over.
\<close>

inductive speaks :: "tunnel_table \<Rightarrow> cue \<Rightarrow> talk \<Rightarrow> server_message list \<Rightarrow> talk \<Rightarrow> bool"
  for tab q where
  silent: "q = Silence \<Longrightarrow> speaks tab q Idle [] Idle"
| answer: "q = Heard m \<Longrightarrow> right_reply tab m r \<Longrightarrow> speaks tab q Idle [] (Replying r)"
| refuse: "q = Heard m \<Longrightarrow> may_fail tab m \<Longrightarrow> speaks tab q Idle [] (Ending (Some (SM_Error e)))"
| start: "q = Heard (CM_Open p) \<Longrightarrow> \<not> runs tab (op_host p) \<Longrightarrow> speaks tab q Idle [SM_Ok] Dialogue"
| leave: "ends_session q \<Longrightarrow> speaks tab q Idle [] Closed"
| no_data: "speaks tab q Dialogue [] Dialogue"
| data: "d \<noteq> [] \<Longrightarrow> speaks tab q Dialogue [SM_SshData d] Dialogue"
| hang_up: "speaks tab q Dialogue [] Closed"
| data_last: "d \<noteq> [] \<Longrightarrow> speaks tab q Dialogue [SM_SshData d] Closed"
| success: "speaks tab q Dialogue [] (Replying SM_Ok)"
| failure: "speaks tab q Dialogue [] (Ending (Some (SM_Error e)))"
| replied: "speaks tab q (Replying r) [r] Idle"
| reply_lost: "ms = [] \<or> ms = [r] \<Longrightarrow> speaks tab q (Replying r) ms Closed"
| pending: "speaks tab q (Ending msg) [] (Ending msg)"
| given: "speaks tab q (Ending (Some r)) [r] (Ending None)"
| ended: "ms = [] \<or> (\<exists>r. msg = Some r \<and> ms = [r]) \<Longrightarrow> speaks tab q (Ending msg) ms Closed"

fun talk_of :: "client \<Rightarrow> talk" where
  "talk_of (AwaitingCommand cm tx) = Idle"
| "talk_of (CommunicatingForOpen c) = Dialogue"
| "talk_of (FinalizingTxn cm tx msg) = Replying msg"
| "talk_of (Aborting cm tx msg) = Ending msg"
| "talk_of (Finished cm tx) = Closed"
| "talk_of (Failed e) = Closed"

fun talk_after :: "(client, session_error) machine \<Rightarrow> talk" where
  "talk_after (Stay cl) = talk_of cl"
| "talk_after (Goto cl) = talk_of cl"
| "talk_after Lost = Closed"
| "talk_after (Raise e) = Closed"

fun conn_of :: "client \<Rightarrow> conn option" where
  "conn_of (AwaitingCommand cm tx) = Some tx"
| "conn_of (CommunicatingForOpen c) = Some (cl_tx c)"
| "conn_of (FinalizingTxn cm tx msg) = Some tx"
| "conn_of (Aborting cm tx msg) = Some tx"
| "conn_of (Finished cm tx) = Some tx"
| "conn_of (Failed e) = None"

fun client_after :: "(client, session_error) machine \<Rightarrow> client option" where
  "client_after (Stay cl) = Some cl"
| "client_after (Goto cl) = Some cl"
| "client_after _ = None"

text \<open>The message a session goes on to send.\<close>

fun pending_reply :: "(client, session_error) machine \<Rightarrow> server_message list" where
  "pending_reply (Goto (FinalizingTxn cm tx msg)) = [msg]"
| "pending_reply (Goto (Aborting cm tx (Some msg))) = [msg]"
| "pending_reply _ = []"

section \<open>The handlers implement it\<close>

text \<open>
  The effect of a poll on the connections: it sends \<open>ms\<close> on its own, speaking as the abstract
  machine allows, and stays on that connection.
\<close>

definition speaks_on ::
  "cue \<Rightarrow> conn \<Rightarrow> talk \<Rightarrow> world \<Rightarrow> (client, session_error) machine \<Rightarrow> world \<Rightarrow> bool" where
  "speaks_on q tx s w res w' \<longleftrightarrow>
     (\<exists>ms. sent w' = sent w @ map (Pair tx) ms \<and> speaks (children w) q s ms (talk_after res)) \<and>
     (\<forall>cl. client_after res = Some cl \<longrightarrow> conn_of cl = Some tx)"

lemma speaks_onI:
  "sent w' = sent w @ map (Pair tx) ms \<Longrightarrow> speaks (children w) q s ms (talk_after res) \<Longrightarrow>
   (\<And>cl. client_after res = Some cl \<Longrightarrow> conn_of cl = Some tx) \<Longrightarrow> speaks_on q tx s w res w'"
  by (auto simp: speaks_on_def)

lemma open_inner_keeps:
  "open_inner env params key w = Return (r, w') \<Longrightarrow> sent w' = sent w"
  by (auto elim!: open_inner_cases simp: spawn_def insert_child_def)

lemma process_open_speaks:
  assumes "process_open_command env cm params tx w = Return (res, w')"
  shows "speaks_on (Heard (CM_Open params)) tx Idle w res w'"
  using assms
proof (cases rule: process_open_cases)
  case already
  then show ?thesis by (intro speaks_onI [where ms = "[]"]) (auto simp: runs_def intro: speaks.answer)
next
  case (failed e)
  then show ?thesis by (intro speaks_onI [where ms = "[]"]) (auto simp: runs_def intro: speaks.refuse)
next
  case (launched w2 fd)
  with open_inner_keeps [OF launched(1)] show ?thesis
    by (intro speaks_onI [where ms = "[SM_Ok]"]) (auto simp: runs_def intro: speaks.start)
qed

lemma process_close_speaks:
  assumes "process_close_command env cm params tx w = Return (res, w')"
  shows "speaks_on (Heard (CM_Close params)) tx Idle w res w'"
proof (cases "children_get (children w) (cp_host params)")
  case None
  with assms show ?thesis
    by (intro speaks_onI [where ms = "[]"])
      (auto simp: process_close_command_def Let_def runs_def intro!: speaks.answer)
next
  case (Some t)
  show ?thesis
  proof (cases t)
    case (Running ch)
    with Some assms show ?thesis
      by (intro speaks_onI [where ms = "[]"])
        (auto simp: process_close_command_def Let_def abort_client_def runs_def split: sum.split_asm
          intro!: speaks.answer speaks.refuse)
  next
    case (Exited st)
    with Some assms show ?thesis
      by (intro speaks_onI [where ms = "[]"])
        (auto simp: process_close_command_def Let_def runs_def intro!: speaks.answer)
  qed
qed

lemma awaiting_speaks:
  assumes "poll_awaiting_command env cm tx w = Return (res, w')"
  shows "speaks_on (cue_of (rx_answers env)) tx Idle w res w'"
proof -
  from assms obtain a as where a: "rx_answers env = a # as"
    by (auto simp: poll_awaiting_command_def split: list.split_asm)
  show ?thesis
  proof (cases "(\<exists>p. a = Ready (Some (CM_Open p))) \<or> (\<exists>p. a = Ready (Some (CM_Close p)))")
    case True
    with assms a show ?thesis
      by (auto simp: poll_awaiting_command_def dest: process_open_speaks process_close_speaks)
  next
    case False
    with assms a show ?thesis
      by (intro speaks_onI [where ms = "[]"])
        (auto simp: poll_awaiting_command_def process_status_query_def
          split: poll.split_asm option.split_asm client_message.split_asm
          intro!: speaks.silent speaks.leave speaks.answer)
  qed
qed

lemma flush_cl_buf_conn:
  "flush_cl_buf a (c, w) = Inr (c', w') \<Longrightarrow> cl_tx c' = cl_tx c"
  by (auto elim!: flush_cl_buf_cases)

lemma communicating_speaks:
  assumes "poll_communicating_for_open env c w = Return (res, w')"
  shows "speaks_on q (cl_tx c) Dialogue w res w'"
  using assms
proof (cases rule: poll_communicating_cases)
  case (failed_reading e)
  then show ?thesis by (intro speaks_onI [where ms = "[]"]) (auto intro: speaks.hang_up)
next
  case (aborted msg)
  then show ?thesis by (intro speaks_onI [where ms = "[]"]) (auto intro: speaks.failure)
next
  case (failed_sending e st)
  from failed_sending(3) show ?thesis
  proof
    assume "w' = w"
    with failed_sending(2) show ?thesis
      by (intro speaks_onI [where ms = "[]"]) (auto intro: speaks.hang_up)
  next
    assume "\<exists>d. d \<noteq> [] \<and> w' = take_message (cl_tx c) (SM_SshData d) w"
    then obtain d where "d \<noteq> []" "w' = take_message (cl_tx c) (SM_SshData d) w" by blast
    with failed_sending(2) show ?thesis
      by (intro speaks_onI [where ms = "[SM_SshData d]"]) (auto intro: speaks.data_last)
  qed
next
  case (waiting st c3 c4)
  have tx: "cl_tx c4 = cl_tx c"
    using waiting(2,3) by (auto elim!: flush_cl_buf_cases flush_ssh_buf_cases simp: after_reading_def)
  from waiting(2) show ?thesis
  proof (cases rule: flush_cl_buf_cases)
    case kept
    with waiting(4) tx show ?thesis
      by (intro speaks_onI [where ms = "[]"]) (auto intro: speaks.no_data)
  next
    case (taken n)
    with waiting(4) tx show ?thesis
      by (intro speaks_onI [where ms = "[SM_SshData (cl_buf (after_reading env c st))]"])
        (auto intro: speaks.data simp: after_reading_def)
  qed
next
  case found
  then show ?thesis by (intro speaks_onI [where ms = "[]"]) (auto intro: speaks.success)
qed

text \<open>One message that a reply has given to the sink, or none.\<close>

lemma speaks_onI_given:
  "w' = w \<or> w' = take_message tx r w \<Longrightarrow>
   (\<And>ms. ms = [] \<or> ms = [r] \<Longrightarrow> speaks (children w) q s ms (talk_after res)) \<Longrightarrow>
   (\<And>cl. client_after res = Some cl \<Longrightarrow> conn_of cl = Some tx) \<Longrightarrow> speaks_on q tx s w res w'"
  by (elim disjE; rule speaks_onI [where ms = "[]"] speaks_onI [where ms = "[r]"]) simp_all

lemma finalizing_speaks:
  assumes "poll_finalizing_txn env cm tx msg w = Return (res, w')"
  shows "speaks_on q tx (Replying msg) w res w'"
  using assms
proof (cases rule: poll_finalizing_cases)
  case replied
  then show ?thesis by (intro speaks_onI [where ms = "[msg]"]) (auto intro: speaks.replied)
next
  case over
  then show ?thesis by (intro speaks_onI_given [of w' w tx msg]) (auto intro: speaks.reply_lost)
qed

lemma aborting_speaks:
  assumes "poll_aborting env cm tx msg w = Return (res, w')"
  shows "speaks_on q tx (Ending msg) w res w'"
  using assms
proof (cases rule: poll_aborting_cases)
  case waiting
  then show ?thesis by (intro speaks_onI [where ms = "[]"]) (auto intro: speaks.pending)
next
  case (given m)
  then show ?thesis by (intro speaks_onI [where ms = "[m]"]) (auto intro: speaks.given)
next
  case (over e)
  from over(2) show ?thesis
  proof
    assume "w' = w"
    with over(1) show ?thesis by (intro speaks_onI [where ms = "[]"]) (auto intro: speaks.ended)
  next
    assume "\<exists>m. msg = Some m \<and> w' = take_message tx m w"
    then obtain m where "msg = Some m" "w' = take_message tx m w" by blast
    with over(1) show ?thesis by (intro speaks_onI [where ms = "[m]"]) (auto intro: speaks.ended)
  qed
qed

lemma poll_client_speaks:
  assumes "poll_client env cl w = Return (res, w')"
  shows "\<exists>tx. conn_of cl = Some tx \<and> speaks_on (cue_of (rx_answers env)) tx (talk_of cl) w res w'"
  using assms
  by (cases cl)
    (auto dest: awaiting_speaks communicating_speaks finalizing_speaks aborting_speaks)

section \<open>Properties\<close>

text \<open>C6. Every poll of a session implements the abstract conversation: whatever the environment
  answers, the messages it puts on connections go to its own client only, in order, and are
  ones the conversation allows at this point. A session that waits answers the very command it
  has heard, as the table says, or refuses an open or a close with an error, or starts a
  dialogue with \<open>Ok\<close> after an open of a tunnel that does not run; it never passes a command over.
  Inside the dialogue it sends SSH output, and ends it with one \<open>Ok\<close> or error; a reply is given
  to the connection at most once.\<close>

theorem session_refines_conversation:
  assumes "poll_client env cl w = Return (res, w')"
  shows "\<exists>tx ms. conn_of cl = Some tx \<and> sent w' = sent w @ map (Pair tx) ms \<and>
    speaks (children w) (cue_of (rx_answers env)) (talk_of cl) ms (talk_after res) \<and>
    (\<forall>cl'. client_after res = Some cl' \<longrightarrow> conn_of cl' = Some tx)"
  using poll_client_speaks [OF assms] by (auto simp: speaks_on_def)

theorem session_refines_conversation_witness:
  "\<exists>tx ms. sent empty_world = sent empty_world @ map (Pair tx) ms \<and>
     speaks (children empty_world) (Heard (CM_Close \<lparr>cp_host = ''h''\<rparr>)) Idle ms (Replying SM_TunnelNotOpen)"
proof -
  have "poll_client (sample_env\<lparr>rx_answers := [Ready (Some (CM_Close \<lparr>cp_host = ''h''\<rparr>))]\<rparr>)
      (AwaitingCommand \<lparr>exit_on_close = False\<rparr> 4) empty_world =
    Return (Goto (FinalizingTxn \<lparr>exit_on_close = False\<rparr> 4 SM_TunnelNotOpen),
      log_items LogNoSuchTunnel (remove_child ''h'' (log_items (LogClose ''h'') empty_world)))"
    by (simp add: poll_awaiting_command_def process_close_command_def empty_world_def children_get_def)
  from session_refines_conversation [OF this] show ?thesis by auto
qed

end
