(* ===== verification/ClientApi.thy ===== *)
theory ClientApi
  imports Protocol Relay
begin

text \<open>
  The client's side of the protocol (\<open>protocol/src/client.rs\<close>): establishing a connection, the
  requests with one reply, and the state machine \<open>OpenWorkflow\<close> of an open request.
\<close>

section \<open>Establishing a connection\<close>

datatype establish_call =
    Try_connect string
  | Run_launcher string "string list"
  | Sleep_ms nat
  | Set_linger int int

text \<open>
  The answers of the environment: \<open>launch_status\<close> is the result of running the launcher, with
  whether its exit status means success.
\<close>

record establish_answers =
  ea_core :: "io_error + unit"
  ea_home :: "string option"
  ea_connect :: "io_error + unit"
  ea_exe :: "io_error + string"
  ea_status :: "io_error + bool"
  ea_reconnect :: "io_error + unit"

text \<open>
  \<open>Some ()\<close> is a connection. The text of an error is that of its context. \<open>setsockopt\<close> sets \<open>l_onoff\<close> and
  \<open>l_linger\<close> on a new connection; its result is ignored.
\<close>

definition set_linger :: establish_call where
  "set_linger = Set_linger 1 2"

definition establish_inner ::
  "bool \<Rightarrow> establish_answers \<Rightarrow> (string + unit option) \<times> establish_call list" where
  "establish_inner autolaunch a =
     (case ea_core a of
        Inl e \<Rightarrow> (Inl ''couldn't create IO core?'', [])
      | Inr _ \<Rightarrow>
          (case get_socket_path (ea_home a) of
             Inl e \<Rightarrow> (Inl ''couldn't get path to talk to daemon'', [])
           | Inr p \<Rightarrow>
               let s1 = [Try_connect p] in
               (case ea_connect a of
                  Inr c \<Rightarrow> (Inr (Some ()), s1 @ [set_linger])
                | Inl e \<Rightarrow>
                    if \<not> autolaunch then (Inr None, s1)
                    else
                      (case ea_exe a of
                         Inl e \<Rightarrow> (Inl ''couldn't get current executable path'', s1)
                       | Inr exe \<Rightarrow>
                           let s2 = s1 @ [Run_launcher exe [''daemon'']] in
                           (case ea_status a of
                              Inl e \<Rightarrow> (Inl ''daemon launcher reported failure'', s2)
                            | Inr success \<Rightarrow>
                                let s3 = s2 @ [Sleep_ms 300] in
                                if success then
                                  (case ea_reconnect a of
                                     Inl e \<Rightarrow>
                                       (Inl ''failed to connect to daemon even after launching it'',
                                        s3 @ [Try_connect p])
                                   | Inr c \<Rightarrow> (Inr (Some ()), s3 @ [Try_connect p, set_linger]))
                                else (Inl ''failed to launch background daemon'', s3))))))"

definition try_establish :: "establish_answers \<Rightarrow> (string + unit option) \<times> establish_call list" where
  "try_establish a = establish_inner False a"

text \<open>\<open>unwrap\<close> of the optional connection panics on \<open>None\<close>.\<close>

definition establish :: "establish_answers \<Rightarrow> (string + unit) run \<times> establish_call list" where
  "establish a =
     (case establish_inner True a of
        (Inl e, calls) \<Rightarrow> (Return (Inl e), calls)
      | (Inr (Some c), calls) \<Rightarrow> (Return (Inr c), calls)
      | (Inr None, calls) \<Rightarrow> (Panic, calls))"

section \<open>Requests with one reply\<close>

text \<open>\<open>UnexpectedReply\<close> stands for the texts that show an unexpected message.\<close>

datatype client_error = ClientError string | UnexpectedReply server_message

fun decode_status :: "server_message option \<Rightarrow> client_error + status_information" where
  "decode_status (Some (SM_StatusResponse info)) = Inr info"
| "decode_status (Some (SM_Error msg)) = Inl (ClientError msg)"
| "decode_status (Some other) = Inl (UnexpectedReply other)"
| "decode_status None = Inl (ClientError ''unexpected disconnection from server'')"

fun decode_close :: "server_message option \<Rightarrow> client_error + close_result" where
  "decode_close (Some SM_Ok) = Inr CloseSuccess"
| "decode_close (Some SM_TunnelNotOpen) = Inr CloseNotOpen"
| "decode_close (Some (SM_Error msg)) = Inl (ClientError msg)"
| "decode_close (Some other) = Inl (UnexpectedReply other)"
| "decode_close None = Inl (ClientError ''unexpected disconnection from server'')"

fun decode_exit :: "server_message option \<Rightarrow> client_error + unit" where
  "decode_exit (Some SM_Ok) = Inr ()"
| "decode_exit (Some (SM_Error msg)) = Inl (ClientError msg)"
| "decode_exit (Some other) = Inl (UnexpectedReply other)"
| "decode_exit None = Inl (ClientError ''unexpected disconnection from server'')"

text \<open>
  The three requests share their shape: send the message, then wait for one reply. \<open>sent\<close> and
  \<open>reply\<close> are the results of the two; the list is what was sent.
\<close>

definition ask ::
  "string \<Rightarrow> (server_message option \<Rightarrow> client_error + 'r) \<Rightarrow> string + unit \<Rightarrow>
   string + server_message option \<Rightarrow> client_error + 'r" where
  "ask what decode sent reply =
     (case sent of
        Inl e \<Rightarrow> Inl (ClientError (''error sending '' @ what @ '' message to daemon: '' @ e))
      | Inr _ \<Rightarrow>
          (case reply of
             Inl e \<Rightarrow> Inl (ClientError (''error receiving daemon reply: '' @ e))
           | Inr msg \<Rightarrow> decode msg))"

definition query_status ::
  "string + unit \<Rightarrow> string + server_message option \<Rightarrow> client_message \<times> (client_error + status_information)"
where
  "query_status sent reply = (CM_QueryStatus, ask ''query-status'' decode_status sent reply)"

definition send_close ::
  "close_parameters \<Rightarrow> string + unit \<Rightarrow> string + server_message option \<Rightarrow>
   client_message \<times> (client_error + close_result)" where
  "send_close params sent reply = (CM_Close params, ask ''close'' decode_close sent reply)"

definition send_exit ::
  "string + unit \<Rightarrow> string + server_message option \<Rightarrow> client_message \<times> (client_error + unit)" where
  "send_exit sent reply = (CM_Exit, ask ''exit'' decode_exit sent reply)"

definition connection_close :: "string + unit \<Rightarrow> client_message \<times> (string + unit)" where
  "connection_close sent = (CM_Goodbye, sent)"

section \<open>The open workflow\<close>

text \<open>
  \<open>wf_user_tx\<close> is what the user's sink has taken, \<open>wf_sent\<close> the messages the daemon's sink has.
\<close>

record wf_state =
  wf_user_buf :: "byte list"
  wf_ssh_buf :: "byte list"
  wf_user_tx :: "byte list"
  wf_sent :: "client_message list"

datatype workflow =
    Issue open_parameters
  | FirstAck open_parameters bool
  | Communicating wf_state
  | WFinished open_result
  | WFailed client_error

record wf_env =
  issue_send :: "(unit, string) poll"
  daemon_rx :: "(server_message option, string) poll list"
  user_rx :: "(byte list option, string) poll list"
  user_start :: "string start_send"
  daemon_start :: "string start_send"
  user_flush :: "(unit, string) poll"
  daemon_flush :: "(unit, string) poll"

definition poll_issue :: "wf_env \<Rightarrow> open_parameters \<Rightarrow> (workflow, client_error) machine run" where
  "poll_issue env params =
     (case issue_send env of
        NotReady \<Rightarrow> Return (Stay (Issue params))
      | PollErr e \<Rightarrow> Return (Raise (ClientError e))
      | Ready _ \<Rightarrow> Return (Goto (FirstAck params False)))"

text \<open>The loop over the daemon's messages: an error, a result, or the flag when there are no more.\<close>

fun first_ack_loop ::
  "(server_message option, string) poll list \<Rightarrow> bool \<Rightarrow> (client_error + open_result + bool) run" where
  "first_ack_loop [] saw_ok = Starved"
| "first_ack_loop (NotReady # as) saw_ok = Return (Inr (Inr saw_ok))"
| "first_ack_loop (PollErr e # as) saw_ok = Return (Inl (ClientError e))"
| "first_ack_loop (Ready (Some SM_Ok) # as) saw_ok = first_ack_loop as True"
| "first_ack_loop (Ready (Some (SM_Error text)) # as) saw_ok = Return (Inl (ClientError text))"
| "first_ack_loop (Ready (Some SM_TunnelAlreadyOpen) # as) saw_ok = Return (Inr (Inl OpenAlreadyOpen))"
| "first_ack_loop (Ready (Some other) # as) saw_ok = Return (Inl (UnexpectedReply other))"
| "first_ack_loop (Ready None # as) saw_ok = Return (Inl (ClientError ''connection closed (?)''))"

definition wf_start :: "open_parameters \<Rightarrow> wf_state" where
  "wf_start params = \<lparr>wf_user_buf = [], wf_ssh_buf = [], wf_user_tx = [], wf_sent = [CM_Open params]\<rparr>"

definition poll_first_ack ::
  "wf_env \<Rightarrow> open_parameters \<Rightarrow> bool \<Rightarrow> (workflow, client_error) machine run" where
  "poll_first_ack env params saw_ok =
     run_bind (first_ack_loop (daemon_rx env) saw_ok) (\<lambda>r. Return
       (case r of
          Inl e \<Rightarrow> Raise e
        | Inr (Inl result) \<Rightarrow> Goto (WFinished result)
        | Inr (Inr saw) \<Rightarrow>
            if saw then Goto (Communicating (wf_start params)) else Stay (FirstAck params saw)))"

text \<open>News from the daemon; \<open>True\<close> when it has reported success. An end of input is skipped.\<close>

fun read_daemon ::
  "(server_message option, string) poll list \<Rightarrow> wf_state \<Rightarrow> (client_error + bool \<times> wf_state) run" where
  "read_daemon [] s = Starved"
| "read_daemon (NotReady # as) s = Return (Inr (False, s))"
| "read_daemon (PollErr e # as) s = Return (Inl (ClientError e))"
| "read_daemon (Ready (Some (SM_SshData data)) # as) s =
     read_daemon as (s\<lparr>wf_user_buf := wf_user_buf s @ data\<rparr>)"
| "read_daemon (Ready (Some SM_Ok) # as) s = Return (Inr (True, s))"
| "read_daemon (Ready (Some (SM_Error e)) # as) s = Return (Inl (ClientError e))"
| "read_daemon (Ready (Some other) # as) s = Return (Inl (UnexpectedReply other))"
| "read_daemon (Ready None # as) s = read_daemon as s"

text \<open>New text from the user; an end of input ends the loop.\<close>

fun read_keyboard ::
  "(byte list option, string) poll list \<Rightarrow> wf_state \<Rightarrow> (client_error + wf_state) run" where
  "read_keyboard [] s = Starved"
| "read_keyboard (NotReady # as) s = Return (Inr s)"
| "read_keyboard (PollErr e # as) s = Return (Inl (ClientError e))"
| "read_keyboard (Ready None # as) s = Return (Inr s)"
| "read_keyboard (Ready (Some b) # as) s = read_keyboard as (s\<lparr>wf_ssh_buf := wf_ssh_buf s @ b\<rparr>)"

definition flush_user :: "string start_send \<Rightarrow> wf_state \<Rightarrow> string + wf_state" where
  "flush_user a s =
     (if wf_user_buf s \<noteq> [] then
        (case a of
           SendReady \<Rightarrow> Inr (s\<lparr>wf_user_tx := wf_user_tx s @ wf_user_buf s, wf_user_buf := []\<rparr>)
         | SendNotReady \<Rightarrow> Inr s
         | SendErr e \<Rightarrow> Inl e)
      else Inr s)"

definition flush_daemon :: "string start_send \<Rightarrow> wf_state \<Rightarrow> string + wf_state" where
  "flush_daemon a s =
     (if wf_ssh_buf s \<noteq> [] then
        (case a of
           SendReady \<Rightarrow> Inr (s\<lparr>wf_sent := wf_sent s @ [CM_UserData (wf_ssh_buf s)], wf_ssh_buf := []\<rparr>)
         | SendNotReady \<Rightarrow> Inr s
         | SendErr e \<Rightarrow> Inl e)
      else Inr s)"

definition finish_poll :: "wf_env \<Rightarrow> wf_state \<Rightarrow> (workflow, client_error) machine" where
  "finish_poll env s =
     (case user_flush env of
        PollErr e \<Rightarrow> Raise (ClientError e)
      | NotReady \<Rightarrow> Stay (Communicating s)
      | Ready _ \<Rightarrow>
          (case daemon_flush env of
             PollErr e \<Rightarrow> Raise (ClientError e)
           | _ \<Rightarrow> Stay (Communicating s)))"

definition poll_communicating :: "wf_env \<Rightarrow> wf_state \<Rightarrow> (workflow, client_error) machine run" where
  "poll_communicating env s =
     run_bind (read_daemon (daemon_rx env) s) (\<lambda>r.
       case r of
         Inl e \<Rightarrow> Return (Raise e)
       | Inr (True, s1) \<Rightarrow> Return (Goto (WFinished OpenSuccess))
       | Inr (False, s1) \<Rightarrow>
           run_bind (read_keyboard (user_rx env) s1) (\<lambda>r. Return
             (case r of
                Inl e \<Rightarrow> Raise e
              | Inr s2 \<Rightarrow>
                  (case flush_user (user_start env) s2 of
                     Inl e \<Rightarrow> Raise (ClientError e)
                   | Inr s3 \<Rightarrow>
                       (case flush_daemon (daemon_start env) s3 of
                          Inl e \<Rightarrow> Raise (ClientError e)
                        | Inr s4 \<Rightarrow> finish_poll env s4)))))"

text \<open>The machine; its two final states are not polled.\<close>

fun poll_workflow :: "wf_env \<Rightarrow> workflow \<Rightarrow> (workflow, client_error) machine run" where
  "poll_workflow env (Issue params) = poll_issue env params"
| "poll_workflow env (FirstAck params saw_ok) = poll_first_ack env params saw_ok"
| "poll_workflow env (Communicating s) = poll_communicating env s"
| "poll_workflow env (WFinished result) = Panic"
| "poll_workflow env (WFailed e) = Panic"

text \<open>
  What the daemon's sink has been given when a poll is over, also one that ends the machine. The
  sink takes the user's bytes before the two flushes, whose errors come too late to take them
  back.
\<close>

fun sent_after :: "wf_env \<Rightarrow> workflow \<Rightarrow> client_message list" where
  "sent_after env (Issue params) = (if issue_send env = Ready () then [CM_Open params] else [])"
| "sent_after env (FirstAck params saw_ok) = [CM_Open params]"
| "sent_after env (Communicating s) =
     (case read_daemon (daemon_rx env) s of
        Return (Inr (False, s1)) \<Rightarrow>
          (case read_keyboard (user_rx env) s1 of
             Return (Inr s2) \<Rightarrow>
               (case flush_user (user_start env) s2 of
                  Inr s3 \<Rightarrow>
                    (case flush_daemon (daemon_start env) s3 of Inr s4 \<Rightarrow> wf_sent s4 | Inl _ \<Rightarrow> wf_sent s)
                | Inl _ \<Rightarrow> wf_sent s)
           | _ \<Rightarrow> wf_sent s)
      | _ \<Rightarrow> wf_sent s)"
| "sent_after env _ = []"

text \<open>
  \<open>core.run\<close> polls the machine until it ends, one handler per environment: its result, and the
  messages sent.
\<close>

fun run_workflow ::
  "wf_env list \<Rightarrow> workflow \<Rightarrow> ((client_error + open_result) \<times> client_message list) run" where
  "run_workflow [] st = Starved"
| "run_workflow (env # envs) st =
     run_bind (poll_workflow env st) (\<lambda>m.
       case m of
         Stay st' \<Rightarrow> run_workflow envs st'
       | Goto (WFinished result) \<Rightarrow> Return (Inr result, sent_after env st)
       | Goto (WFailed e) \<Rightarrow> Return (Inl e, sent_after env st)
       | Goto st' \<Rightarrow> run_workflow envs st'
       | Lost \<Rightarrow> Starved
       | Raise e \<Rightarrow> Return (Inl e, sent_after env st))"

definition send_open ::
  "open_parameters \<Rightarrow> wf_env list \<Rightarrow> ((client_error + open_result) \<times> client_message list) run" where
  "send_open params envs = run_workflow envs (Issue params)"

end
