(* ===== verification/ClientProps.thy ===== *)
theory ClientProps
  imports ClientApi
begin

text \<open>
  The properties of the client's side: what the open workflow does with the bytes of the user
  and of SSH, where it goes wrong, and how a connection is established.
\<close>

section \<open>The relays of the client\<close>

fun user_data :: "client_message list \<Rightarrow> byte list" where
  "user_data [] = []"
| "user_data (CM_UserData d # ms) = d @ user_data ms"
| "user_data (m # ms) = user_data ms"

lemma user_data_append [simp]: "user_data (ms @ ns) = user_data ms @ user_data ns"
  by (induction ms rule: user_data.induct) auto

lemma flush_user_cases:
  assumes "flush_user a s = Inr s'"
  obtains (kept) "s' = s"
  | (taken) "a = SendReady" "s' = s\<lparr>wf_user_tx := wf_user_tx s @ wf_user_buf s, wf_user_buf := []\<rparr>"
  using assms by (auto simp: flush_user_def split: if_splits start_send.splits)

lemma flush_daemon_cases:
  assumes "flush_daemon a s = Inr s'"
  obtains (kept) "s' = s"
  | (taken) "a = SendReady" "s' = s\<lparr>wf_sent := wf_sent s @ [CM_UserData (wf_ssh_buf s)], wf_ssh_buf := []\<rparr>"
  using assms by (auto simp: flush_daemon_def split: if_splits start_send.splits)

interpretation to_user: byte_relay
  wf_user_buf wf_user_tx "\<lambda>d s. s\<lparr>wf_user_buf := wf_user_buf s @ d\<rparr>" flush_user
  by unfold_locales (auto elim!: flush_user_cases)

interpretation to_daemon: byte_relay
  wf_ssh_buf "\<lambda>s. user_data (wf_sent s)" "\<lambda>d s. s\<lparr>wf_ssh_buf := wf_ssh_buf s @ d\<rparr>" flush_daemon
  by unfold_locales (auto elim!: flush_daemon_cases)

section \<open>Reading\<close>

fun shown :: "(server_message option, string) poll list \<Rightarrow> byte list" where
  "shown (Ready (Some (SM_SshData d)) # as) = d @ shown as"
| "shown (Ready None # as) = shown as"
| "shown _ = []"

fun keyed :: "(byte list option, string) poll list \<Rightarrow> byte list" where
  "keyed (Ready (Some b) # as) = b @ keyed as"
| "keyed _ = []"

lemma read_daemon_Inr:
  "read_daemon as s = Return (Inr (b, s')) \<Longrightarrow> s' = s\<lparr>wf_user_buf := wf_user_buf s @ shown as\<rparr>"
  by (induction as s rule: read_daemon.induct) auto

lemma read_keyboard_Inr:
  "read_keyboard as s = Return (Inr s') \<Longrightarrow> s' = s\<lparr>wf_ssh_buf := wf_ssh_buf s @ keyed as\<rparr>"
  by (induction as s rule: read_keyboard.induct) auto

section \<open>Runs\<close>

fun converse_run :: "wf_env list \<Rightarrow> wf_state \<Rightarrow> (workflow, client_error) machine run" where
  "converse_run [] s = Return (Stay (Communicating s))"
| "converse_run (env # es) s =
     run_bind (poll_communicating env s) (\<lambda>m.
       case m of
         Stay (Communicating s') \<Rightarrow> converse_run es s'
       | _ \<Rightarrow> Return m)"

text \<open>What a poll that keeps the workflow communicating has done to it.\<close>

definition poll_effect :: "wf_env \<Rightarrow> wf_state \<Rightarrow> wf_state \<Rightarrow> bool" where
  "poll_effect env s s' \<longleftrightarrow>
     wf_user_tx s' @ wf_user_buf s' = wf_user_tx s @ wf_user_buf s @ shown (daemon_rx env) \<and>
     user_data (wf_sent s') @ wf_ssh_buf s' =
       user_data (wf_sent s) @ wf_ssh_buf s @ keyed (user_rx env)"

lemma finish_poll_Stay: "finish_poll env s = Stay m \<Longrightarrow> m = Communicating s"
  by (auto simp: finish_poll_def split: poll.splits)

lemma workflow_poll_effect:
  assumes "poll_communicating env s = Return (Stay m)"
  obtains s' where "m = Communicating s'" "poll_effect env s s'"
proof -
  from assms obtain r where r: "read_daemon (daemon_rx env) s = Return r"
    by (auto simp: poll_communicating_def)
  with assms obtain s1 where s1: "read_daemon (daemon_rx env) s = Return (Inr (False, s1))"
    by (auto simp: poll_communicating_def split: sum.split_asm prod.split_asm bool.split_asm)
  with assms obtain r2 where r2: "read_keyboard (user_rx env) s1 = Return r2"
    by (auto simp: poll_communicating_def)
  with assms s1 obtain s2 where s2: "r2 = Inr s2"
    by (cases r2) (simp_all add: poll_communicating_def)
  with assms s1 r2 obtain s3 where s3: "flush_user (user_start env) s2 = Inr s3"
    by (cases "flush_user (user_start env) s2") (simp_all add: poll_communicating_def)
  with assms s1 r2 s2 obtain s4 where s4: "flush_daemon (daemon_start env) s3 = Inr s4"
    by (cases "flush_daemon (daemon_start env) s3") (simp_all add: poll_communicating_def)
  with assms s1 r2 s2 s3 have m: "finish_poll env s4 = Stay m"
    by (simp add: poll_communicating_def)
  have "wf_sent s3 = wf_sent s2 \<and> wf_ssh_buf s3 = wf_ssh_buf s2"
    using s3 by (auto elim!: flush_user_cases)
  moreover have "wf_user_tx s4 = wf_user_tx s3 \<and> wf_user_buf s4 = wf_user_buf s3"
    using s4 by (auto elim!: flush_daemon_cases)
  ultimately have "poll_effect env s s4"
    using to_user.flush_conserves [OF s3] to_daemon.flush_conserves [OF s4]
      read_daemon_Inr [OF s1] read_keyboard_Inr [OF r2 [unfolded s2]]
    by (simp add: poll_effect_def)
  with that finish_poll_Stay [OF m] show thesis by blast
qed

lemma converse_run_Stay:
  assumes "converse_run es s = Return (Stay m)"
  shows "\<exists>s'. m = Communicating s' \<and>
    wf_user_tx s' @ wf_user_buf s' =
      wf_user_tx s @ wf_user_buf s @ concat (map (\<lambda>e. shown (daemon_rx e)) es) \<and>
    user_data (wf_sent s') @ wf_ssh_buf s' =
      user_data (wf_sent s) @ wf_ssh_buf s @ concat (map (\<lambda>e. keyed (user_rx e)) es)"
  using assms
proof (induction es arbitrary: s)
  case (Cons e es)
  then obtain m1 where poll: "poll_communicating e s = Return m1"
    and rest: "(case m1 of Stay (Communicating s') \<Rightarrow> converse_run es s' | _ \<Rightarrow> Return m1) = Return (Stay m)"
    by auto
  from rest obtain m2 where "m1 = Stay m2" by (cases m1) auto
  with poll obtain s1 where m1: "m1 = Stay (Communicating s1)" and eff: "poll_effect e s s1"
    by (auto elim: workflow_poll_effect)
  with rest Cons.IH [of s1] obtain s' where "m = Communicating s'"
    "wf_user_tx s' @ wf_user_buf s' =
      (wf_user_tx s1 @ wf_user_buf s1) @ concat (map (\<lambda>e. shown (daemon_rx e)) es)"
    "user_data (wf_sent s') @ wf_ssh_buf s' =
      (user_data (wf_sent s1) @ wf_ssh_buf s1) @ concat (map (\<lambda>e. keyed (user_rx e)) es)"
    by auto
  with eff show ?case by (auto simp: poll_effect_def)
qed auto

section \<open>Properties\<close>

definition sample_wf_env :: wf_env where
  "sample_wf_env =
     \<lparr>issue_send = Ready (), daemon_rx = [NotReady], user_rx = [NotReady], user_start = SendReady,
      daemon_start = SendReady, user_flush = Ready (), daemon_flush = Ready ()\<rparr>"

text \<open>The client relays both ways without loss, duplication or reordering: while an open is
  in progress, what the terminal has taken and what is still buffered is exactly the SSH
  output received, and the user data sent with what is buffered is exactly what was typed.\<close>

theorem workflow_relays_faithfully:
  assumes "converse_run es (wf_start params) = Return (Stay (Communicating s'))"
  shows "wf_user_tx s' @ wf_user_buf s' = concat (map (\<lambda>e. shown (daemon_rx e)) es) \<and>
    user_data (wf_sent s') @ wf_ssh_buf s' = concat (map (\<lambda>e. keyed (user_rx e)) es)"
  using converse_run_Stay [OF assms] by (auto simp: wf_start_def)

theorem workflow_relays_faithfully_witness:
  "\<exists>s' :: wf_state. wf_user_tx s' = [1, 2] \<and> wf_user_buf s' = [] \<and> wf_sent s' = [CM_Open \<lparr>op_host = ''h''\<rparr>] \<and>
     wf_ssh_buf s' = [9] \<and>
     wf_user_tx s' @ wf_user_buf s' = concat (map (\<lambda>e. shown (daemon_rx e))
       [sample_wf_env\<lparr>daemon_rx := [Ready (Some (SM_SshData [1])), NotReady]\<rparr>,
        sample_wf_env\<lparr>daemon_rx := [Ready (Some (SM_SshData [2])), NotReady],
          user_rx := [Ready (Some [9]), Ready None], daemon_start := SendNotReady\<rparr>])"
proof -
  let ?es = "[sample_wf_env\<lparr>daemon_rx := [Ready (Some (SM_SshData [1])), NotReady]\<rparr>,
        sample_wf_env\<lparr>daemon_rx := [Ready (Some (SM_SshData [2])), NotReady],
          user_rx := [Ready (Some [9]), Ready None], daemon_start := SendNotReady\<rparr>]"
  let ?s = "\<lparr>wf_user_buf = [], wf_ssh_buf = [9], wf_user_tx = [1, 2],
    wf_sent = [CM_Open \<lparr>op_host = ''h''\<rparr>]\<rparr>"
  have "converse_run ?es (wf_start \<lparr>op_host = ''h''\<rparr>) = Return (Stay (Communicating ?s))"
    by (simp add: poll_communicating_def sample_wf_env_def wf_start_def flush_user_def flush_daemon_def
        finish_poll_def)
  from workflow_relays_faithfully [OF this] show ?thesis by (intro exI [of _ ?s]) simp
qed

text \<open>When the daemon goes away during an open, the client hangs: the loop over its messages
  skips the end of the stream and polls again, and never stops, however often the stream
  says that it has ended.\<close>

theorem daemon_eof_spins_client:
  "poll_communicating (env\<lparr>daemon_rx := replicate n (Ready None)\<rparr>) s = Starved"
proof -
  have "read_daemon (replicate n (Ready None)) s = Starved"
    by (induction n) simp_all
  then show ?thesis by (simp add: poll_communicating_def)
qed

text \<open>Output that arrives in the poll that reads the final \<open>Ok\<close> is lost: the workflow finishes
  at once, whatever is in its buffer, and the terminal is offered nothing.\<close>

theorem output_with_final_ack_is_lost:
  "poll_workflow (env\<lparr>daemon_rx := map (\<lambda>d. Ready (Some (SM_SshData d))) ds @ Ready (Some SM_Ok) # as\<rparr>)
     (Communicating s) = Return (Goto (WFinished OpenSuccess))"
proof -
  obtain s' where "read_daemon (map (\<lambda>d. Ready (Some (SM_SshData d))) ds @ Ready (Some SM_Ok) # as) s =
      Return (Inr (True, s'))"
    by (induction ds arbitrary: s) auto
  then show ?thesis by (simp add: poll_communicating_def)
qed

text \<open>C24. The client starts a daemon only when it is allowed to and none answers, once, and waits
  before it connects again; a connection it gets is told to linger; \<open>establish\<close> never panics, and
  without the permission nothing is ever launched.\<close>

theorem launches_daemon_only_if_needed:
  assumes "establish_inner autolaunch a = (r, calls)"
  shows "(\<forall>exe args. Run_launcher exe args \<in> set calls \<longrightarrow>
      autolaunch \<and> (\<exists>e. ea_connect a = Inl e) \<and> args = [''daemon'']) \<and>
    (r = Inr (Some ()) \<longrightarrow>
       (\<exists>p exe. calls = [Try_connect p, set_linger] \<and> ea_connect a = Inr () \<or>
          calls = [Try_connect p, Run_launcher exe [''daemon''], Sleep_ms 300, Try_connect p, set_linger])) \<and>
    fst (establish a) \<noteq> Panic"
  using assms
  by (cases "ea_core a"; cases "get_socket_path (ea_home a)"; cases "ea_connect a"; cases "ea_exe a";
      cases "ea_status a"; cases "ea_reconnect a")
    (auto simp: establish_inner_def establish_def set_linger_def Let_def split: if_split_asm)

theorem launches_daemon_only_if_needed_witness:
  "fst (establish \<lparr>ea_core = Inr (), ea_home = Some ''/u'', ea_connect = Inl (IoError NotFound []),
     ea_exe = Inr ''/bin/stund'', ea_status = Inr True, ea_reconnect = Inr ()\<rparr>) \<noteq> Panic"
    (is "fst (establish ?a) \<noteq> Panic")
proof -
  obtain r calls where "establish_inner True ?a = (r, calls)" by (cases "establish_inner True ?a")
  from launches_daemon_only_if_needed [OF this] show ?thesis by simp
qed

end
