(* ===== verification/Conversation.thy ===== *)
theory Conversation
  imports SessionProps Replies ClientProps
begin

text \<open>
  The daemon's session and the client together: the replies of one fit the decoders of the
  other, and the messages one side sends are what the other reads, in order.
\<close>

section \<open>Requests and replies\<close>

text \<open>What a request may rely on: its decoder knows every reply to its command, and errors.\<close>

locale answered_request =
  fixes command :: client_message
    and decode :: "server_message option \<Rightarrow> client_error + 'r"
  assumes accepts: "right_reply tab command r \<Longrightarrow> \<exists>x. decode (Some r) = Inr x"
    and reports: "decode (Some (SM_Error e)) = Inl (ClientError e)"
begin

lemma understood:
  assumes "right_reply tab command r \<or> (\<exists>e. r = SM_Error e)"
  shows "(\<exists>x. ask what decode (Inr ()) (Inr (Some r)) = Inr x) \<or>
    (\<exists>e. r = SM_Error e \<and> ask what decode (Inr ()) (Inr (Some r)) = Inl (ClientError e))"
  using assms accepts [of tab r] reports by (auto simp: ask_def)

end

interpretation close_request: answered_request "CM_Close params" decode_close for params
  by unfold_locales (auto split: if_split_asm)

interpretation status_request: answered_request CM_QueryStatus decode_status
  by unfold_locales auto

interpretation exit_request: answered_request CM_Exit decode_exit
  by unfold_locales auto

text \<open>The replies to a command: what has been sent, and the message the session goes on to send.\<close>

definition replies :: "world \<Rightarrow> (client, session_error) machine \<Rightarrow> world \<Rightarrow> server_message list" where
  "replies w res w' = map snd (drop (length (sent w)) (sent w')) @ pending_reply res"

text \<open>Every command that asks for something gets exactly one reply.\<close>

lemma one_reply:
  assumes "poll_awaiting_command env cm tx w = Return (res, w')"
    and "rx_answers env = Ready (Some m) # as" "\<not> ends_session (Heard m)"
  obtains r where "replies w res w' = [r]"
    "right_reply (children w) m r \<or> (\<exists>e. r = SM_Error e \<and> may_fail (children w) m) \<or>
     (\<exists>p. m = CM_Open p \<and> r = SM_Ok \<and> talk_after res = Dialogue)"
proof -
  from awaiting_speaks [OF assms(1)] assms(2) obtain ms where
    sent: "sent w' = sent w @ map (Pair tx) ms" and
    talk: "speaks (children w) (Heard m) Idle ms (talk_after res)"
    by (auto simp: speaks_on_def)
  have replies: "replies w res w' = ms @ pending_reply res"
    by (simp add: replies_def sent comp_def)
  have go: "res \<noteq> Stay cl" for cl
    using awaiting_stays_waiting [of env cm tx w cl w'] assms(1,2) by auto
  show thesis
  proof (cases res)
    case (Goto cl)
    with talk assms(3) replies that show thesis
      by (cases cl; cases rule: speaks.cases) auto
  qed (use talk assms(3) go in \<open>auto elim: speaks.cases\<close>)
qed

section \<open>The messages of a dialogue\<close>

fun taken :: "(client_message option, string) poll list \<Rightarrow> client_message list" where
  "taken (Ready (Some (CM_UserData d)) # as) = CM_UserData d # taken as"
| "taken (Ready (Some m) # as) = [m]"
| "taken _ = []"

fun heard :: "(server_message option, string) poll list \<Rightarrow> server_message list" where
  "heard (Ready (Some (SM_SshData d)) # as) = SM_SshData d # heard as"
| "heard (Ready (Some m) # as) = [m]"
| "heard (Ready None # as) = heard as"
| "heard _ = []"

lemma typed_taken: "typed as = user_data (taken as)"
  by (induction as rule: taken.induct) auto

lemma shown_heard: "shown as = ssh_data (heard as)"
  by (induction as rule: heard.induct) auto

lemma user_data_concat: "user_data (concat mss) = concat (map user_data mss)"
  by (induction mss) auto

lemma ssh_data_concat: "ssh_data (concat mss) = concat (map ssh_data mss)"
  by (induction mss) auto

lemma user_data_prefix: "prefix ms ns \<Longrightarrow> prefix (user_data ms) (user_data ns)"
  by (auto simp: prefix_def)

lemma ssh_data_prefix: "prefix ms ns \<Longrightarrow> prefix (ssh_data ms) (ssh_data ns)"
  by (auto simp: prefix_def)

lemma user_data_subseq: "subseq ms ns \<Longrightarrow> subseq (user_data ms) (user_data ns)"
proof (induction rule: list_emb.induct)
  case (list_emb_Cons ms ns n)
  then show ?case by (cases n) (auto intro: subseq_drop_many)
next
  case (list_emb_Cons2 m n ms ns)
  then show ?case by (cases n) (auto intro: list_emb_append_mono)
qed simp

lemma ssh_data_subseq: "subseq ms ns \<Longrightarrow> subseq (ssh_data ms) (ssh_data ns)"
proof (induction rule: list_emb.induct)
  case (list_emb_Cons ms ns n)
  then show ?case by (cases n) (auto intro: subseq_drop_many)
next
  case (list_emb_Cons2 m n ms ns)
  then show ?case by (cases n) (auto intro: list_emb_append_mono)
qed simp

definition session_reads :: "turn list \<Rightarrow> client_message list" where
  "session_reads ts = concat (map (\<lambda>(others, env). taken (rx_answers env)) ts)"

definition client_reads :: "wf_env list \<Rightarrow> server_message list" where
  "client_reads es = concat (map (\<lambda>e. heard (daemon_rx e)) es)"

lemma all_typed_reads: "all_typed ts = user_data (session_reads ts)"
  by (auto simp: all_typed_def session_reads_def user_data_concat typed_taken
      intro!: arg_cong [where f = concat])

lemma client_reads_shown: "concat (map (\<lambda>e. shown (daemon_rx e)) es) = ssh_data (client_reads es)"
  by (simp add: client_reads_def ssh_data_concat shown_heard comp_def)

end
