(* ===== verification/Conduit.thy ===== *)
theory Conduit
  imports Prelude "HOL-Library.Sublist"
begin

text \<open>
  The contract of a channel seen from the steps of the program around it: what has been put
  into it only grows at the end, and what has been taken from it grows by the next message
  that was put and not yet taken. Both channels of the borrowed standard streams follow it.
\<close>

definition next_message :: "'m list \<Rightarrow> 'm list \<Rightarrow> 'm option" where
  "next_message put got = (if length got < length put then Some (put ! length got) else None)"

lemma next_message_prefix:
  assumes "prefix got put" "next_message put got = Some m"
  shows "prefix (got @ [m]) put"
proof -
  from assms(1) obtain rest where put: "put = got @ rest" ..
  with assms(2) obtain ms where "rest = m # ms"
    by (cases rest) (auto simp: next_message_def split: if_split_asm)
  with put show ?thesis by simp
qed

lemma next_message_append:
  "next_message put got = Some m \<Longrightarrow> next_message (put @ ms) got = Some m"
  by (auto simp: next_message_def nth_append split: if_split_asm)

definition undelivered :: "'m list \<Rightarrow> 'm list \<Rightarrow> nat" where
  "undelivered put got = length put - length got"

lemma undelivered_put [simp]: "prefix got put \<Longrightarrow> undelivered (put @ [m]) got = Suc (undelivered put got)"
  by (auto simp: undelivered_def Suc_diff_le dest: prefix_length_le)

lemma undelivered_got: "undelivered put (got @ [m]) \<le> undelivered put got"
  by (simp add: undelivered_def)

locale conduit =
  fixes initial :: "'s \<Rightarrow> bool"
    and step :: "'s \<Rightarrow> 's \<Rightarrow> bool"
    and put :: "'s \<Rightarrow> 'm list"
    and got :: "'s \<Rightarrow> 'm list"
  assumes put_initial: "initial s \<Longrightarrow> put s = []"
    and got_initial: "initial s \<Longrightarrow> got s = []"
    and put_step: "step s t \<Longrightarrow> prefix (put s) (put t)"
    and got_step: "step s t \<Longrightarrow>
      got t = got s \<or> (\<exists>m. got t = got s @ [m] \<and> next_message (put s) (got s) = Some m)"
begin

text \<open>First in, first out: nothing is lost, duplicated or reordered.\<close>

lemma got_step_prefix:
  assumes "prefix (got s) (put s)" "step s t"
  shows "prefix (got t) (put t)"
proof -
  from got_step [OF assms(2)] next_message_prefix [OF assms(1)] assms(1)
  have "prefix (got t) (put s)" by auto
  then show ?thesis using put_step [OF assms(2)] by (rule prefix_order.trans)
qed

lemma fifo: "reach initial step s \<Longrightarrow> prefix (got s) (put s)"
  by (induction rule: reach.induct) (auto simp: put_initial got_initial intro: got_step_prefix)

lemma got_grows: "step s t \<Longrightarrow> prefix (got s) (got t)"
  using got_step by fastforce

lemma got_map_prefix: "reach initial step s \<Longrightarrow> prefix (concat (map f (got s))) (concat (map f (put s)))"
  using fifo by (fastforce elim: prefixE)

lemma undelivered_take: "step s t \<Longrightarrow> put t = put s \<Longrightarrow> undelivered (put t) (got t) \<le> undelivered (put s) (got s)"
  using got_step [of s t] by (auto simp: undelivered_def)

end

end
