(* ===== verification/Stdio.thy ===== *)
theory Stdio
  imports Conduit
begin

text \<open>
  The borrowed standard streams (\<open>tokio-borrow-stdio/src/lib.rs\<close>): the thread that reads
  standard input, the thread that writes standard output, the stream and the sink the borrower
  gets, and the steps of the three threads over all interleavings.
\<close>

section \<open>The reader thread\<close>

text \<open>\<open>StdioPacket\<close>: a chunk of input, or the error of a read.\<close>

type_synonym stdio_packet = "io_error + byte list"

text \<open>
  \<open>StdinState\<close>. \<open>tx_stdin_data\<close> is \<open>None\<close> for the sender itself (\<open>Either::A\<close>) and the packet being
  sent for a \<open>Send\<close> future (\<open>Either::B\<close>).
\<close>

record stdin_state =
  first_call :: bool
  read_buf :: "byte list"
  tx_stdin_data :: "stdio_packet option"

definition stdin_state_new :: stdin_state where
  "stdin_state_new = \<lparr>first_call = True, read_buf = replicate 512 0, tx_stdin_data = None\<rparr>"

text \<open>The answers met by one call of the closure of \<open>loop_fn\<close>.\<close>

record reader_env =
  stop_answer :: "(unit, unit) poll"
  data_answer :: "(unit, string) poll"
  read_answer :: "io_error + byte list"

text \<open>
  The closure up to the read: it goes round again, ends the loop, fails, or blocks in \<open>read\<close>
  with the sender at hand.
\<close>

datatype reader_turn = Again stdin_state | Breaks | Fails string | Reads stdin_state

definition before_read :: "reader_env \<Rightarrow> stdin_state \<Rightarrow> reader_turn" where
  "before_read env st =
     (if first_call st then Again (st\<lparr>first_call := False\<rparr>)
      else if stop_answer env \<noteq> NotReady then Breaks
      else
        (case tx_stdin_data st of
           None \<Rightarrow> Reads st
         | Some packet \<Rightarrow>
             (case data_answer env of
                NotReady \<Rightarrow> Again st
              | Ready _ \<Rightarrow> Reads (st\<lparr>tx_stdin_data := None\<rparr>)
              | PollErr e \<Rightarrow> Fails e)))"

text \<open>A read stores the bytes at the front of the buffer and leaves the rest of it.\<close>

definition read_into :: "byte list \<Rightarrow> byte list \<Rightarrow> byte list" where
  "read_into buf bs = take (length buf) bs @ drop (length bs) buf"

text \<open>The closure from the read on: the packet, handed to \<open>send\<close>. Slicing the buffer may panic.\<close>

definition after_read :: "io_error + byte list \<Rightarrow> stdin_state \<Rightarrow> (stdio_packet \<times> stdin_state) run" where
  "after_read answer st =
     (case answer of
        Inl e \<Rightarrow> Return (Inl e, st\<lparr>tx_stdin_data := Some (Inl e)\<rparr>)
      | Inr bs \<Rightarrow>
          let buf = read_into (read_buf st) bs; n = length bs in
          if n \<le> length buf
          then Return (Inr (take n buf), st\<lparr>read_buf := buf, tx_stdin_data := Some (Inr (take n buf))\<rparr>)
          else Panic)"

text \<open>
  The whole thread: \<open>loop_fn\<close> calls the closure again at once for as long as it continues. The
  result is the error that is printed, if any, with the packets handed to \<open>send\<close>.
\<close>

fun reader_loop ::
  "reader_env list \<Rightarrow> stdin_state \<Rightarrow> stdio_packet list \<Rightarrow> (string option \<times> stdio_packet list) run" where
  "reader_loop [] st packets = Starved"
| "reader_loop (env # envs) st packets =
     (case before_read env st of
        Again st' \<Rightarrow> reader_loop envs st' packets
      | Breaks \<Rightarrow> Return (None, packets)
      | Fails e \<Rightarrow> Return (Some e, packets)
      | Reads st' \<Rightarrow>
          run_bind (after_read (read_answer env) st') (\<lambda>(packet, st'').
            reader_loop envs st'' (packets @ [packet])))"

section \<open>The stream and the sink\<close>

text \<open>\<open>StdinStream::poll\<close> on the answer of the channel; an empty chunk is the end of the input.\<close>

fun stdin_stream_poll ::
  "(stdio_packet option, unit) poll \<Rightarrow> (byte list option, io_error) poll" where
  "stdin_stream_poll (PollErr _) = PollErr (IoError OtherKind [])"
| "stdin_stream_poll NotReady = NotReady"
| "stdin_stream_poll (Ready None) = Ready None"
| "stdin_stream_poll (Ready (Some (Inr data))) = (if length data = 0 then Ready None else Ready (Some data))"
| "stdin_stream_poll (Ready (Some (Inl e))) =
     (if kind e = UnexpectedEof then Ready None else PollErr e)"

text \<open>The answer of \<open>start_send\<close>: \<open>AsyncSink\<close> with the item given back, or an error.\<close>

datatype 'm async_sink = Taken | GivenBack 'm | Refused

definition stdout_item :: "byte list \<Rightarrow> byte list option" where
  "stdout_item data = Some data"

definition stdout_start_send :: "byte list option async_sink \<Rightarrow> (io_error + byte list async_sink) run" where
  "stdout_start_send answer =
     (case answer of
        Refused \<Rightarrow> Return (Inl (IoError OtherKind []))
      | Taken \<Rightarrow> Return (Inr Taken)
      | GivenBack (Some data) \<Rightarrow> Return (Inr (GivenBack data))
      | GivenBack None \<Rightarrow> Panic)"

fun stdout_poll_complete :: "(unit, unit) poll \<Rightarrow> (unit, io_error) poll" where
  "stdout_poll_complete (PollErr _) = PollErr (IoError OtherKind [])"
| "stdout_poll_complete NotReady = NotReady"
| "stdout_poll_complete (Ready x) = Ready x"

section \<open>The writer thread\<close>

text \<open>
  One item of the writer's loop: what standard output takes of it, or \<open>None\<close> when the loop
  breaks. \<open>written\<close> is the result of the one \<open>write\<close>; it and the result of \<open>flush\<close> are ignored.
\<close>

fun write_item :: "unit + byte list option \<Rightarrow> io_error + nat \<Rightarrow> byte list option" where
  "write_item (Inr None) written = None"
| "write_item (Inr (Some data)) (Inr n) = Some (take n data)"
| "write_item (Inr (Some data)) (Inl e) = Some []"
| "write_item (Inl _) written = Some []"

text \<open>The whole thread on the items of the channel, until it ends or the loop breaks.\<close>

fun writer_loop :: "((unit + byte list option) \<times> (io_error + nat)) list \<Rightarrow> byte list" where
  "writer_loop [] = []"
| "writer_loop ((item, written) # items) =
     (case write_item item written of None \<Rightarrow> [] | Some bytes \<Rightarrow> bytes @ writer_loop items)"

end
