(* ===== verification/StdioRun.thy ===== *)
theory StdioRun
  imports Stdio
begin

text \<open>
  The three threads of \<open>borrow_stdio\<close> together: the reader, the writer, and the thread that runs
  the borrower \<open>f\<close>. A step is what one thread does between two synchronisations; a read that
  blocks is two steps. The channels of the futures crate are not code of the repository: what
  each of their answers may be is a named condition of the step that gets it.
\<close>

section \<open>The threads and what they share\<close>

datatype reader =
    Polling stdin_state
  | Reading stdin_state
  | ReaderDone
  | ReaderFailed string
  | ReaderPanicked

datatype writer = Spawned | Writing | WriterDone

text \<open>What has appeared on standard output: the writer's chunks, and lines printed otherwise.\<close>

datatype tty_output = Chunk "byte list" | Line string

text \<open>
  \<open>borrowed\<close> holds until \<open>f\<close> has returned; with it go the stop sender and \<open>tx_stdout_cmd\<close>. The
  stream and the sink are \<open>f\<close>'s to drop. \<open>stdin_reads\<close> are the results of the reads, \<open>handed\<close> and \<open>received\<close> are the packets that went into
  the channel of the input and came out of it, \<open>accepted\<close> and \<open>taken\<close> those of the output, and
  \<open>whole_writes\<close> says that no write has been short or failed.
\<close>

record stdio_world =
  reader :: reader
  stdin_reads :: "(io_error + byte list) list"
  handed :: "stdio_packet list"
  received :: "stdio_packet list"
  stream_results :: "(byte list option, io_error) poll list"
  writer :: writer
  accepted :: "byte list option list"
  taken :: "byte list option list"
  screen :: "tty_output list"
  whole_writes :: bool
  borrowed :: bool
  stream_alive :: bool
  sink_alive :: bool

text \<open>\<open>borrow_stdio\<close> up to the call of \<open>f\<close>, and after it: the future of \<open>send(None)\<close> is not polled.\<close>

definition borrow_start :: stdio_world where
  "borrow_start =
     \<lparr>reader = Polling stdin_state_new, stdin_reads = [], handed = [], received = [], stream_results = [],
      writer = Spawned, accepted = [], taken = [], screen = [], whole_writes = True,
      borrowed = True, stream_alive = True, sink_alive = True\<rparr>"

definition borrow_end :: "stdio_world \<Rightarrow> stdio_world" where
  "borrow_end w = w\<lparr>borrowed := False\<rparr>"

definition borrow_stdio :: "io_error + 't \<Rightarrow> stdio_world \<Rightarrow> (io_error + 't) \<times> stdio_world" where
  "borrow_stdio r w = (r, borrow_end w)"

section \<open>What the channels may answer\<close>

text \<open>
  The capacity of \<open>mpsc::channel(n)\<close> is \<open>n\<close> plus the number of senders: 2 for the input, 10 for
  the output. A receiver that polls gets the next message, or the end once the senders are gone
  (the reader's, when its thread has ended). A oneshot receiver has an answer exactly when its
  sender has sent or is gone.
\<close>

definition input_room :: nat where "input_room = 1 + 1"

definition output_room :: nat where "output_room = 8 + 2"

fun reader_ended :: "reader \<Rightarrow> bool" where
  "reader_ended (Polling st) = False"
| "reader_ended (Reading st) = False"
| "reader_ended _ = True"

definition reader_env_ok :: "stdio_world \<Rightarrow> reader_env \<Rightarrow> bool" where
  "reader_env_ok w env \<longleftrightarrow>
     (stop_answer env = NotReady \<longleftrightarrow> borrowed w) \<and>
     (\<forall>x. data_answer env = Ready x \<longrightarrow> undelivered (handed w) (received w) \<le> input_room) \<and>
     (\<forall>e. data_answer env = PollErr e \<longrightarrow> \<not> stream_alive w)"

definition read_ok :: "io_error + byte list \<Rightarrow> bool" where
  "read_ok answer \<longleftrightarrow> (\<forall>bs. answer = Inr bs \<longrightarrow> length bs \<le> 512)"

fun stream_answer_ok :: "stdio_world \<Rightarrow> (stdio_packet option, unit) poll \<Rightarrow> bool" where
  "stream_answer_ok w (Ready (Some packet)) \<longleftrightarrow> next_message (handed w) (received w) = Some packet"
| "stream_answer_ok w (Ready None) \<longleftrightarrow> reader_ended (reader w)"
| "stream_answer_ok w NotReady \<longleftrightarrow> True"
| "stream_answer_ok w (PollErr _) \<longleftrightarrow> False"

fun sink_answer_ok :: "stdio_world \<Rightarrow> byte list option \<Rightarrow> byte list option async_sink \<Rightarrow> bool" where
  "sink_answer_ok w item Taken \<longleftrightarrow> undelivered (accepted w) (taken w) < output_room"
| "sink_answer_ok w item (GivenBack back) \<longleftrightarrow> back = item"
| "sink_answer_ok w item Refused \<longleftrightarrow> writer w = WriterDone"

section \<open>What a step does\<close>

definition reader_turns :: "reader_env \<Rightarrow> stdin_state \<Rightarrow> stdio_world \<Rightarrow> stdio_world" where
  "reader_turns env st w =
     w\<lparr>reader :=
       (case before_read env st of
          Again st' \<Rightarrow> Polling st'
        | Breaks \<Rightarrow> ReaderDone
        | Fails e \<Rightarrow> ReaderFailed e
        | Reads st' \<Rightarrow> Reading st')\<rparr>"

definition reader_reads :: "io_error + byte list \<Rightarrow> stdin_state \<Rightarrow> stdio_world \<Rightarrow> stdio_world" where
  "reader_reads answer st w =
     (case after_read answer st of
        Return (packet, st') \<Rightarrow>
          w\<lparr>reader := Polling st', stdin_reads := stdin_reads w @ [answer], handed := handed w @ [packet]\<rparr>
      | _ \<Rightarrow> w\<lparr>reader := ReaderPanicked, stdin_reads := stdin_reads w @ [answer]\<rparr>)"

text \<open>A poll of the stream that is not ready leaves no trace.\<close>

fun poll_stream :: "(stdio_packet option, unit) poll \<Rightarrow> stdio_world \<Rightarrow> stdio_world" where
  "poll_stream NotReady w = w"
| "poll_stream (Ready (Some packet)) w =
     w\<lparr>received := received w @ [packet],
       stream_results := stream_results w @ [stdin_stream_poll (Ready (Some packet))]\<rparr>"
| "poll_stream answer w =
     w\<lparr>stream_results := stream_results w @ [stdin_stream_poll answer]\<rparr>"

definition send_to_sink :: "byte list \<Rightarrow> byte list option async_sink \<Rightarrow> stdio_world \<Rightarrow> stdio_world" where
  "send_to_sink data answer w =
     (if answer = Taken then w\<lparr>accepted := accepted w @ [stdout_item data]\<rparr> else w)"

definition writer_takes :: "byte list option \<Rightarrow> io_error + nat \<Rightarrow> stdio_world \<Rightarrow> stdio_world" where
  "writer_takes item written w =
     (case write_item (Inr item) written of
        None \<Rightarrow> w\<lparr>taken := taken w @ [item], writer := WriterDone\<rparr>
      | Some bytes \<Rightarrow>
          w\<lparr>taken := taken w @ [item], screen := screen w @ [Chunk bytes],
            whole_writes := whole_writes w \<and> item = Some bytes\<rparr>)"

text \<open>
  The steps. The writer holds the lock of standard output from its start to its end, and a line
  printed by another thread needs that lock.
\<close>

inductive stdio_step :: "stdio_world \<Rightarrow> stdio_world \<Rightarrow> bool" where
  reader_turn: "reader w = Polling st \<Longrightarrow> reader_env_ok w env \<Longrightarrow> stdio_step w (reader_turns env st w)"
| reader_read: "reader w = Reading st \<Longrightarrow> read_ok answer \<Longrightarrow> stdio_step w (reader_reads answer st w)"
| stream_poll: "stream_alive w \<Longrightarrow> stream_answer_ok w answer \<Longrightarrow> stdio_step w (poll_stream answer w)"
| sink_send: "sink_alive w \<Longrightarrow> sink_answer_ok w (stdout_item data) answer \<Longrightarrow>
    stdio_step w (send_to_sink data answer w)"
| writer_start: "writer w = Spawned \<Longrightarrow> stdio_step w (w\<lparr>writer := Writing\<rparr>)"
| writer_item: "writer w = Writing \<Longrightarrow> next_message (accepted w) (taken w) = Some item \<Longrightarrow>
    stdio_step w (writer_takes item written w)"
| writer_end: "writer w = Writing \<Longrightarrow> taken w = accepted w \<Longrightarrow> \<not> sink_alive w \<Longrightarrow> \<not> borrowed w \<Longrightarrow>
    stdio_step w (w\<lparr>writer := WriterDone\<rparr>)"
| print_line: "writer w \<noteq> Writing \<Longrightarrow> stdio_step w (w\<lparr>screen := screen w @ [Line text]\<rparr>)"
| drop_stream: "stdio_step w (w\<lparr>stream_alive := False\<rparr>)"
| drop_sink: "stdio_step w (w\<lparr>sink_alive := False\<rparr>)"
| borrower_returns: "borrowed w \<Longrightarrow> stdio_step w (borrow_end w)"

definition stdio_initial :: "stdio_world \<Rightarrow> bool" where
  "stdio_initial w \<longleftrightarrow> w = borrow_start"

section \<open>What each operation leaves alone\<close>

lemma reader_turns_keeps [simp]:
  "stdin_reads (reader_turns env st w) = stdin_reads w" "handed (reader_turns env st w) = handed w" "received (reader_turns env st w) = received w"
  "stream_results (reader_turns env st w) = stream_results w" "writer (reader_turns env st w) = writer w"
  "accepted (reader_turns env st w) = accepted w" "taken (reader_turns env st w) = taken w"
  "screen (reader_turns env st w) = screen w" "whole_writes (reader_turns env st w) = whole_writes w"
  "borrowed (reader_turns env st w) = borrowed w" "stream_alive (reader_turns env st w) = stream_alive w"
  "sink_alive (reader_turns env st w) = sink_alive w"
  by (simp_all add: reader_turns_def)

lemma reader_reads_keeps [simp]:
  "received (reader_reads a st w) = received w" "stream_results (reader_reads a st w) = stream_results w"
  "writer (reader_reads a st w) = writer w" "accepted (reader_reads a st w) = accepted w"
  "taken (reader_reads a st w) = taken w" "screen (reader_reads a st w) = screen w"
  "whole_writes (reader_reads a st w) = whole_writes w" "borrowed (reader_reads a st w) = borrowed w"
  "stream_alive (reader_reads a st w) = stream_alive w" "sink_alive (reader_reads a st w) = sink_alive w"
  by (simp_all add: reader_reads_def split: run.split prod.split)

lemma poll_stream_keeps [simp]:
  "reader (poll_stream a w) = reader w" "stdin_reads (poll_stream a w) = stdin_reads w" "handed (poll_stream a w) = handed w"
  "writer (poll_stream a w) = writer w" "accepted (poll_stream a w) = accepted w"
  "taken (poll_stream a w) = taken w" "screen (poll_stream a w) = screen w"
  "whole_writes (poll_stream a w) = whole_writes w" "borrowed (poll_stream a w) = borrowed w"
  "stream_alive (poll_stream a w) = stream_alive w" "sink_alive (poll_stream a w) = sink_alive w"
  by (cases "(a, w)" rule: poll_stream.cases; simp)+

lemma send_to_sink_keeps [simp]:
  "reader (send_to_sink d a w) = reader w" "stdin_reads (send_to_sink d a w) = stdin_reads w" "handed (send_to_sink d a w) = handed w"
  "received (send_to_sink d a w) = received w" "stream_results (send_to_sink d a w) = stream_results w"
  "writer (send_to_sink d a w) = writer w" "taken (send_to_sink d a w) = taken w"
  "screen (send_to_sink d a w) = screen w" "whole_writes (send_to_sink d a w) = whole_writes w"
  "borrowed (send_to_sink d a w) = borrowed w" "stream_alive (send_to_sink d a w) = stream_alive w"
  "sink_alive (send_to_sink d a w) = sink_alive w"
  by (simp_all add: send_to_sink_def)

lemma writer_takes_keeps [simp]:
  "reader (writer_takes i n w) = reader w" "stdin_reads (writer_takes i n w) = stdin_reads w" "handed (writer_takes i n w) = handed w"
  "received (writer_takes i n w) = received w" "stream_results (writer_takes i n w) = stream_results w"
  "accepted (writer_takes i n w) = accepted w" "taken (writer_takes i n w) = taken w @ [i]"
  "borrowed (writer_takes i n w) = borrowed w" "stream_alive (writer_takes i n w) = stream_alive w"
  "sink_alive (writer_takes i n w) = sink_alive w"
  by (simp_all add: writer_takes_def split: option.split)

lemma borrow_end_keeps [simp]:
  "reader (borrow_end w) = reader w" "stdin_reads (borrow_end w) = stdin_reads w" "handed (borrow_end w) = handed w"
  "received (borrow_end w) = received w" "stream_results (borrow_end w) = stream_results w"
  "writer (borrow_end w) = writer w" "accepted (borrow_end w) = accepted w" "taken (borrow_end w) = taken w"
  "screen (borrow_end w) = screen w" "whole_writes (borrow_end w) = whole_writes w"
  "borrowed (borrow_end w) = False" "stream_alive (borrow_end w) = stream_alive w"
  "sink_alive (borrow_end w) = sink_alive w"
  by (simp_all add: borrow_end_def)

end
