(* ===== verification/StdioSamples.thy ===== *)
theory StdioSamples
  imports StdioRun
begin

text \<open>
  Concrete reachable states of the threads of \<open>borrow_stdio\<close>, for the witnesses: one chunk has been
  read and given to the borrower; one chunk has been sent and written, and the borrower has
  returned.
\<close>

section \<open>Input\<close>

definition sample_reader_env :: reader_env where
  "sample_reader_env = \<lparr>stop_answer = NotReady, data_answer = NotReady, read_answer = Inr []\<rparr>"

definition called_once :: stdin_state where
  "called_once = stdin_state_new\<lparr>first_call := False\<rparr>"

definition blocked_world :: stdio_world where
  "blocked_world = borrow_start\<lparr>reader := Reading called_once\<rparr>"

lemma reach_start: "reach stdio_initial stdio_step borrow_start"
  by (rule reach_init) (simp add: stdio_initial_def)

definition turned_world :: stdio_world where
  "turned_world = borrow_start\<lparr>reader := Polling called_once\<rparr>"

lemma start_turns: "stdio_step borrow_start turned_world"
proof -
  have "stdio_step borrow_start (reader_turns sample_reader_env stdin_state_new borrow_start)"
    by (rule stdio_step.reader_turn) (simp_all add: borrow_start_def reader_env_ok_def sample_reader_env_def)
  then show ?thesis
    by (simp add: reader_turns_def before_read_def stdin_state_new_def called_once_def turned_world_def)
qed

lemma turned_blocks: "stdio_step turned_world blocked_world"
proof -
  have "stdio_step turned_world (reader_turns sample_reader_env called_once turned_world)"
    by (rule stdio_step.reader_turn)
      (simp_all add: turned_world_def borrow_start_def reader_env_ok_def sample_reader_env_def)
  then show ?thesis
    by (simp add: reader_turns_def before_read_def called_once_def stdin_state_new_def
        sample_reader_env_def blocked_world_def turned_world_def)
qed

lemma reach_blocked: "reach stdio_initial stdio_step blocked_world"
  using reach_step [OF reach_step [OF reach_start start_turns] turned_blocks] .

definition sent_once :: stdin_state where
  "sent_once =
     \<lparr>first_call = False, read_buf = read_into (replicate 512 0) [104, 105],
      tx_stdin_data = Some (Inr [104, 105])\<rparr>"

definition read_world :: stdio_world where
  "read_world =
     borrow_start\<lparr>reader := Polling sent_once, stdin_reads := [Inr [104, 105]], handed := [Inr [104, 105]]\<rparr>"

lemma blocked_reads: "stdio_step blocked_world read_world"
proof -
  have "stdio_step blocked_world (reader_reads (Inr [104, 105]) called_once blocked_world)"
    by (rule stdio_step.reader_read) (simp_all add: blocked_world_def read_ok_def)
  then show ?thesis
    by (simp add: reader_reads_def after_read_def Let_def read_into_def called_once_def
        stdin_state_new_def blocked_world_def read_world_def sent_once_def borrow_start_def)
qed

definition typed_world :: stdio_world where
  "typed_world =
     read_world\<lparr>received := [Inr [104, 105]], stream_results := [Ready (Some [104, 105])]\<rparr>"

lemma reach_typed: "reach stdio_initial stdio_step typed_world"
proof -
  have "stdio_step read_world (poll_stream (Ready (Some (Inr [104, 105]))) read_world)"
    by (rule stdio_step.stream_poll) (simp_all add: read_world_def borrow_start_def next_message_def)
  then have "stdio_step read_world typed_world"
    by (simp add: typed_world_def read_world_def borrow_start_def)
  with reach_step [OF reach_blocked blocked_reads] show ?thesis by (rule reach_step)
qed

section \<open>Output\<close>

definition sending_world :: stdio_world where
  "sending_world = borrow_start\<lparr>accepted := [Some [1, 2, 3]], writer := Writing\<rparr>"

lemma reach_sending: "reach stdio_initial stdio_step sending_world"
proof -
  have "stdio_step borrow_start (send_to_sink [1, 2, 3] Taken borrow_start)"
    by (rule stdio_step.sink_send) (simp_all add: borrow_start_def undelivered_def output_room_def)
  from reach_step [OF reach_start this] stdio_step.writer_start
  have "reach stdio_initial stdio_step ((send_to_sink [1, 2, 3] Taken borrow_start)\<lparr>writer := Writing\<rparr>)"
    by (rule reach_step) (simp add: borrow_start_def)
  then show ?thesis by (simp add: sending_world_def send_to_sink_def stdout_item_def borrow_start_def)
qed

definition shown_world :: stdio_world where
  "shown_world =
     borrow_start\<lparr>accepted := [Some [1, 2, 3]], taken := [Some [1, 2, 3]], borrowed := False,
       sink_alive := False, writer := WriterDone, screen := [Chunk [1, 2, 3], Line ''done'']\<rparr>"

lemma reach_shown: "reach stdio_initial stdio_step shown_world"
proof -
  let ?w1 = "writer_takes (Some [1, 2, 3]) (Inr 3) sending_world"
  let ?w2 = "borrow_end ?w1\<lparr>sink_alive := False\<rparr>"
  have "stdio_step sending_world ?w1"
    by (rule stdio_step.writer_item) (simp_all add: sending_world_def borrow_start_def next_message_def)
  from reach_step [OF reach_sending this] have r1: "reach stdio_initial stdio_step ?w1" .
  have s1: "writer ?w1 = Writing" "taken ?w1 = accepted ?w1" "borrowed ?w1"
    by (simp_all add: writer_takes_def sending_world_def borrow_start_def)
  have "reach stdio_initial stdio_step (borrow_end ?w1)"
    by (rule reach_step [OF r1 stdio_step.borrower_returns [OF s1(3)]])
  then have "reach stdio_initial stdio_step ?w2"
    by (rule reach_step) (rule stdio_step.drop_sink)
  then have "reach stdio_initial stdio_step (?w2\<lparr>writer := WriterDone\<rparr>)"
    using s1(1,2) by (elim reach_step) (auto intro!: stdio_step.writer_end simp: borrow_end_def)
  then have "reach stdio_initial stdio_step
      (?w2\<lparr>writer := WriterDone, screen := screen (?w2\<lparr>writer := WriterDone\<rparr>) @ [Line ''done'']\<rparr>)"
    by (elim reach_step) (use stdio_step.print_line [of "?w2\<lparr>writer := WriterDone\<rparr>"] in simp)
  then show ?thesis
    by (simp add: shown_world_def writer_takes_def sending_world_def borrow_start_def borrow_end_def)
qed

section \<open>Both\<close>

definition conversing_world :: stdio_world where
  "conversing_world =
     typed_world\<lparr>accepted := [Some [1, 2, 3]], writer := Writing, taken := [Some [1, 2, 3]],
       screen := [Chunk [1, 2, 3]]\<rparr>"

lemma reach_conversing: "reach stdio_initial stdio_step conversing_world"
proof -
  let ?w1 = "typed_world\<lparr>accepted := [Some [1, 2, 3]]\<rparr>"
  have "stdio_step typed_world (send_to_sink [1, 2, 3] Taken typed_world)"
    by (rule stdio_step.sink_send)
      (simp_all add: typed_world_def read_world_def borrow_start_def undelivered_def output_room_def)
  then have "stdio_step typed_world ?w1"
    by (simp add: send_to_sink_def stdout_item_def typed_world_def read_world_def borrow_start_def)
  with reach_typed have "reach stdio_initial stdio_step ?w1" by (rule reach_step)
  moreover have "stdio_step ?w1 (?w1\<lparr>writer := Writing\<rparr>)"
    by (rule stdio_step.writer_start) (simp add: typed_world_def read_world_def borrow_start_def)
  ultimately have "reach stdio_initial stdio_step (?w1\<lparr>writer := Writing\<rparr>)" by (rule reach_step)
  moreover have "stdio_step (?w1\<lparr>writer := Writing\<rparr>)
      (writer_takes (Some [1, 2, 3]) (Inr 3) (?w1\<lparr>writer := Writing\<rparr>))"
    by (rule stdio_step.writer_item)
      (simp_all add: typed_world_def read_world_def borrow_start_def next_message_def)
  then have "stdio_step (?w1\<lparr>writer := Writing\<rparr>) conversing_world"
    by (simp add: writer_takes_def conversing_world_def typed_world_def read_world_def borrow_start_def)
  ultimately show ?thesis by (rule reach_step)
qed

end
