(* ===== verification/StdioProps.thy ===== *)
theory StdioProps
  imports StdioSamples
begin

text \<open>
  The properties of the borrowed standard streams: both channels are conduits, the invariants
  of the reader and of the writer over all interleavings, and what follows for the bytes.
\<close>

section \<open>The two channels\<close>

interpretation input_channel: conduit stdio_initial stdio_step handed received
proof unfold_locales
  fix w w' assume step: "stdio_step w w'"
  then show "prefix (handed w) (handed w')"
    by cases (simp_all add: reader_reads_def split: run.split prod.split)
  from step show "received w' = received w \<or>
      (\<exists>m. received w' = received w @ [m] \<and> next_message (handed w) (received w) = Some m)"
  proof cases
    case (stream_poll answer)
    then show ?thesis by (cases "(answer, w)" rule: poll_stream.cases) simp_all
  qed simp_all
qed (simp_all add: stdio_initial_def borrow_start_def)

interpretation output_channel: conduit stdio_initial stdio_step accepted taken
proof unfold_locales
  fix w w' assume step: "stdio_step w w'"
  then show "prefix (accepted w) (accepted w')"
    by cases (simp_all add: send_to_sink_def)
  from step show "taken w' = taken w \<or>
      (\<exists>m. taken w' = taken w @ [m] \<and> next_message (accepted w) (taken w) = Some m)"
    by cases simp_all
qed (simp_all add: stdio_initial_def borrow_start_def)

section \<open>The reader\<close>

fun packet_bytes :: "stdio_packet \<Rightarrow> byte list" where
  "packet_bytes (Inr bs) = bs"
| "packet_bytes (Inl e) = []"

fun result_bytes :: "(byte list option, 'e) poll \<Rightarrow> byte list" where
  "result_bytes (Ready (Some bs)) = bs"
| "result_bytes _ = []"

lemma stdin_stream_poll_bytes: "result_bytes (stdin_stream_poll (Ready (Some p))) = packet_bytes p"
  by (cases p) auto

definition packet_ok :: "stdio_packet \<Rightarrow> bool" where
  "packet_ok p \<longleftrightarrow> length (packet_bytes p) \<le> 512"

lemma length_packets:
  "\<forall>p \<in> set ps. length (packet_bytes p) \<le> 512 \<Longrightarrow> length (concat (map packet_bytes ps)) \<le> length ps * 512"
  by (induction ps) auto

text \<open>A chunk given to the borrower is never empty and fits the buffer it was read into.\<close>

definition result_ok :: "(byte list option, 'e) poll \<Rightarrow> bool" where
  "result_ok r \<longleftrightarrow> (\<forall>bs. r = Ready (Some bs) \<longrightarrow> 0 < length bs \<and> length bs \<le> 512)"

lemma stdin_stream_poll_ok: "packet_ok p \<Longrightarrow> result_ok (stdin_stream_poll (Ready (Some p)))"
  by (cases p) (auto simp: packet_ok_def result_ok_def)

lemma read_into_take: "length bs \<le> length buf \<Longrightarrow> take (length bs) (read_into buf bs) = bs"
  by (simp add: read_into_def)

lemma length_read_into [simp]: "length (read_into buf bs) = length buf"
  by (simp add: read_into_def)

text \<open>The packet of a read is what was read, whatever the buffer held before.\<close>

lemma after_read_packet:
  assumes "read_ok answer" "length (read_buf st) = 512"
  obtains st' where "after_read answer st = Return (answer, st')"
    "length (read_buf st') = 512" "tx_stdin_data st' = Some answer" "first_call st' = first_call st"
    "packet_ok answer"
  using assms by (cases answer) (auto simp: after_read_def Let_def read_ok_def packet_ok_def read_into_take)

text \<open>\<open>n\<close> packets have been handed over and not received.\<close>

fun reader_state_ok :: "reader \<Rightarrow> stdio_packet list \<Rightarrow> nat \<Rightarrow> bool" where
  "reader_state_ok (Polling st) put n \<longleftrightarrow>
     length (read_buf st) = 512 \<and> (tx_stdin_data st = None \<longrightarrow> put = []) \<and> n \<le> input_room + 1"
| "reader_state_ok (Reading st) put n \<longleftrightarrow> length (read_buf st) = 512 \<and> n \<le> input_room"
| "reader_state_ok ReaderPanicked put n \<longleftrightarrow> False"
| "reader_state_ok _ put n \<longleftrightarrow> n \<le> input_room + 1"

lemma reader_state_ok_mono: "reader_state_ok r put n \<Longrightarrow> m \<le> n \<Longrightarrow> reader_state_ok r put m"
  by (cases r) auto

definition reader_inv :: "stdio_world \<Rightarrow> bool" where
  "reader_inv w \<longleftrightarrow>
     stdin_reads w = handed w \<and> prefix (received w) (handed w) \<and> list_all packet_ok (handed w) \<and>
     list_all result_ok (stream_results w) \<and>
     concat (map result_bytes (stream_results w)) = concat (map packet_bytes (received w)) \<and>
     reader_state_ok (reader w) (handed w) (undelivered (handed w) (received w))"

lemma reader_inv_initial: "stdio_initial w \<Longrightarrow> reader_inv w"
  by (simp add: stdio_initial_def borrow_start_def reader_inv_def stdin_state_new_def undelivered_def)

lemma reader_inv_turn:
  assumes "reader_inv w" "reader w = Polling st" "reader_env_ok w env"
  shows "reader_inv (reader_turns env st w)"
  using assms
  by (auto simp: reader_inv_def reader_turns_def before_read_def reader_env_ok_def undelivered_def
      input_room_def split: option.split poll.split)

lemma reader_inv_read:
  assumes "reader_inv w" "reader w = Reading st" "read_ok answer"
  shows "reader_inv (reader_reads answer st w)"
proof -
  from assms(1,2) have "length (read_buf st) = 512" by (simp add: reader_inv_def)
  with assms(3) obtain st' where st': "after_read answer st = Return (answer, st')"
    "length (read_buf st') = 512" "tx_stdin_data st' = Some answer" "packet_ok answer"
    by (rule after_read_packet)
  with assms(1,2) show ?thesis by (auto simp: reader_inv_def reader_reads_def)
qed

lemma reader_inv_poll:
  assumes "reader_inv w" "stream_answer_ok w answer"
  shows "reader_inv (poll_stream answer w)"
proof (cases "\<exists>p. answer = Ready (Some p)")
  case True
  then obtain p where p: "answer = Ready (Some p)" ..
  with assms have "prefix (received w @ [p]) (handed w)"
    by (auto simp: reader_inv_def intro: next_message_prefix)
  moreover from this assms(1) have "packet_ok p"
    by (auto simp: reader_inv_def list_all_iff elim: prefixE)
  then have "result_ok (stdin_stream_poll answer)"
    by (simp only: p stdin_stream_poll_ok)
  moreover have "result_bytes (stdin_stream_poll answer) = packet_bytes p"
    by (simp only: p stdin_stream_poll_bytes)
  ultimately show ?thesis
    using assms(1) p
    by (auto simp: reader_inv_def intro: reader_state_ok_mono [OF _ undelivered_got])
next
  case False
  with assms show ?thesis
    by (cases "(answer, w)" rule: poll_stream.cases) (auto simp: reader_inv_def result_ok_def)
qed

lemma reader_inv_same:
  "reader_inv w \<Longrightarrow> reader w' = reader w \<Longrightarrow> handed w' = handed w \<Longrightarrow> received w' = received w \<Longrightarrow>
   stdin_reads w' = stdin_reads w \<Longrightarrow> stream_results w' = stream_results w \<Longrightarrow> reader_inv w'"
  by (simp add: reader_inv_def)

lemma reader_inv_step: "reader_inv w \<Longrightarrow> stdio_step w w' \<Longrightarrow> reader_inv w'"
  by (erule stdio_step.cases)
    (auto intro: reader_inv_turn reader_inv_read reader_inv_poll elim: reader_inv_same)

interpretation reading: inductive_invariant stdio_initial stdio_step reader_inv
  by unfold_locales (auto intro: reader_inv_initial reader_inv_step)

section \<open>The writer\<close>

fun item_bytes :: "byte list option \<Rightarrow> byte list" where
  "item_bytes (Some bs) = bs"
| "item_bytes None = []"

fun output_bytes :: "tty_output \<Rightarrow> byte list" where
  "output_bytes (Chunk bs) = bs"
| "output_bytes (Line text) = []"

definition shown_bytes :: "stdio_world \<Rightarrow> byte list" where
  "shown_bytes w = concat (map output_bytes (screen w))"

definition taken_bytes :: "stdio_world \<Rightarrow> byte list" where
  "taken_bytes w = concat (map item_bytes (taken w))"

definition writer_inv :: "stdio_world \<Rightarrow> bool" where
  "writer_inv w \<longleftrightarrow>
     prefix (taken w) (accepted w) \<and> None \<notin> set (accepted w) \<and>
     undelivered (accepted w) (taken w) \<le> output_room \<and>
     subseq (shown_bytes w) (taken_bytes w) \<and>
     (if whole_writes w then shown_bytes w = taken_bytes w
      else length (shown_bytes w) \<noteq> length (taken_bytes w)) \<and>
     (writer w = Spawned \<longrightarrow> taken w = []) \<and>
     (writer w = WriterDone \<longrightarrow> taken w = accepted w \<and> \<not> sink_alive w \<and> \<not> borrowed w)"

lemma writer_inv_initial: "stdio_initial w \<Longrightarrow> writer_inv w"
  by (simp add: stdio_initial_def borrow_start_def writer_inv_def shown_bytes_def taken_bytes_def
      undelivered_def)

lemma writer_inv_same:
  "writer_inv w \<Longrightarrow> writer w' = writer w \<Longrightarrow> accepted w' = accepted w \<Longrightarrow> taken w' = taken w \<Longrightarrow>
   screen w' = screen w \<Longrightarrow> whole_writes w' = whole_writes w \<Longrightarrow>
   (sink_alive w' \<Longrightarrow> sink_alive w) \<Longrightarrow> (borrowed w' \<Longrightarrow> borrowed w) \<Longrightarrow> writer_inv w'"
  by (auto simp: writer_inv_def shown_bytes_def taken_bytes_def)

lemma writer_inv_send:
  assumes "writer_inv w" "sink_alive w" "sink_answer_ok w (stdout_item data) answer"
  shows "writer_inv (send_to_sink data answer w)"
proof (cases "answer = Taken")
  case True
  with assms show ?thesis
    by (auto simp: writer_inv_def send_to_sink_def stdout_item_def shown_bytes_def taken_bytes_def)
next
  case False
  with assms(1) show ?thesis by (simp add: send_to_sink_def)
qed

lemma writer_inv_takes:
  assumes "writer_inv w" "writer w = Writing" "next_message (accepted w) (taken w) = Some item"
  shows "writer_inv (writer_takes item written w)"
proof -
  from assms have pre: "prefix (taken w @ [item]) (accepted w)"
    by (auto simp: writer_inv_def intro: next_message_prefix)
  then have "item \<in> set (accepted w)" by (auto elim: prefixE)
  with assms(1) obtain data where item: "item = Some data" by (cases item) (auto simp: writer_inv_def)
  obtain bytes where bytes: "write_item (Inr item) written = Some bytes"
    "subseq bytes data" "length bytes = length data \<longleftrightarrow> bytes = data"
    using item by (cases written) (auto simp: min_def prefix_imp_subseq take_is_prefix)
  have "undelivered (accepted w) (taken w @ [item]) \<le> output_room"
    using assms(1) undelivered_got [of "accepted w" "taken w" item] by (simp add: writer_inv_def)
  moreover have "subseq (shown_bytes w @ bytes) (taken_bytes w @ data)"
    using assms(1) bytes(2) by (simp add: writer_inv_def list_emb_append_mono)
  moreover from assms(1) have "length (shown_bytes w) \<le> length (taken_bytes w)"
    unfolding writer_inv_def by (blast intro: list_emb_length)
  moreover from bytes(2) have "length bytes \<le> length data" by (rule list_emb_length)
  ultimately show ?thesis
    using assms(1,2) pre item bytes(1,3)
    by (auto simp: writer_inv_def writer_takes_def shown_bytes_def taken_bytes_def)
qed

lemma writer_inv_step: "writer_inv w \<Longrightarrow> stdio_step w w' \<Longrightarrow> writer_inv w'"
proof (erule stdio_step.cases, goal_cases)
  case (4 w0 data answer)
  then show ?case by (simp add: writer_inv_send)
next
  case (6 w0 item written)
  then show ?case by (simp add: writer_inv_takes)
next
  case (3 w0 answer)
  then show ?case by (auto elim: writer_inv_same)
qed (auto simp: writer_inv_def shown_bytes_def taken_bytes_def)

section \<open>The screen\<close>

text \<open>Lines printed by others stand before all output of the writer or after all of it.\<close>

definition screen_inv :: "stdio_world \<Rightarrow> bool" where
  "screen_inv w \<longleftrightarrow>
     (\<exists>early chunks late. screen w = map Line early @ map Chunk chunks @ map Line late \<and>
       (writer w = Spawned \<longrightarrow> chunks = [] \<and> late = []) \<and> (writer w = Writing \<longrightarrow> late = []))"

lemma screen_invI:
  "screen w = map Line early @ map Chunk chunks @ map Line late \<Longrightarrow>
   (writer w = Spawned \<Longrightarrow> chunks = [] \<and> late = []) \<Longrightarrow> (writer w = Writing \<Longrightarrow> late = []) \<Longrightarrow>
   screen_inv w"
  unfolding screen_inv_def by blast

lemma screen_inv_same:
  "screen_inv w \<Longrightarrow> screen w' = screen w \<Longrightarrow> writer w' = writer w \<Longrightarrow> screen_inv w'"
  by (simp add: screen_inv_def)

lemma screen_inv_takes:
  assumes "screen_inv w" "writer w = Writing" "item \<noteq> None"
  shows "screen_inv (writer_takes item written w)"
proof -
  from assms(1,2) obtain early chunks where "screen w = map Line early @ map Chunk chunks"
    by (auto simp: screen_inv_def)
  moreover from assms(3) obtain bytes where "write_item (Inr item) written = Some bytes"
    by (cases item; cases written) auto
  ultimately show ?thesis
    using assms(2)
    by (intro screen_invI [of _ early "chunks @ [bytes]" "[]"]) (simp_all add: writer_takes_def)
qed

lemma screen_inv_line:
  assumes "screen_inv w" "writer w \<noteq> Writing"
  shows "screen_inv (w\<lparr>screen := screen w @ [Line text]\<rparr>)"
proof -
  from assms(1) obtain early chunks late where
    scr: "screen w = map Line early @ map Chunk chunks @ map Line late"
    and spawned: "writer w = Spawned \<longrightarrow> chunks = [] \<and> late = []"
    by (auto simp: screen_inv_def)
  show ?thesis
  proof (cases "writer w = Spawned")
    case True
    with scr spawned show ?thesis
      by (intro screen_invI [of _ "early @ [text]" "[]" "[]"]) simp_all
  next
    case False
    with scr assms(2) show ?thesis
      by (intro screen_invI [of _ early chunks "late @ [text]"]) simp_all
  qed
qed

lemma screen_inv_lock:
  "screen_inv w \<Longrightarrow> writer w = Spawned \<Longrightarrow> screen_inv (w\<lparr>writer := Writing\<rparr>)"
  "screen_inv w \<Longrightarrow> writer w = Writing \<Longrightarrow> screen_inv (w\<lparr>writer := WriterDone\<rparr>)"
  unfolding screen_inv_def by fastforce+

definition output_inv :: "stdio_world \<Rightarrow> bool" where
  "output_inv w \<longleftrightarrow> writer_inv w \<and> screen_inv w"

lemma output_inv_initial: "stdio_initial w \<Longrightarrow> output_inv w"
  by (simp add: output_inv_def writer_inv_initial)
    (simp add: stdio_initial_def borrow_start_def screen_inv_def)

lemma output_inv_step: "output_inv w \<Longrightarrow> stdio_step w w' \<Longrightarrow> output_inv w'"
proof -
  assume inv: "output_inv w" and step: "stdio_step w w'"
  then have "writer_inv w'" by (auto simp: output_inv_def intro: writer_inv_step)
  moreover from step inv have "screen_inv w'"
  proof cases
    case (writer_item item written)
    with inv have "prefix (taken w @ [item]) (accepted w)" "None \<notin> set (accepted w)"
      by (auto simp: output_inv_def writer_inv_def intro: next_message_prefix)
    moreover from this have "item \<in> set (accepted w)" by (auto elim: prefixE)
    ultimately have "item \<noteq> None" by (cases item) auto
    with writer_item inv show ?thesis by (auto simp: output_inv_def intro: screen_inv_takes)
  qed (auto simp: output_inv_def intro: screen_inv_line screen_inv_lock elim: screen_inv_same)
  ultimately show ?thesis by (simp add: output_inv_def)
qed

interpretation display: inductive_invariant stdio_initial stdio_step output_inv
  by unfold_locales (auto intro: output_inv_initial output_inv_step)

definition sent_bytes :: "stdio_world \<Rightarrow> byte list" where
  "sent_bytes w = concat (map item_bytes (accepted w))"

lemma concat_map_Nil: "concat (map (\<lambda>x. []) xs) = []"
  by (induction xs) auto

lemma stdout_all_shown:
  "writer_inv w \<Longrightarrow> whole_writes w \<Longrightarrow> writer w = WriterDone \<Longrightarrow> shown_bytes w = sent_bytes w"
  by (simp add: writer_inv_def sent_bytes_def taken_bytes_def)

lemma whole_writes_step: "stdio_step w w' \<Longrightarrow> whole_writes w' \<Longrightarrow> whole_writes w"
  by (erule stdio_step.cases) (auto simp: writer_takes_def split: option.split_asm)

lemma before_read_full:
  "tx_stdin_data st = Some packet \<Longrightarrow> \<not> first_call st \<Longrightarrow> stop_answer env = NotReady \<Longrightarrow>
   data_answer env = NotReady \<Longrightarrow> before_read env st = Again st"
  unfolding before_read_def by simp

lemma reader_loop_again:
  "reader_loop envs st' packets = r \<Longrightarrow> before_read env st = Again st' \<Longrightarrow>
   reader_loop (env # envs) st packets = r"
  by (subst reader_loop.simps) (simp only: reader_turn.case)

lemma short_write:
  assumes "n < length data"
  shows "\<not> whole_writes (writer_takes (Some data) (Inr n) w)"
proof -
  have "data \<noteq> take n data"
  proof
    assume "data = take n data"
    from arg_cong [OF this, of length] assms show False by simp
  qed
  then show ?thesis by (simp add: writer_takes_def)
qed

section \<open>Stopping\<close>

text \<open>The reads that have been done, with the one that is blocking.\<close>

definition reads_to_come :: "stdio_world \<Rightarrow> nat" where
  "reads_to_come w = length (stdin_reads w) + (case reader w of Reading st \<Rightarrow> 1 | _ \<Rightarrow> 0)"

lemma reads_to_come_step:
  assumes "stdio_step w w'" "\<not> borrowed w"
  shows "\<not> borrowed w' \<and> reads_to_come w' \<le> reads_to_come w"
  using assms
  by cases
    (auto simp: reads_to_come_def reader_reads_def reader_turns_def before_read_def reader_env_ok_def
      split: run.split prod.split reader.split)

lemma stdin_reads_grow: "stdio_step w w' \<Longrightarrow> prefix (stdin_reads w) (stdin_reads w')"
  by (erule stdio_step.cases) (auto simp: reader_reads_def split: run.split)

section \<open>Well-formed states\<close>

definition stdio_ok :: "stdio_world \<Rightarrow> bool" where
  "stdio_ok w \<longleftrightarrow> reader_inv w \<and> output_inv w"

lemma stdio_ok_start: "stdio_ok borrow_start"
  by (simp add: stdio_ok_def reader_inv_initial output_inv_initial stdio_initial_def)

lemma stdio_ok_step: "stdio_ok w \<Longrightarrow> stdio_step w w' \<Longrightarrow> stdio_ok w'"
  by (auto simp: stdio_ok_def intro: reader_inv_step output_inv_step)

section \<open>Delivery\<close>

lemma stdin_delivery:
  assumes "reach stdio_initial stdio_step w"
  shows "prefix (concat (map result_bytes (stream_results w))) (concat (map packet_bytes (stdin_reads w)))"
  using reading.inv_reach [OF assms] input_channel.got_map_prefix [OF assms, of packet_bytes]
  by (simp add: reader_inv_def)

lemma stdout_delivery:
  assumes "reach stdio_initial stdio_step w" "whole_writes w"
  shows "prefix (shown_bytes w) (sent_bytes w)"
  using display.inv_reach [OF assms(1)] assms(2) output_channel.got_map_prefix [OF assms(1), of item_bytes]
  by (simp add: output_inv_def writer_inv_def sent_bytes_def taken_bytes_def)

lemma stdout_part:
  assumes "reach stdio_initial stdio_step w"
  shows "subseq (shown_bytes w) (sent_bytes w)"
proof -
  have "subseq (shown_bytes w) (taken_bytes w)"
    using display.inv_reach [OF assms] by (simp add: output_inv_def writer_inv_def)
  moreover have "prefix (taken_bytes w) (sent_bytes w)"
    using output_channel.got_map_prefix [OF assms, of item_bytes] by (simp add: sent_bytes_def taken_bytes_def)
  ultimately show ?thesis by (blast intro: prefix_imp_subseq subseq_order.trans)
qed

section \<open>Draining\<close>

lemma writer_takes_one:
  assumes "writer_inv w" "writer w = Writing" "whole_writes w" "taken w \<noteq> accepted w"
  obtains w' where "stdio_step w w'" "writer w' = Writing" "whole_writes w'" "accepted w' = accepted w"
    "borrowed w' = borrowed w" "sink_alive w' = sink_alive w"
    "undelivered (accepted w') (taken w') < undelivered (accepted w) (taken w)"
proof -
  from assms(1) have pre: "prefix (taken w) (accepted w)" and data: "None \<notin> set (accepted w)"
    by (simp_all add: writer_inv_def)
  with assms(4) have len: "length (taken w) < length (accepted w)"
    by (metis append_Nil2 prefix_def prefix_length_le length_0_conv length_append
        nat_less_le add_cancel_right_right)
  then have "accepted w ! length (taken w) \<noteq> None" using data by (metis nth_mem)
  then obtain d where d: "accepted w ! length (taken w) = Some d" by auto
  let ?w = "writer_takes (Some d) (Inr (length d)) w"
  have "stdio_step w ?w"
    using assms(2) len d by (intro stdio_step.writer_item) (simp_all add: next_message_def)
  moreover have "writer ?w = Writing" "whole_writes ?w"
    using assms(2,3) by (simp_all add: writer_takes_def)
  moreover have "undelivered (accepted ?w) (taken ?w) < undelivered (accepted w) (taken w)"
    using len by (simp add: undelivered_def)
  ultimately show thesis using that by simp
qed

text \<open>Once nobody can send, the writer can always write what is left and end.\<close>

lemma writer_drains:
  assumes "writer_inv w" "writer w = Writing" "whole_writes w" "\<not> borrowed w" "\<not> sink_alive w"
  shows "\<exists>w'. stdio_step\<^sup>*\<^sup>* w w' \<and> writer w' = WriterDone \<and> whole_writes w' \<and> accepted w' = accepted w"
  using assms
proof (induction "undelivered (accepted w) (taken w)" arbitrary: w rule: less_induct)
  case less
  show ?case
  proof (cases "taken w = accepted w")
    case True
    with less.prems have "stdio_step w (w\<lparr>writer := WriterDone\<rparr>)" by (intro stdio_step.writer_end)
    with less.prems show ?thesis by (intro exI [of _ "w\<lparr>writer := WriterDone\<rparr>"]) auto
  next
    case False
    from writer_takes_one [OF less.prems(1-3) False]
    obtain w1 where w1: "stdio_step w w1" "writer w1 = Writing" "whole_writes w1"
      "accepted w1 = accepted w" "borrowed w1 = borrowed w" "sink_alive w1 = sink_alive w"
      "undelivered (accepted w1) (taken w1) < undelivered (accepted w) (taken w)"
      .
    have "writer_inv w1" using less.prems(1) w1(1) by (rule writer_inv_step)
    from less.hyps [OF w1(7) this w1(2,3)] w1(5,6) less.prems(4,5) obtain w' where
      w': "stdio_step\<^sup>*\<^sup>* w1 w'" "writer w' = WriterDone" "whole_writes w'" "accepted w' = accepted w1"
      by auto
    from converse_rtranclp_into_rtranclp [of stdio_step, OF w1(1) w'(1)] w' w1(4) show ?thesis by auto
  qed
qed

section \<open>Properties\<close>

text \<open>C25. The state of the threads stays well formed under every step of any of them: the reader has
  its buffer of 512 bytes and sends exactly what it has read, both channels deliver in order
  and within their capacity, only data goes into the output channel, the writer ends only when
  everything has been written and no sender is left, and no slice of the buffer panics.\<close>

theorem stdio_stays_well_formed:
  assumes "stdio_ok w" "stdio_step w w'"
  shows "stdio_ok w' \<and> reader w' \<noteq> ReaderPanicked \<and> stdio_ok borrow_start"
  using stdio_ok_step [OF assms] stdio_ok_start by (auto simp: stdio_ok_def reader_inv_def)

theorem stdio_stays_well_formed_witness:
  "stdio_ok read_world \<and> length (read_buf sent_once) = 512"
proof -
  from reading.inv_reach [OF reach_blocked] display.inv_reach [OF reach_blocked]
  have "stdio_ok blocked_world" by (simp add: stdio_ok_def)
  from stdio_stays_well_formed [OF this blocked_reads] show ?thesis
    by (simp add: sent_once_def)
qed

text \<open>C27. The memory of the input is bounded: each chunk the stream gives has between 1 and 512
  bytes, and never more than three packets, empty ones and errors included, have been read and
  not yet polled from the channel (two in the channel and one in the pending \<open>send\<close>), so never
  more than three times 512 bytes.\<close>

theorem stdin_buffer_bounded:
  assumes "reach stdio_initial stdio_step w"
  shows "(\<forall>bs. Ready (Some bs) \<in> set (stream_results w) \<longrightarrow> 0 < length bs \<and> length bs \<le> 512) \<and>
    length (stdin_reads w) \<le> length (received w) + 3 \<and>
    length (concat (map packet_bytes (stdin_reads w))) \<le>
      length (concat (map result_bytes (stream_results w))) + 3 * 512"
proof -
  from reading.inv_reach [OF assms] have inv: "reader_inv w" .
  then obtain rest where rest: "handed w = received w @ rest"
    by (auto simp: reader_inv_def elim: prefixE)
  from inv have "undelivered (handed w) (received w) \<le> 3"
    by (cases "reader w") (auto simp: reader_inv_def input_room_def)
  with rest have "length rest \<le> 3" by (simp add: undelivered_def)
  moreover from inv rest have "\<forall>p \<in> set rest. length (packet_bytes p) \<le> 512"
    by (simp add: reader_inv_def list_all_iff packet_ok_def)
  then have "length (concat (map packet_bytes rest)) \<le> length rest * 512" by (rule length_packets)
  ultimately have "length (concat (map packet_bytes rest)) \<le> 3 * 512" by simp
  with inv rest \<open>length rest \<le> 3\<close> show ?thesis by (auto simp: reader_inv_def list_all_iff result_ok_def)
qed

theorem stdin_buffer_bounded_witness:
  "length (stdin_reads typed_world) \<le> 1 + 3 \<and>
   length (concat (map packet_bytes (stdin_reads typed_world))) \<le> 2 + 3 * 512"
  using stdin_buffer_bounded [OF reach_typed] by (simp add: typed_world_def)

text \<open>C32. The reader stops: after the borrower has returned, at most the read that was blocking then
  completes; its chunk is the only one that may be lost, no further read is begun, and the
  thread ends at its next turn (the first call of the closure apart, which only marks itself).\<close>

theorem reader_stops_after_return:
  assumes "\<not> borrowed w" "stdio_step\<^sup>*\<^sup>* w w'"
  shows "length (stdin_reads w') \<le> length (stdin_reads w) + 1 \<and>
    ((\<forall>st. reader w \<noteq> Reading st) \<longrightarrow> stdin_reads w' = stdin_reads w) \<and>
    (\<forall>env st. reader w' = Polling st \<and> \<not> first_call st \<and> reader_env_ok w' env \<longrightarrow>
       reader (reader_turns env st w') = ReaderDone)"
proof -
  from assms(2,1) have "\<not> borrowed w' \<and> reads_to_come w' \<le> reads_to_come w"
    by (induction rule: rtranclp_induct) (auto dest: reads_to_come_step)
  moreover from assms(2) have "prefix (stdin_reads w) (stdin_reads w')"
    by (induction rule: rtranclp_induct) (auto dest: stdin_reads_grow intro: prefix_order.trans)
  ultimately show ?thesis
    by (auto simp: reads_to_come_def reader_env_ok_def reader_turns_def before_read_def prefix_def
        split: reader.split_asm)
qed

theorem reader_stops_after_return_witness:
  "length (stdin_reads (read_world\<lparr>borrowed := False\<rparr>)) \<le> length (stdin_reads (borrow_end blocked_world)) + 1"
proof -
  have "stdio_step (borrow_end blocked_world) (reader_reads (Inr [104, 105]) called_once (borrow_end blocked_world))"
    by (rule stdio_step.reader_read) (simp_all add: blocked_world_def read_ok_def)
  moreover have "reader_reads (Inr [104, 105]) called_once (borrow_end blocked_world) =
      read_world\<lparr>borrowed := False\<rparr>"
    by (simp add: reader_reads_def after_read_def Let_def read_into_def called_once_def borrow_end_def
        stdin_state_new_def blocked_world_def read_world_def sent_once_def borrow_start_def)
  ultimately have "stdio_step\<^sup>*\<^sup>* (borrow_end blocked_world) (read_world\<lparr>borrowed := False\<rparr>)" by simp
  from reader_stops_after_return [OF _ this] show ?thesis by simp
qed

text \<open>C28. What the borrower sends reaches the terminal in order, and the terminal never shows anything
  else: what has been written to standard output is a subsequence of what the sink has taken,
  and at most ten chunks wait in between. As long as no write has been short or failed it is
  a prefix, and all of it once the writer has ended; and then a writer that has started can always
  end, with everything shown, once the borrower and its sink are gone.\<close>

theorem stdout_bytes_in_order:
  assumes "reach stdio_initial stdio_step w"
  shows "subseq (shown_bytes w) (sent_bytes w) \<and> undelivered (accepted w) (taken w) \<le> 10 \<and>
    (whole_writes w \<longrightarrow>
      prefix (shown_bytes w) (sent_bytes w) \<and> (writer w = WriterDone \<longrightarrow> shown_bytes w = sent_bytes w) \<and>
      (writer w = Writing \<and> \<not> borrowed w \<and> \<not> sink_alive w \<longrightarrow>
        (\<exists>w'. stdio_step\<^sup>*\<^sup>* w w' \<and> writer w' = WriterDone \<and> shown_bytes w' = sent_bytes w)))"
proof -
  from display.inv_reach [OF assms] have inv: "writer_inv w" by (simp add: output_inv_def)
  have "\<exists>w'. stdio_step\<^sup>*\<^sup>* w w' \<and> writer w' = WriterDone \<and> shown_bytes w' = sent_bytes w"
    if "whole_writes w" "writer w = Writing" "\<not> borrowed w" "\<not> sink_alive w"
  proof -
    from writer_drains [OF inv that(2,1,3,4)] obtain w' where w': "stdio_step\<^sup>*\<^sup>* w w'"
      "writer w' = WriterDone" "whole_writes w'" "accepted w' = accepted w"
      by blast
    from w'(1) inv have "writer_inv w'"
      by (induction rule: rtranclp_induct) (auto intro: writer_inv_step)
    from stdout_all_shown [OF this w'(3,2)] w' show ?thesis by (auto simp: sent_bytes_def)
  qed
  moreover from inv have "undelivered (accepted w) (taken w) \<le> 10"
    by (simp add: writer_inv_def output_room_def)
  ultimately show ?thesis
    using stdout_part [OF assms] stdout_delivery [OF assms] stdout_all_shown [OF inv] by blast
qed

theorem stdout_bytes_in_order_witness:
  "shown_bytes shown_world = [1, 2, 3] \<and> shown_bytes shown_world = sent_bytes shown_world"
  using stdout_bytes_in_order [OF reach_shown]
  by (simp add: shown_world_def borrow_start_def shown_bytes_def)

text \<open>C33. A short write loses output for good: the writer calls \<open>write\<close> once and ignores its result,
  so after a write that takes fewer bytes than the chunk has, standard output stays behind what
  the writer has taken from the channel, whatever happens later.\<close>

theorem short_write_loses_output:
  assumes "reach stdio_initial stdio_step w" "writer w = Writing"
    and "next_message (accepted w) (taken w) = Some (Some data)" "n < length data"
    and "stdio_step\<^sup>*\<^sup>* (writer_takes (Some data) (Inr n) w) w'"
  shows "length (shown_bytes w') < length (taken_bytes w')"
proof -
  have step: "stdio_step w (writer_takes (Some data) (Inr n) w)" using assms(2,3) by (rule stdio_step.writer_item)
  have short: "\<not> whole_writes (writer_takes (Some data) (Inr n) w)"
    using assms(4) by (rule short_write)
  from assms(5) have "\<not> whole_writes w' \<and> reach stdio_initial stdio_step w'"
    by (induction rule: rtranclp_induct)
      (auto simp: short intro: reach_step [OF assms(1) step] reach_step dest: whole_writes_step)
  with display.inv_reach [of w'] show ?thesis
    by (auto simp: output_inv_def writer_inv_def dest: list_emb_length)
qed

theorem short_write_loses_output_witness:
  "shown_bytes (writer_takes (Some [1, 2, 3]) (Inr 2) sending_world) = [1, 2] \<and>
   length (shown_bytes (writer_takes (Some [1, 2, 3]) (Inr 2) sending_world)) <
     length (taken_bytes (writer_takes (Some [1, 2, 3]) (Inr 2) sending_world))"
proof -
  have "writer sending_world = Writing"
    "next_message (accepted sending_world) (taken sending_world) = Some (Some [1, 2, 3])"
    by (simp_all add: sending_world_def borrow_start_def next_message_def)
  from short_write_loses_output [OF reach_sending this, of 2, OF _ rtranclp.rtrancl_refl] show ?thesis
    by (simp add: writer_takes_def sending_world_def borrow_start_def shown_bytes_def)
qed

text \<open>What other threads print does not cut into the borrower's output: every line stands before
  all of it or, once the writer has ended, after all of it.\<close>

theorem lines_do_not_interleave:
  assumes "reach stdio_initial stdio_step w" "whole_writes w"
  shows "\<exists>early chunks late. screen w = map Line early @ map Chunk chunks @ map Line late \<and>
    (late \<noteq> [] \<longrightarrow> concat chunks = sent_bytes w)"
proof -
  from display.inv_reach [OF assms(1)] have inv: "writer_inv w" "screen_inv w"
    by (simp_all add: output_inv_def)
  from inv(2) obtain early chunks late where
    scr: "screen w = map Line early @ map Chunk chunks @ map Line late"
    and "writer w = Spawned \<longrightarrow> chunks = [] \<and> late = []" "writer w = Writing \<longrightarrow> late = []"
    unfolding screen_inv_def by blast
  then have late: "late \<noteq> [] \<longrightarrow> writer w = WriterDone" by (cases "writer w") auto
  from scr have "shown_bytes w = concat chunks" by (simp add: shown_bytes_def o_def concat_map_Nil)
  with late stdout_all_shown [OF inv(1) assms(2)] have "late \<noteq> [] \<longrightarrow> concat chunks = sent_bytes w"
    by simp
  with scr show ?thesis by blast
qed

theorem lines_do_not_interleave_witness:
  "\<exists>early chunks late. [Chunk [1, 2, 3], Line ''done''] =
     map Line early @ map Chunk chunks @ map Line late"
  using lines_do_not_interleave [OF reach_shown] by (auto simp: shown_world_def borrow_start_def)

text \<open>The reader thread spins: while the channel is full every call of the closure goes round
  again without blocking or yielding, for as many polls of the pending \<open>send\<close> as there are.\<close>

theorem full_channel_spins_reader:
  assumes "\<forall>env \<in> set envs. stop_answer env = NotReady \<and> data_answer env = NotReady"
    and "tx_stdin_data st = Some packet" "\<not> first_call st"
  shows "reader_loop envs st packets = Starved"
  using assms(1)
proof (induction envs)
  case (Cons env envs)
  from Cons have "reader_loop envs st packets = Starved" by (meson list.set_intros(2))
  moreover from Cons.prems have "before_read env st = Again st"
    by (intro before_read_full [OF assms(2,3)]) (meson list.set_intros(1))+
  ultimately show ?case by (rule reader_loop_again)
qed simp

theorem full_channel_spins_reader_witness:
  "reader_loop (replicate 1000 sample_reader_env) sent_once [Inr [104, 105]] = Starved"
  by (rule full_channel_spins_reader) (simp_all add: sample_reader_env_def sent_once_def)

end
