(* ===== verification/Terminal.thy ===== *)
theory Terminal
  imports Conversation StdioProps
begin

text \<open>
  The open workflow over the borrowed standard streams, as \<open>open_cli\<close> runs it: the workflow polls
  the input stream, and its user sink is the output sink.
\<close>

section \<open>The keyboard\<close>

text \<open>Of the answers at hand, those the loop of \<open>read_keyboard\<close> polls.\<close>

fun polls_made :: "(byte list option, string) poll list \<Rightarrow> (byte list option, string) poll list" where
  "polls_made (Ready (Some b) # as) = Ready (Some b) # polls_made as"
| "polls_made (a # as) = [a]"
| "polls_made [] = []"

lemma keyed_polls: "keyed as = concat (map result_bytes (polls_made as))"
  by (induction as rule: polls_made.induct) auto

text \<open>An I/O error becomes an error of the workflow with its text.\<close>

fun as_workflow_poll :: "(byte list option, io_error) poll \<Rightarrow> (byte list option, string) poll" where
  "as_workflow_poll (Ready x) = Ready x"
| "as_workflow_poll NotReady = NotReady"
| "as_workflow_poll (PollErr e) = PollErr (err_text e)"

lemma as_workflow_bytes [simp]: "result_bytes (as_workflow_poll a) = result_bytes a"
  by (cases a rule: result_bytes.cases) auto

text \<open>The polls of the workflow that were answered are those the stream has answered.\<close>

definition types_into :: "stdio_world \<Rightarrow> wf_env list \<Rightarrow> bool" where
  "types_into t es \<longleftrightarrow>
     filter (\<lambda>a. a \<noteq> NotReady) (concat (map (\<lambda>e. polls_made (user_rx e)) es)) =
     map as_workflow_poll (stream_results t)"

lemma result_bytes_filter:
  "concat (map result_bytes (filter (\<lambda>a. a \<noteq> NotReady) as)) = concat (map result_bytes as)"
  by (induction as) auto

lemma types_into_bytes:
  assumes "types_into t es"
  shows "concat (map (\<lambda>e. keyed (user_rx e)) es) = concat (map result_bytes (stream_results t))"
proof -
  have "concat (map (\<lambda>e. keyed (user_rx e)) es) =
      concat (map result_bytes (concat (map (\<lambda>e. polls_made (user_rx e)) es)))"
    by (induction es) (simp_all add: keyed_polls)
  also have "\<dots> = concat (map result_bytes
      (filter (\<lambda>a. a \<noteq> NotReady) (concat (map (\<lambda>e. polls_made (user_rx e)) es))))"
    by (rule result_bytes_filter [symmetric])
  also have "\<dots> = concat (map result_bytes (map as_workflow_poll (stream_results t)))"
    by (simp only: assms [unfolded types_into_def])
  also have "\<dots> = concat (map result_bytes (stream_results t))"
    by (simp add: o_def)
  finally show ?thesis .
qed

section \<open>The screen\<close>

text \<open>What the sink has taken from the workflow is what it has passed to the channel.\<close>

definition shows_output_of :: "stdio_world \<Rightarrow> wf_state \<Rightarrow> bool" where
  "shows_output_of t s \<longleftrightarrow> sent_bytes t = wf_user_tx s"

end
