(* ===== verification/Pipes.thy ===== *)
theory Pipes
  imports StdioProps
begin

text \<open>
  What \<open>borrow_stdio\<close> promises, without threads, packets and channels: two byte pipes, one from
  the keyboard to the borrower and one from the borrower to the screen. The threads refine it.
\<close>

section \<open>The abstract pipes\<close>




section \<open>The abstraction\<close>








section \<open>One lemma per step\<close>






section \<open>Property\<close>



end
