(* ===== verification/Codecs.thy ===== *)
theory Codecs
  imports Prelude
begin

text \<open>
  The codecs of a connection (\<open>protocol/src/codecs.rs\<close>): the byte codec with errors of the
  \<open>failure\<close> crate, and the serializer and deserializer that \<open>split\<close> builds on it. \<open>BytesCodec\<close>
  and bincode are crates the code uses; they are parameters, and what is relied on is
  \<open>bytes_codec_ok\<close> and \<open>bincode_ok\<close>.
\<close>

section \<open>The byte codec\<close>

datatype failure = FromIo io_error | FromBincode string

text \<open>A decoder takes bytes off the buffer, an encoder appends to it.\<close>

record bytes_codec =
  bc_decode :: "byte list \<Rightarrow> (io_error + byte list option) \<times> byte list"
  bc_encode :: "byte list \<Rightarrow> byte list \<Rightarrow> (io_error + unit) \<times> byte list"

datatype failure_bytes_codec = FailureBytesCodec bytes_codec

definition failure_bytes_codec_new :: "bytes_codec \<Rightarrow> failure_bytes_codec" where
  "failure_bytes_codec_new inner = FailureBytesCodec inner"

text \<open>The operator \<open>?\<close> turns an I/O error into one of \<open>failure\<close>; the buffer is left as it is.\<close>

fun decode :: "failure_bytes_codec \<Rightarrow> byte list \<Rightarrow> (failure + byte list option) \<times> byte list" where
  "decode (FailureBytesCodec inner) src =
     (case bc_decode inner src of
        (Inl e, src') \<Rightarrow> (Inl (FromIo e), src')
      | (Inr frame, src') \<Rightarrow> (Inr frame, src'))"

fun encode :: "failure_bytes_codec \<Rightarrow> byte list \<Rightarrow> byte list \<Rightarrow> (failure + unit) \<times> byte list" where
  "encode (FailureBytesCodec inner) item dst =
     (case bc_encode inner item dst of
        (Inl e, dst') \<Rightarrow> (Inl (FromIo e), dst')
      | (Inr _, dst') \<Rightarrow> (Inr (), dst'))"

section \<open>The two ends of a connection\<close>

text \<open>
  \<open>Serializer\<close>: bincode, then the codec into the write buffer; \<open>Deserializer\<close>: the codec on the
  read buffer, then bincode on its frame.
\<close>

record 'm serializer =
  ser_message :: "'m \<Rightarrow> byte list"
  ser_codec :: failure_bytes_codec
  ser_buffer :: "byte list"

record 'm deserializer =
  de_message :: "byte list \<Rightarrow> string + 'm"
  de_codec :: failure_bytes_codec
  de_buffer :: "byte list"

definition split_connection ::
  "bytes_codec \<Rightarrow> ('s \<Rightarrow> byte list) \<Rightarrow> (byte list \<Rightarrow> string + 'd) \<Rightarrow> 's serializer \<times> 'd deserializer" where
  "split_connection inner ser de =
     (\<lparr>ser_message = ser, ser_codec = failure_bytes_codec_new inner, ser_buffer = []\<rparr>,
      \<lparr>de_message = de, de_codec = failure_bytes_codec_new inner, de_buffer = []\<rparr>)"

definition write_message :: "'m \<Rightarrow> 'm serializer \<Rightarrow> (failure + unit) \<times> 'm serializer" where
  "write_message m s =
     (case encode (ser_codec s) (ser_message s m) (ser_buffer s) of
        (r, buf) \<Rightarrow> (r, s\<lparr>ser_buffer := buf\<rparr>))"

definition read_message :: "'m deserializer \<Rightarrow> (failure + 'm option) \<times> 'm deserializer" where
  "read_message d =
     (case decode (de_codec d) (de_buffer d) of
        (Inl e, buf) \<Rightarrow> (Inl e, d\<lparr>de_buffer := buf\<rparr>)
      | (Inr None, buf) \<Rightarrow> (Inr None, d\<lparr>de_buffer := buf\<rparr>)
      | (Inr (Some frame), buf) \<Rightarrow>
          (case de_message d frame of
             Inl e \<Rightarrow> (Inl (FromBincode e), d\<lparr>de_buffer := buf\<rparr>)
           | Inr m \<Rightarrow> (Inr (Some m), d\<lparr>de_buffer := buf\<rparr>)))"

text \<open>
  The bytes written and not yet read are those of the write buffer, here also those inside the
  socket. A read takes as many of them as the socket gives, in order; \<open>transfer_all\<close> is the case
  that it gives all.
\<close>

definition transfer :: "nat \<Rightarrow> 's serializer \<Rightarrow> 'd deserializer \<Rightarrow> 's serializer \<times> 'd deserializer" where
  "transfer n s d =
     (s\<lparr>ser_buffer := drop n (ser_buffer s)\<rparr>, d\<lparr>de_buffer := de_buffer d @ take n (ser_buffer s)\<rparr>)"

definition transfer_all :: "'s serializer \<Rightarrow> 'd deserializer \<Rightarrow> 's serializer \<times> 'd deserializer" where
  "transfer_all s d = transfer (length (ser_buffer s)) s d"

section \<open>What is relied on\<close>

text \<open>
  \<open>BytesCodec\<close> \<open>just ships bytes around\<close>: it encodes bytes as they are and decodes whatever is in
  the buffer as one frame. bincode's \<open>deserialize\<close> reads one value from the front and ignores
  what follows it; no value is serialized to nothing. Only the messages in use matter.
\<close>

definition bytes_codec_ok :: "bytes_codec \<Rightarrow> bool" where
  "bytes_codec_ok c \<longleftrightarrow>
     (\<forall>src. bc_decode c src = (Inr (if src = [] then None else Some src), [])) \<and>
     (\<forall>item dst. bc_encode c item dst = (Inr (), dst @ item))"

definition bincode_ok :: "'m list \<Rightarrow> ('m \<Rightarrow> byte list) \<Rightarrow> (byte list \<Rightarrow> string + 'm) \<Rightarrow> bool" where
  "bincode_ok ms ser de \<longleftrightarrow> (\<forall>m \<in> set ms. ser m \<noteq> [] \<and> (\<forall>rest. de (ser m @ rest) = Inr m))"

definition connection_ok :: "'m list \<Rightarrow> 'm serializer \<Rightarrow> 'm deserializer \<Rightarrow> bool" where
  "connection_ok ms s d \<longleftrightarrow>
     (\<exists>inner. bytes_codec_ok inner \<and> ser_codec s = FailureBytesCodec inner \<and>
       de_codec d = FailureBytesCodec inner) \<and>
     bincode_ok ms (ser_message s) (de_message d)"

section \<open>Lemmas\<close>

lemma split_connection_ok:
  "bytes_codec_ok inner \<Longrightarrow> bincode_ok ms ser de \<Longrightarrow> split_connection inner ser de = (s, d) \<Longrightarrow>
   connection_ok ms s d \<and> ser_buffer s = [] \<and> de_buffer d = []"
  by (auto simp: split_connection_def failure_bytes_codec_new_def connection_ok_def)

lemma write_message_ok:
  "connection_ok ms s d \<Longrightarrow>
   write_message m s = (Inr (), s\<lparr>ser_buffer := ser_buffer s @ ser_message s m\<rparr>)"
  by (auto simp: connection_ok_def write_message_def bytes_codec_ok_def)

text \<open>A read of a chunk takes it for one frame.\<close>

definition frame_result :: "(byte list \<Rightarrow> string + 'm) \<Rightarrow> byte list \<Rightarrow> failure + 'm option" where
  "frame_result de c =
     (if c = [] then Inr None
      else case de c of Inl e \<Rightarrow> Inl (FromBincode e) | Inr m \<Rightarrow> Inr (Some m))"

lemma read_message_frame:
  assumes "connection_ok ms s d"
  shows "read_message d = (frame_result (de_message d) (de_buffer d), d\<lparr>de_buffer := []\<rparr>)"
  using assms by (auto simp: connection_ok_def bytes_codec_ok_def read_message_def frame_result_def
      split: sum.split)

lemma read_message_empty:
  "connection_ok ms s d \<Longrightarrow> de_buffer d = [] \<Longrightarrow> read_message d = (Inr None, d)"
  by (simp add: read_message_frame frame_result_def)

lemma read_message_front:
  assumes "connection_ok ms s d" "m \<in> set ms" "de_buffer d = ser_message s m @ rest"
  shows "read_message d = (Inr (Some m), d\<lparr>de_buffer := []\<rparr>)"
  using assms by (auto simp: read_message_frame frame_result_def connection_ok_def bincode_ok_def)

text \<open>Writing several messages without a transfer in between.\<close>

definition write_messages :: "'m list \<Rightarrow> 'm serializer \<Rightarrow> 'm serializer" where
  "write_messages ms s = fold (\<lambda>m s. snd (write_message m s)) ms s"

lemma connection_ok_buffer [simp]:
  "connection_ok ms (s\<lparr>ser_buffer := b\<rparr>) d = connection_ok ms s d"
  "connection_ok ms s (d\<lparr>de_buffer := b\<rparr>) = connection_ok ms s d"
  by (simp_all add: connection_ok_def)

lemma write_messages_ok:
  "connection_ok ks s d \<Longrightarrow>
   write_messages ms s = s\<lparr>ser_buffer := ser_buffer s @ concat (map (ser_message s) ms)\<rparr>"
proof (induction ms arbitrary: s)
  case (Cons m ms)
  have "write_messages (m # ms) s = write_messages ms (s\<lparr>ser_buffer := ser_buffer s @ ser_message s m\<rparr>)"
    using Cons.prems by (simp add: write_messages_def write_message_ok)
  with Cons show ?case by simp
qed (simp add: write_messages_def)

section \<open>Properties\<close>

text \<open>A run in which every message is transferred and read before the next is written.\<close>

fun exchange :: "'m list \<Rightarrow> 'm serializer \<Rightarrow> 'm deserializer \<Rightarrow> (failure + 'm option) list" where
  "exchange [] s d = []"
| "exchange (m # ms) s d =
     (case transfer_all (snd (write_message m s)) d of (s1, d1) \<Rightarrow>
       (case read_message d1 of (r, d2) \<Rightarrow> r # exchange ms s1 d2))"

text \<open>Messages survive the connection when each is read by itself: whatever is written, in any
  number, comes out the same and in order at the other end of a split connection, and after
  the last there is nothing left to read.\<close>

theorem messages_round_trip:
  assumes "bytes_codec_ok inner" "bincode_ok ms ser de" "split_connection inner ser de = (s, d)"
  shows "exchange ms s d = map (\<lambda>m. Inr (Some m)) ms \<and> read_message d = (Inr None, d)"
proof -
  from split_connection_ok [OF assms] have ok: "connection_ok ms s d" "ser_buffer s = []" "de_buffer d = []"
    by simp_all
  have "set ks \<subseteq> set ms \<Longrightarrow> exchange ks s d = map (\<lambda>m. Inr (Some m)) ks" for ks
    using ok
  proof (induction ks arbitrary: s d)
    case (Cons m ks)
    let ?d1 = "d\<lparr>de_buffer := ser_message s m\<rparr>"
    from Cons.prems have "transfer_all (snd (write_message m s)) d = (s, ?d1)"
      by (simp add: transfer_def transfer_all_def write_message_ok)
    moreover from Cons.prems have "read_message ?d1 = (Inr (Some m), ?d1\<lparr>de_buffer := []\<rparr>)"
      by (intro read_message_front [of ms s _ m "[]"]) simp_all
    ultimately show ?case using Cons by simp
  qed simp
  with ok read_message_empty show ?thesis by blast
qed

text \<open>The codec does not frame: when several messages have been written before the other end
  reads, one read takes all their bytes for one frame, the first message is decoded from it
  and the others are gone.\<close>

theorem coalesced_messages_are_lost:
  assumes "bytes_codec_ok inner" "bincode_ok (m # ms) ser de" "split_connection inner ser de = (s, d)"
    and "transfer_all (write_messages (m # ms) s) d = (s', d')" "read_message d' = (r, d'')"
  shows "r = Inr (Some m) \<and> read_message d'' = (Inr None, d'')"
proof -
  from split_connection_ok [OF assms(1-3)] have ok: "connection_ok (m # ms) s d" "ser_buffer s = []" "de_buffer d = []"
    by simp_all
  with assms(4) have d': "d' = d\<lparr>de_buffer := ser_message s m @ concat (map (ser_message s) ms)\<rparr>"
    by (auto simp: transfer_def transfer_all_def write_messages_ok [OF ok(1)])
  with ok(1) have "read_message d' = (Inr (Some m), d'\<lparr>de_buffer := []\<rparr>)"
    by (intro read_message_front [of "m # ms" s _ m]) simp_all
  with assms(5) d' ok(1) show ?thesis by (auto intro: read_message_empty [of "m # ms" s])
qed

section \<open>Witnesses\<close>

text \<open>A codec that passes bytes on, and numbers in unary with a final zero.\<close>

definition sample_codec :: bytes_codec where
  "sample_codec =
     \<lparr>bc_decode = (\<lambda>src. (Inr (if src = [] then None else Some src), [])),
      bc_encode = (\<lambda>item dst. (Inr (), dst @ item))\<rparr>"

definition sample_ser :: "nat \<Rightarrow> byte list" where
  "sample_ser n = replicate n 1 @ [0]"

fun sample_de :: "byte list \<Rightarrow> string + nat" where
  "sample_de [] = Inl ''unexpected end of file''"
| "sample_de (b # bs) = (if b = 0 then Inr 0 else map_sum id Suc (sample_de bs))"

lemma sample_codec_ok: "bytes_codec_ok sample_codec" "bincode_ok ns sample_ser sample_de"
proof -
  show "bytes_codec_ok sample_codec" by (simp add: bytes_codec_ok_def sample_codec_def)
  have "sample_de (sample_ser n @ rest) = Inr n" for n rest
    by (induction n) (simp_all add: sample_ser_def)
  then show "bincode_ok ns sample_ser sample_de" by (simp add: bincode_ok_def sample_ser_def)
qed

theorem messages_round_trip_witness:
  "exchange [3, 0, 7] (fst (split_connection sample_codec sample_ser sample_de))
     (snd (split_connection sample_codec sample_ser sample_de)) = [Inr (Some 3), Inr (Some 0), Inr (Some 7)]"
  using messages_round_trip [OF sample_codec_ok, of _ _ "[3, 0, 7]"] by simp

definition sample_connection :: "nat serializer \<times> nat deserializer" where
  "sample_connection = split_connection sample_codec sample_ser sample_de"

definition sample_reader :: "nat deserializer" where
  "sample_reader = snd (transfer_all (write_messages [3, 7] (fst sample_connection)) (snd sample_connection))"

theorem coalesced_messages_are_lost_witness:
  "fst (read_message sample_reader) = Inr (Some 3) \<and>
   fst (read_message (snd (read_message sample_reader))) = Inr None"
proof -
  have "split_connection sample_codec sample_ser sample_de = (fst sample_connection, snd sample_connection)"
    by (simp add: sample_connection_def)
  from coalesced_messages_are_lost [OF sample_codec_ok this, of 3 "[7]"
      "fst (transfer_all (write_messages [3, 7] (fst sample_connection)) (snd sample_connection))" sample_reader
      "fst (read_message sample_reader)" "snd (read_message sample_reader)"]
  show ?thesis by (simp add: sample_reader_def)
qed

end
