(* ===== verification/Schedule.thy ===== *)
theory Schedule
  imports Codecs "HOL-Library.Sublist"
begin

text \<open>
  What a connection (\<open>protocol/src/codecs.rs\<close>) does under any schedule: the writer sends when it
  likes, the socket hands over as many of the bytes on their way as it likes, and the reader
  polls when it likes. A read may hold several messages, or end inside one.
\<close>

datatype 'm wire_event = Send 'm | Arrive nat | Receive

fun run_wire :: "'m wire_event list \<Rightarrow> 'm serializer \<Rightarrow> 'm deserializer \<Rightarrow> (failure + 'm option) list" where
  "run_wire [] s d = []"
| "run_wire (Send m # evs) s d = run_wire evs (snd (write_message m s)) d"
| "run_wire (Arrive n # evs) s d = (case transfer n s d of (s1, d1) \<Rightarrow> run_wire evs s1 d1)"
| "run_wire (Receive # evs) s d = (case read_message d of (r, d1) \<Rightarrow> r # run_wire evs s d1)"

fun messages_sent :: "'m wire_event list \<Rightarrow> 'm list" where
  "messages_sent [] = []"
| "messages_sent (Send m # evs) = m # messages_sent evs"
| "messages_sent (_ # evs) = messages_sent evs"

fun messages_got :: "(failure + 'm option) list \<Rightarrow> 'm list" where
  "messages_got [] = []"
| "messages_got (Inr (Some m) # rs) = m # messages_got rs"
| "messages_got (_ # rs) = messages_got rs"

section \<open>The bytes of the reads\<close>

text \<open>The chunk of each read, with \<open>p\<close> on their way and \<open>a\<close> arrived.\<close>

fun chunks :: "('m \<Rightarrow> byte list) \<Rightarrow> 'm wire_event list \<Rightarrow> byte list \<Rightarrow> byte list \<Rightarrow> byte list list" where
  "chunks ser [] p a = []"
| "chunks ser (Send m # evs) p a = chunks ser evs (p @ ser m) a"
| "chunks ser (Arrive n # evs) p a = chunks ser evs (drop n p) (a @ take n p)"
| "chunks ser (Receive # evs) p a = a # chunks ser evs p []"

lemma run_wire_chunks:
  "connection_ok ms s d \<Longrightarrow>
   run_wire evs s d =
     map (frame_result (de_message d)) (chunks (ser_message s) evs (ser_buffer s) (de_buffer d))"
proof (induction evs arbitrary: s d)
  case (Cons ev evs)
  show ?case
  proof (cases ev)
    case (Send m)
    with Cons.prems Cons.IH [of "s\<lparr>ser_buffer := ser_buffer s @ ser_message s m\<rparr>" d] show ?thesis
      by (simp add: write_message_ok [of ms s d])
  next
    case (Arrive n)
    with Cons.prems Cons.IH [of "fst (transfer n s d)" "snd (transfer n s d)"] show ?thesis
      by (simp add: transfer_def)
  next
    case Receive
    with Cons.prems Cons.IH [of s "d\<lparr>de_buffer := []\<rparr>"] show ?thesis
      by (simp add: read_message_frame [of ms s d])
  qed
qed simp

text \<open>The reads are the bytes sent, cut somewhere.\<close>

lemma chunks_prefix:
  "prefix (concat (chunks ser evs p a)) (a @ p @ concat (map ser (messages_sent evs)))"
proof (induction ser evs p a rule: chunks.induct)
  case (3 ser n evs p a)
  have "a @ p = (a @ take n p) @ drop n p" by simp
  with 3 show ?case by (metis append.assoc chunks.simps(3) messages_sent.simps(3))
qed simp_all

section \<open>Reads that end with a message\<close>

text \<open>The reads \<open>cs\<close> hold the messages \<open>kss\<close>, each of them all messages it begins.\<close>

definition whole_messages :: "('m \<Rightarrow> byte list) \<Rightarrow> 'm list \<Rightarrow> byte list list \<Rightarrow> 'm list list \<Rightarrow> bool" where
  "whole_messages ser ms cs kss \<longleftrightarrow>
     cs = map (\<lambda>ks. concat (map ser ks)) kss \<and> prefix (concat kss) ms"

fun first_of :: "'m list \<Rightarrow> 'm option" where
  "first_of [] = None"
| "first_of (m # ms) = Some m"

lemma frame_result_whole:
  "bincode_ok ms ser de \<Longrightarrow> set ks \<subseteq> set ms \<Longrightarrow>
   frame_result de (concat (map ser ks)) = Inr (first_of ks)"
  by (cases ks) (auto simp: frame_result_def bincode_ok_def)

lemma reads_whole:
  assumes "bincode_ok ms ser de" "whole_messages ser ms cs kss"
  shows "map (frame_result de) cs = map (\<lambda>ks. Inr (first_of ks)) kss"
proof -
  have "set ks \<subseteq> set ms" if "ks \<in> set kss" for ks
    using assms(2) that by (fastforce simp: whole_messages_def dest!: set_mono_prefix)
  with assms frame_result_whole [OF assms(1)] show ?thesis by (simp add: whole_messages_def)
qed

lemma got_first: "subseq (messages_got (map (\<lambda>ks. Inr (first_of ks)) kss)) (concat kss)"
proof (induction kss)
  case (Cons ks kss)
  then show ?case by (cases ks) (auto intro: subseq_drop_many)
qed simp

lemma got_single:
  "\<forall>ks \<in> set kss. length ks \<le> 1 \<Longrightarrow> messages_got (map (\<lambda>ks. Inr (first_of ks)) kss) = concat kss"
proof (induction kss)
  case (Cons ks kss)
  then show ?case by (cases ks) auto
qed simp

lemma concat_whole: "concat (map (\<lambda>ks. concat (map ser ks)) kss) = concat (map ser (concat kss))"
  by (induction kss) simp_all

lemma concat_sers:
  "bincode_ok ms ser de \<Longrightarrow> prefix ks ms \<Longrightarrow>
   concat (map ser ks) = concat (map ser ms) \<Longrightarrow> ks = ms"
  by (auto simp: prefix_def bincode_ok_def)

text \<open>
  What a connection delivers, over some codec and encoding: \<open>sent\<close> has been sent on it and \<open>got\<close>
  received, and no read has ended inside a message. It \<open>carries\<close> the messages if besides no two
  of them have shared a read.
\<close>

definition conveys :: "bool \<Rightarrow> 'm list \<Rightarrow> 'm list \<Rightarrow> bool" where
  "conveys single sent got \<longleftrightarrow>
     (\<exists>inner ser de s d evs kss. bytes_codec_ok inner \<and> bincode_ok sent ser de \<and>
       split_connection inner ser de = (s, d) \<and> messages_sent evs = sent \<and>
       whole_messages ser sent (chunks ser evs [] []) kss \<and>
       (single \<longrightarrow> (\<forall>ks \<in> set kss. length ks \<le> 1)) \<and>
       messages_got (run_wire evs s d) = got)"

abbreviation delivers :: "'m list \<Rightarrow> 'm list \<Rightarrow> bool" where
  "delivers \<equiv> conveys False"

abbreviation carries :: "'m list \<Rightarrow> 'm list \<Rightarrow> bool" where
  "carries \<equiv> conveys True"

lemma split_run_chunks:
  assumes "bytes_codec_ok inner" "bincode_ok ms ser de" "split_connection inner ser de = (s, d)"
  shows "run_wire evs s d = map (frame_result de) (chunks ser evs [] [])"
proof -
  from assms(3) have "ser_message s = ser" "de_message d = de"
    by (auto simp: split_connection_def)
  with split_connection_ok [OF assms] run_wire_chunks show ?thesis by metis
qed

lemma split_run_whole:
  assumes "bytes_codec_ok inner" "bincode_ok (messages_sent evs) ser de"
    and "split_connection inner ser de = (s, d)"
    and "whole_messages ser (messages_sent evs) (chunks ser evs [] []) kss"
  shows "run_wire evs s d = map (\<lambda>ks. Inr (first_of ks)) kss"
  using split_run_chunks [OF assms(1-3)] reads_whole [OF assms(2,4)] by simp

lemma conveysE:
  assumes "conveys single sent got"
  obtains kss where "got = messages_got (map (\<lambda>ks. Inr (first_of ks)) kss)" "prefix (concat kss) sent"
    "single \<Longrightarrow> \<forall>ks \<in> set kss. length ks \<le> 1"
proof -
  from assms obtain inner ser de s d evs kss where
    "bytes_codec_ok inner" "bincode_ok (messages_sent evs) ser de" "split_connection inner ser de = (s, d)"
    "whole_messages ser (messages_sent evs) (chunks ser evs [] []) kss" and
    sent: "messages_sent evs = sent" and single: "single \<longrightarrow> (\<forall>ks \<in> set kss. length ks \<le> 1)" and
    got: "messages_got (run_wire evs s d) = got"
    by (auto simp: conveys_def)
  from split_run_whole [OF this(1-4)] this(4) sent have
    "run_wire evs s d = map (\<lambda>ks. Inr (first_of ks)) kss" "prefix (concat kss) sent"
    by (simp_all add: whole_messages_def)
  with that got single show thesis by metis
qed

lemma conveys_subseq: "conveys single sent got \<Longrightarrow> subseq got sent"
  by (elim conveysE) (metis got_first prefix_imp_subseq subseq_order.trans)

lemma carries_prefix: "carries sent got \<Longrightarrow> prefix got sent"
  by (elim conveysE) (simp add: got_single)

lemma carries_delivers: "conveys single sent got \<Longrightarrow> delivers sent got"
  unfolding conveys_def by blast

section \<open>Properties\<close>

text \<open>C29. Whatever the schedule of writes, arrivals and reads on a split connection, and whatever the
  sizes in which bytes arrive: the reads are the bytes sent, cut into chunks, and the reader
  gets what the decoder makes of each chunk. As long as no read ends inside a message no read
  fails, each gets the first of the messages it holds, and so the messages received are among
  those sent and in their order, none invented, duplicated or overtaken. If besides no two
  messages share a read, they are the first of those sent, and all of them once all bytes have
  been read.\<close>

theorem connection_delivers_in_order:
  assumes "bytes_codec_ok inner" "bincode_ok (messages_sent evs) ser de"
    and "split_connection inner ser de = (s, d)"
  shows "run_wire evs s d = map (frame_result de) (chunks ser evs [] []) \<and>
    prefix (concat (chunks ser evs [] [])) (concat (map ser (messages_sent evs))) \<and>
    (\<forall>kss. whole_messages ser (messages_sent evs) (chunks ser evs [] []) kss \<longrightarrow>
      run_wire evs s d = map (\<lambda>ks. Inr (first_of ks)) kss \<and>
      subseq (messages_got (run_wire evs s d)) (messages_sent evs) \<and>
      ((\<forall>ks \<in> set kss. length ks \<le> 1) \<longrightarrow>
        prefix (messages_got (run_wire evs s d)) (messages_sent evs) \<and>
        (concat (chunks ser evs [] []) = concat (map ser (messages_sent evs)) \<longrightarrow>
          messages_got (run_wire evs s d) = messages_sent evs)))"
proof (intro conjI allI impI)
  show "run_wire evs s d = map (frame_result de) (chunks ser evs [] [])"
    by (rule split_run_chunks [OF assms])
  show "prefix (concat (chunks ser evs [] [])) (concat (map ser (messages_sent evs)))"
    using chunks_prefix [of ser evs "[]" "[]"] by simp
  fix kss
  assume whole: "whole_messages ser (messages_sent evs) (chunks ser evs [] []) kss"
  show run: "run_wire evs s d = map (\<lambda>ks. Inr (first_of ks)) kss"
    by (rule split_run_whole [OF assms whole])
  have kss: "prefix (concat kss) (messages_sent evs)"
    and cs: "concat (chunks ser evs [] []) = concat (map ser (concat kss))"
    using whole by (simp_all add: whole_messages_def concat_whole)
  show "subseq (messages_got (run_wire evs s d)) (messages_sent evs)"
    using got_first [of kss] kss unfolding run by (metis prefix_imp_subseq subseq_order.trans)
  assume single: "\<forall>ks \<in> set kss. length ks \<le> 1"
  show "prefix (messages_got (run_wire evs s d)) (messages_sent evs)"
    unfolding run got_single [OF single] by (rule kss)
  assume "concat (chunks ser evs [] []) = concat (map ser (messages_sent evs))"
  then show "messages_got (run_wire evs s d) = messages_sent evs"
    unfolding run got_single [OF single] cs by (rule concat_sers [OF assms(2) kss])
qed

text \<open>Two runs: one in which messages are split over arrivals and two share a read, and one in
  which each is read by itself.\<close>

definition shared_read :: "nat wire_event list" where
  "shared_read =
     [Send 3, Receive, Arrive 2, Arrive 2, Receive, Send 0, Send 7, Arrive 9, Receive, Receive]"

definition single_reads :: "nat wire_event list" where
  "single_reads = [Send 3, Arrive 4, Receive, Send 7, Arrive 1, Arrive 7, Receive]"

theorem connection_delivers_in_order_witness:
  "run_wire shared_read (fst sample_connection) (snd sample_connection) =
     [Inr None, Inr (Some 3), Inr (Some 0), Inr None] \<and>
   messages_got (run_wire single_reads (fst sample_connection) (snd sample_connection)) = [3, 7]"
proof -
  have split: "split_connection sample_codec sample_ser sample_de = (fst sample_connection, snd sample_connection)"
    by (simp add: sample_connection_def)
  note runs = connection_delivers_in_order [OF sample_codec_ok split]
  have "whole_messages sample_ser (messages_sent shared_read) (chunks sample_ser shared_read [] [])
      [[], [3], [0, 7], []]"
    by (simp add: whole_messages_def shared_read_def sample_ser_def numeral_eq_Suc)
  moreover have "whole_messages sample_ser (messages_sent single_reads) (chunks sample_ser single_reads [] [])
      [[3], [7]]"
    "concat (chunks sample_ser single_reads [] []) = concat (map sample_ser (messages_sent single_reads))"
    by (simp_all add: whole_messages_def single_reads_def sample_ser_def numeral_eq_Suc)
  moreover have "messages_sent single_reads = [3, 7]" by (simp add: single_reads_def)
  ultimately show ?thesis using runs [of shared_read] runs [of single_reads] by fastforce
qed

text \<open>A read that ends inside a message leaves the rest to be taken for a message of its own: when
  the first read holds a message and the beginning of the next, and what is left of that one
  begins like the encoding of another message, the reader receives this other message, which
  was never sent.\<close>

lemma misaligned_read:
  assumes "bytes_codec_ok inner" "bincode_ok [m1, m2, m] ser de" "split_connection inner ser de = (s, d)"
    and "ser m2 = p @ ser m @ q"
  shows "run_wire [Send m1, Send m2, Arrive (length (ser m1 @ p)), Receive, Arrive (length (ser m @ q)), Receive] s d =
    [Inr (Some m1), Inr (Some m)]"
  unfolding split_run_chunks [OF assms(1-3)]
  using assms(2,4) by (simp add: frame_result_def bincode_ok_def)

end
