(* ===== verification/Wire.thy ===== *)
theory Wire
  imports Conversation Schedule
begin

text \<open>
  The open workflow on top of the codecs of its connection: each poll of the daemon's messages
  reads one from the deserializer.
\<close>

fun failure_text :: "failure \<Rightarrow> string" where
  "failure_text (FromIo e) = err_text e"
| "failure_text (FromBincode e) = e"

text \<open>A read that finds no frame waits for more bytes.\<close>

fun wire_poll :: "failure + 'm option \<Rightarrow> ('m option, string) poll" where
  "wire_poll (Inr (Some m)) = Ready (Some m)"
| "wire_poll (Inr None) = NotReady"
| "wire_poll (Inl e) = PollErr (failure_text e)"

lemma finish_poll_no_Goto: "finish_poll env s \<noteq> Goto x"
  by (auto simp: finish_poll_def split: poll.split)

text \<open>The workflow leaves the dialogue only when it has read the final acknowledgement.\<close>

lemma no_ack_no_end:
  assumes "read_daemon (daemon_rx env) s = Return (Inr (False, s1))"
    and "poll_communicating env s = Return m"
  shows "m \<noteq> Goto x"
proof (cases "read_keyboard (user_rx env) s1")
  case (Return r)
  with assms show ?thesis
    by (auto simp: poll_communicating_def finish_poll_no_Goto split: sum.split_asm)
qed (use assms in \<open>simp_all add: poll_communicating_def\<close>)

text \<open>What one read of a chunk of output with the final acknowledgement behind it gives.\<close>

lemma coalesced_ack_reads:
  assumes "bytes_codec_ok inner" "bincode_ok [SM_SshData data, SM_Ok] ser de"
    and "split_connection inner ser de = (tx, rx)"
    and "transfer_all (write_messages [SM_SshData data, SM_Ok] tx) rx = (tx', rx1)"
    and "read_message rx1 = (r1, rx2)" "read_message rx2 = (r2, rx3)"
  shows "wire_poll r1 = Ready (Some (SM_SshData data)) \<and> wire_poll r2 = NotReady \<and> rx3 = rx2"
  using coalesced_messages_are_lost [OF assms(1-5)] assms(6) by auto

section \<open>A sample\<close>

text \<open>Encodings of the messages of the samples.\<close>

fun sample_message_ser :: "server_message \<Rightarrow> byte list" where
  "sample_message_ser (SM_SshData d) = 1 # of_nat (length d) # d"
| "sample_message_ser _ = [0]"

fun sample_message_de :: "byte list \<Rightarrow> string + server_message" where
  "sample_message_de (b # n # bs) =
     (if b = 0 then Inr SM_Ok
      else if unat n \<le> length bs then Inr (SM_SshData (take (unat n) bs))
      else Inl ''unexpected end of file'')"
| "sample_message_de [b] = (if b = 0 then Inr SM_Ok else Inl ''unexpected end of file'')"
| "sample_message_de [] = Inl ''unexpected end of file''"

lemma sample_de_ok: "sample_message_de (0 # rest) = Inr SM_Ok"
  by (cases rest) simp_all

lemma sample_message_ok:
  "length data < 256 \<Longrightarrow> bincode_ok [SM_SshData data, SM_Ok] sample_message_ser sample_message_de"
  "length data < 256 \<Longrightarrow> bincode_ok [SM_Ok, SM_SshData data] sample_message_ser sample_message_de"
  by (simp_all add: bincode_ok_def sample_de_ok unat_of_nat)

fun sample_command_ser :: "client_message \<Rightarrow> byte list" where
  "sample_command_ser (CM_UserData d) = 1 # d"
| "sample_command_ser _ = [0]"

definition sample_command_de :: "byte list \<Rightarrow> string + client_message" where
  "sample_command_de bs =
     Inr (if hd bs = 0 then CM_Open \<lparr>op_host = ''h''\<rparr> else CM_UserData (take 2 (tl bs)))"

lemma sample_command_ok:
  "bincode_ok [CM_Open \<lparr>op_host = ''h''\<rparr>, CM_UserData [104, 105]] sample_command_ser sample_command_de"
  by (simp add: bincode_ok_def sample_command_de_def)

text \<open>Messages one after the other.\<close>

definition one_by_one :: "('m \<Rightarrow> byte list) \<Rightarrow> 'm list \<Rightarrow> 'm wire_event list" where
  "one_by_one ser ms = concat (map (\<lambda>m. [Send m, Arrive (length (ser m)), Receive]) ms)"

lemma one_by_one_run:
  "messages_sent (one_by_one ser ms) = ms"
  "chunks ser (one_by_one ser ms) [] [] = map ser ms"
  by (induction ms) (simp_all add: one_by_one_def)

lemma carries_all:
  assumes "bincode_ok ms ser de"
  shows "carries ms ms"
proof -
  let ?evs = "one_by_one ser ms" and ?kss = "map (\<lambda>m. [m]) ms"
  obtain s d where split: "split_connection sample_codec ser de = (s, d)" by fastforce
  have whole: "whole_messages ser ms (chunks ser ?evs [] []) ?kss"
    by (simp add: whole_messages_def one_by_one_run o_def)
  have single: "\<forall>ks \<in> set ?kss. length ks \<le> 1" by simp
  have "run_wire ?evs s d = map (\<lambda>ks. Inr (first_of ks)) ?kss"
    by (rule split_run_whole [OF sample_codec_ok(1) _ split])
      (use assms whole in \<open>simp_all add: one_by_one_run\<close>)
  then have "messages_got (run_wire ?evs s d) = ms"
    using got_single [OF single] by simp
  with sample_codec_ok(1) assms split one_by_one_run(1) whole single show ?thesis
    unfolding conveys_def by metis
qed

section \<open>Output that looks like an acknowledgement\<close>



end
