(* ===== verification/Daemon.thy ===== *)
theory Daemon
  imports Session
begin

text \<open>
  The daemon as a whole (\<open>src/daemon.rs\<close>): \<open>State::new\<close>, \<open>State::serve\<close> with its tasks, the wrapping
  of a client session by \<open>process_client\<close>, the logging task of a handed-off tunnel, and the
  steps of the running process. The reactor is single-threaded: one poll of one task is one
  step, and between two polls of a task any other tasks may run.
\<close>

section \<open>Starting up\<close>

text \<open>\<open>PathBuf::set_extension\<close> for a path whose last component is a file name.\<close>

definition set_extension :: "string \<Rightarrow> string \<Rightarrow> string" where
  "set_extension p ext =
     (let r = rev p;
          name = rev (takeWhile (\<lambda>c. c \<noteq> CHR ''/'') r);
          dir = rev (dropWhile (\<lambda>c. c \<noteq> CHR ''/'') r);
          from_dot = dropWhile (\<lambda>c. c \<noteq> CHR ''.'') (rev name);
          stem = (if length from_dot \<le> 1 then name else rev (tl from_dot))
      in dir @ stem @ (if ext = [] then [] else CHR ''.'' # ext))"

datatype startup_call =
    Connect_to string
  | Remove_file string
  | Umask nat
  | Create_file string
  | Daemonize

record new_answers =
  home_dir :: "string option"
  connect_ok :: bool
  remove_result :: "io_error + unit"
  create_result :: "io_error + unit"
  daemonize_result :: "string + unit"

text \<open>\<open>State::new\<close>: the state or the text of the error, and the calls made; 0o177 is 127.\<close>

definition state_new :: "bool \<Rightarrow> new_answers \<Rightarrow> (string + state) \<times> startup_call list" where
  "state_new foreground a =
     (case get_socket_path (home_dir a) of
        Inl e \<Rightarrow> (Inl e, [])
      | Inr p \<Rightarrow>
          if connect_ok a then
            (Inl ''refusing to start: another daemon is already running'', [Connect_to p])
          else
            let s1 = [Connect_to p, Remove_file p];
                s2 = s1 @ [Umask 127];
                st = \<lparr>sock_path = p, opts_foreground = foreground, log_lines = [], children = []\<rparr>;
                go = (if foreground then (Inr st, s2)
                      else
                        let log_path = set_extension p ''log'';
                            s3 = s2 @ [Create_file log_path];
                            s4 = s3 @ [Daemonize]
                        in case create_result a of
                             Inl e \<Rightarrow> (Inl (err_text e), s3)
                           | Inr _ \<Rightarrow>
                               (case daemonize_result a of
                                  Inl e \<Rightarrow> (Inl e, s4)
                                | Inr _ \<Rightarrow> (Inr st, s4)))
            in case remove_result a of
                 Inr _ \<Rightarrow> go
               | Inl e \<Rightarrow> if kind e = NotFound then go else (Inl (err_text e), s1))"

text \<open>
  The beginning of \<open>serve\<close>, up to the reactor's loop: \<open>core\<close> and \<open>bind\<close> are the results of
  creating the reactor and of binding the socket.
\<close>

definition serve_start :: "io_error + unit \<Rightarrow> io_error + unit \<Rightarrow> state \<Rightarrow> string + world" where
  "serve_start core bind st =
     (case core of
        Inl e \<Rightarrow> Inl (err_text e)
      | Inr _ \<Rightarrow>
          (case bind of
             Inl e \<Rightarrow> Inl (err_text e)
           | Inr _ \<Rightarrow>
               Inr \<lparr>sock_path = sock_path st, opts_foreground = opts_foreground st,
                 log_lines = log_lines st @ [LogStartingUp], children = children st,
                 tasks = [AcceptTask], sent = [], sigkills = [], launched = [], kill_sent = [], next_chan = 0,
                 next_conn = 0, exit_msgs = 0, lingers = []\<rparr>))"

section \<open>Tasks\<close>

text \<open>A new connection is told to linger, whatever \<open>setsockopt\<close> answers, and starts a session.\<close>

definition process_client :: "world \<Rightarrow> world" where
  "process_client w =
     spawn (ClientTask (AwaitingCommand \<lparr>exit_on_close = False\<rparr> (next_conn w)))
       (w\<lparr>next_conn := next_conn w + 1, lingers := lingers w @ [(next_conn w, 1, 2)]\<rparr>)"

text \<open>
  The \<open>for_each\<close> over the incoming connections; \<open>True\<close> when it is over. An error of the stream is
  the error of the \<open>for_each\<close>, which is logged.
\<close>

definition accept_failed :: "string \<Rightarrow> world \<Rightarrow> world" where
  "accept_failed e w = log_items (LogAcceptError e) w"

fun poll_accept :: "(unit option, string) poll list \<Rightarrow> world \<Rightarrow> (bool \<times> world) run" where
  "poll_accept [] w = Starved"
| "poll_accept (NotReady # as) w = Return (False, w)"
| "poll_accept (PollErr e # as) w = Return (True, accept_failed e w)"
| "poll_accept (Ready None # as) w = Return (True, w)"
| "poll_accept (Ready (Some u) # as) w = poll_accept as (process_client w)"

text \<open>The closures \<open>process_client\<close> maps over the result of the session.\<close>

definition session_finished :: "client_common \<Rightarrow> world \<Rightarrow> world" where
  "session_finished cm w =
     (let w1 = log_items (LogSessionFinished (exit_on_close cm)) w
      in if exit_on_close cm then spawn ExitTask w1 else w1)"

definition session_failed :: "session_error \<Rightarrow> world \<Rightarrow> world" where
  "session_failed e w = log_items (LogSessionError e) w"

text \<open>The \<open>for_each\<close> over the output of a handed-off SSH process; \<open>True\<close> when it is over.\<close>

fun poll_ssh_log :: "(byte list option, string) poll list \<Rightarrow> world \<Rightarrow> (bool \<times> world) run" where
  "poll_ssh_log [] w = Starved"
| "poll_ssh_log (NotReady # as) w = Return (False, w)"
| "poll_ssh_log (PollErr e # as) w = Return (True, log_items (LogSshPollError e) w)"
| "poll_ssh_log (Ready None # as) w = Return (True, w)"
| "poll_ssh_log (Ready (Some bytes) # as) w = poll_ssh_log as (log_items (LogSshOutput bytes) w)"

record task_env =
  incoming :: "(unit option, string) poll list"
  mon_env :: monitor_env
  ses_env :: session_env
  log_answers :: "(byte list option, string) poll list"
  exit_answer :: "(unit, unit) poll"

text \<open>One poll of a task by the reactor: the task that is left, and the process.\<close>

fun poll_task :: "task_env \<Rightarrow> task \<Rightarrow> world \<Rightarrow> (task \<times> world) run" where
  "poll_task env AcceptTask w =
     run_bind (poll_accept (incoming env) w) (\<lambda>(over, w').
       Return (if over then DoneTask else AcceptTask, w'))"
| "poll_task env (MonitorTask m) w =
     run_bind (poll_monitor (mon_env env) m w) (\<lambda>(r, w'). Return
       (case r of
          Stay m' \<Rightarrow> (MonitorTask m', w')
        | Goto ChildReaped \<Rightarrow> (DoneTask, w')
        | Goto m' \<Rightarrow> (MonitorTask m', w')
        | Lost \<Rightarrow> (LostTask, w')
        | Raise _ \<Rightarrow> (DoneTask, drop_monitor (mon_env env) m w')))"
| "poll_task env (ClientTask cl) w =
     run_bind (poll_client (ses_env env) cl w) (\<lambda>(r, w'). Return
       (case r of
          Stay cl' \<Rightarrow> (ClientTask cl', w')
        | Goto (Finished cm tx) \<Rightarrow> (DoneTask, session_finished cm w')
        | Goto cl' \<Rightarrow> (ClientTask cl', w')
        | Lost \<Rightarrow> (LostTask, w')
        | Raise e \<Rightarrow> (DoneTask, session_failed e w')))"
| "poll_task env SshLogTask w =
     run_bind (poll_ssh_log (log_answers env) w) (\<lambda>(over, w').
       Return (if over then DoneTask else SshLogTask, w'))"
| "poll_task env ExitTask w =
     Return
       (case exit_answer env of
          Ready _ \<Rightarrow> (DoneTask, w\<lparr>exit_msgs := exit_msgs w + 1\<rparr>)
        | NotReady \<Rightarrow> (ExitTask, w)
        | PollErr _ \<Rightarrow> (DoneTask, w))"
| "poll_task env LostTask w = Return (LostTask, w)"
| "poll_task env DoneTask w = Return (DoneTask, w)"

text \<open>\<open>FATAL_SIGNALS\<close>, with the numbers of Linux, in the order of the source.\<close>

definition fatal_signals :: "int list" where
  "fatal_signals = [6, 7, 8, 1, 4, 2, 9, 3, 15, 5]"

definition on_signal :: "int \<Rightarrow> world \<Rightarrow> world" where
  "on_signal sig w = (log_items (LogExitingOnSignal sig) w)\<lparr>exit_msgs := exit_msgs w + 1\<rparr>"

section \<open>What the channels and the kernel promise\<close>

text \<open>
  A oneshot receiver is ready when the message has been sent, an error when the sender is
  gone without sending, and not ready otherwise. The senders of the kill channels live in
  the tunnel table, the receivers in the monitors that await an event.
\<close>

definition sender_held :: "kill_chan \<Rightarrow> world \<Rightarrow> bool" where
  "sender_held ch w \<longleftrightarrow> list_ex (\<lambda>(k, t). t = Running ch) (children w)"

definition listening :: "kill_chan \<Rightarrow> world \<Rightarrow> bool" where
  "listening ch w \<longleftrightarrow>
     list_ex (\<lambda>t. case t of MonitorTask (AwaitingChildEvent _ _ c) \<Rightarrow> c = ch | _ \<Rightarrow> False) (tasks w)"

definition kill_rx_ok :: "world \<Rightarrow> kill_chan \<Rightarrow> (unit, unit) poll \<Rightarrow> bool" where
  "kill_rx_ok w ch a =
     (case a of
        Ready _ \<Rightarrow> ch \<in> set (kill_sent w)
      | PollErr _ \<Rightarrow> ch \<notin> set (kill_sent w) \<and> \<not> sender_held ch w
      | NotReady \<Rightarrow> ch \<notin> set (kill_sent w) \<and> sender_held ch w)"

text \<open>Sending succeeds exactly when the receiver is still there.\<close>

definition kill_send_ok :: "world \<Rightarrow> session_env \<Rightarrow> bool" where
  "kill_send_ok w env =
     (case rx_answers env of
        Ready (Some (CM_Close params)) # _ \<Rightarrow>
          (case children_get (children w) (cp_host params) of
             Some (Running ch) \<Rightarrow> kill_send env = (if listening ch w then Inr () else Inl ())
           | _ \<Rightarrow> True)
      | _ \<Rightarrow> True)"

fun answers_ok :: "world \<Rightarrow> task_env \<Rightarrow> task \<Rightarrow> bool" where
  "answers_ok w env (MonitorTask (AwaitingChildEvent key c ch)) \<longleftrightarrow>
     list_all (wait_answer_ok c) (waits (mon_env env)) \<and> kill_rx_ok w ch (kill_rx (mon_env env))"
| "answers_ok w env (MonitorTask (AwaitingChildReaped key c)) \<longleftrightarrow>
     list_all (wait_answer_ok c) (waits (mon_env env))"
| "answers_ok w env (ClientTask (AwaitingCommand cm tx)) \<longleftrightarrow> kill_send_ok w (ses_env env)"
| "answers_ok w env t \<longleftrightarrow> True"

section \<open>The steps of the process\<close>

definition daemon_initial :: "world \<Rightarrow> bool" where
  "daemon_initial w \<longleftrightarrow>
     (\<exists>foreground a st calls. state_new foreground a = (Inr st, calls) \<and>
        serve_start (Inr ()) (Inr ()) st = Inr w)"

text \<open>
  The main task ends the process at the first message of the exit channel, but until the reactor
  polls it the other tasks may still be polled; \<open>serve_end\<close> of \<open>Shutdown\<close> is its end. \<open>allowed\<close>
  restricts what a poll may meet; the process itself is \<open>daemon_step (\<lambda>_ _. True)\<close>, and
  \<open>waits_work\<close> leaves out the runs in which waiting for an SSH process fails with an error.
\<close>

inductive daemon_step :: "(task_env \<Rightarrow> task \<Rightarrow> bool) \<Rightarrow> world \<Rightarrow> world \<Rightarrow> bool"
  for allowed :: "task_env \<Rightarrow> task \<Rightarrow> bool" where
  signal: "sig \<in> set fatal_signals \<Longrightarrow> daemon_step allowed w (on_signal sig w)"
| poll: "i < length (tasks w) \<Longrightarrow> allowed env (tasks w ! i) \<Longrightarrow>
    answers_ok w env (tasks w ! i) \<Longrightarrow> poll_task env (tasks w ! i) w = Return (t, w') \<Longrightarrow>
    daemon_step allowed w (w'\<lparr>tasks := (tasks w')[i := t]\<rparr>)"

inductive_cases daemon_stepE: "daemon_step allowed w w'"

fun waits_work :: "task_env \<Rightarrow> task \<Rightarrow> bool" where
  "waits_work env (MonitorTask (AwaitingChildEvent key c ch)) \<longleftrightarrow>
     (case poll_exit c (waits (mon_env env)) (sigs (mon_env env)) of
        Return (PollErr _, _) \<Rightarrow> False
      | _ \<Rightarrow> True)"
| "waits_work env t \<longleftrightarrow> True"

end
