(* ===== verification/Cli.thy ===== *)
theory Cli
  imports ClientApi Daemon
begin

text \<open>
  The command line program (\<open>src/main.rs\<close>): one function per subcommand over the client's
  API, the dispatch and the exit code, the status table, and the switching of the terminal's
  echo. What is printed is the list of its lines, without the newlines.
\<close>

section \<open>Outcomes\<close>

datatype cli_error = CliError string | CliClientError client_error | CliOther

text \<open>
  \<open>Execs\<close>: the process becomes another program; \<open>Serves\<close>: it runs the daemon from there, with
  exit code 0 at the end.
\<close>

datatype cli_outcome = Exits int | Execs "string list" | Serves world | Fails cli_error

text \<open>The outcome, the lines on standard output, and the messages sent to the daemon in order.\<close>

type_synonym cli_run = "(cli_outcome \<times> string list \<times> client_message list) run"

text \<open>
  The answers met by a client command: while establishing the connection, to the sending of
  the request, its reply, during the polls of an open workflow, to the sending of the goodbye.
\<close>

record conn_answers =
  ca_establish :: establish_answers
  ca_sent :: "string + unit"
  ca_reply :: "string + server_message option"
  ca_open :: "wf_env list"
  ca_goodbye :: "string + unit"

text \<open>\<open>conn.close()?\<close> followed by a result.\<close>

definition close_then ::
  "conn_answers \<Rightarrow> string list \<Rightarrow> client_message list \<Rightarrow> cli_outcome \<times> string list \<Rightarrow>
   cli_outcome \<times> string list \<times> client_message list" where
  "close_then a lines msgs out =
     (case connection_close (ca_goodbye a) of (m, r) \<Rightarrow>
       (case r of
          Inl e \<Rightarrow> (Fails (CliError e), lines, msgs @ [m])
        | Inr _ \<Rightarrow> (fst out, lines @ snd out, msgs @ [m])))"

section \<open>The subcommands\<close>

text \<open>The options of each, as the command line gives them.\<close>

record close_options =
  co_host :: string

record daemon_options =
  do_foreground :: bool

datatype exit_options = StundExitOptions

datatype status_options = StundStatusOptions

definition close_cli :: "close_options \<Rightarrow> conn_answers \<Rightarrow> cli_run" where
  "close_cli opts a =
     run_bind (fst (establish (ca_establish a))) (\<lambda>conn. Return
       (case conn of
          Inl e \<Rightarrow> (Fails (CliError e), [], [])
        | Inr _ \<Rightarrow>
            (case send_close \<lparr>cp_host = co_host opts\<rparr> (ca_sent a) (ca_reply a) of (m, r) \<Rightarrow>
              (case r of
                 Inl e \<Rightarrow> (Fails (CliClientError e), [], [m])
               | Inr CloseSuccess \<Rightarrow> close_then a [] [m] (Exits 0, [])
               | Inr CloseNotOpen \<Rightarrow>
                   close_then a [''[No tunnel for '' @ [CHR 0x22] @ co_host opts @ [CHR 0x22] @ '' was open.]'']
                     [m] (Exits 0, [])))))"

definition exit_cli :: "exit_options \<Rightarrow> conn_answers \<Rightarrow> cli_run" where
  "exit_cli opts a =
     (case fst (try_establish (ca_establish a)) of
        Inl e \<Rightarrow> Return (Fails (CliError e), [], [])
      | Inr None \<Rightarrow> Return (Exits 0, [''[Daemon not running; doing nothing.]''], [])
      | Inr (Some _) \<Rightarrow>
          (case send_exit (ca_sent a) (ca_reply a) of (m, r) \<Rightarrow> Return
            (case r of
               Inl e \<Rightarrow> (Fails (CliClientError e), [], [m])
             | Inr _ \<Rightarrow> close_then a [] [m] (Exits 0, []))))"

text \<open>
  A \<open>String\<close> is its UTF-8 bytes; the width of a format argument counts characters, \<open>len\<close>
  counts bytes.
\<close>

definition char_count :: "string \<Rightarrow> nat" where
  "char_count s = length (filter (\<lambda>c. (of_char c :: nat) div 64 \<noteq> 2) s)"

definition pad_to :: "nat \<Rightarrow> string \<Rightarrow> string" where
  "pad_to width s = s @ replicate (width - char_count s) (CHR '' '')"

fun debug_status :: "tunnel_status \<Rightarrow> string" where
  "debug_status TS_Open = ''Open''"
| "debug_status TS_Closed = ''Closed''"
| "debug_status TS_Died = ''Died''"

definition longest_host :: "status_information \<Rightarrow> nat" where
  "longest_host info = fold (\<lambda>tun longest. max longest (length (ti_host tun))) (tunnels info) 4"

definition status_lines :: "status_information \<Rightarrow> string list" where
  "status_lines info =
     (if tunnels info = [] then [''No tunnels are open.'']
      else
        let longest = longest_host info
        in [pad_to longest ''Host'' @ ''  Status'', []] @
           map (\<lambda>tun. pad_to longest (ti_host tun) @ ''  '' @ debug_status (ti_state tun)) (tunnels info))"

definition status_cli :: "status_options \<Rightarrow> conn_answers \<Rightarrow> cli_run" where
  "status_cli opts a =
     (case fst (try_establish (ca_establish a)) of
        Inl e \<Rightarrow> Return (Fails (CliError e), [], [])
      | Inr None \<Rightarrow> Return (Exits 0, [''Daemon is not running.''], [])
      | Inr (Some _) \<Rightarrow>
          (case query_status (ca_sent a) (ca_reply a) of (m, r) \<Rightarrow> Return
            (case r of
               Inl e \<Rightarrow> (Fails (CliClientError e), [], [m])
             | Inr info \<Rightarrow> close_then a [] [m] (Exits 0, status_lines info))))"

text \<open>
  \<open>toggle_terminal_echo\<close> on the local flags of the terminal, with the value of \<open>ECHO\<close>: the new
  flags and the lines printed.
\<close>

record tty_answers =
  tty_echo_bit :: "32 word"
  tty_stdout :: bool
  tty_get :: int
  tty_set :: int

definition toggle_terminal_echo :: "bool \<Rightarrow> tty_answers \<Rightarrow> 32 word \<Rightarrow> 32 word \<times> string list" where
  "toggle_terminal_echo active t lflag =
     (if \<not> tty_stdout t then (lflag, [])
      else if tty_get t \<noteq> 0 then (lflag, [''error querying terminal attributes?!''])
      else
        let new = (if active then lflag OR tty_echo_bit t else lflag AND NOT (tty_echo_bit t))
        in if tty_set t \<noteq> 0 then (lflag, [''error setting terminal attributes?!''])
           else (new, []))"

record open_options =
  oo_host :: string
  oo_quiet :: bool
  oo_no_input :: bool
  oo_after_command :: "string list"

text \<open>
  The open request, with the terminal's flags before and after and the messages sent. The
  workflow runs over the standard streams or without input; its error is replaced by \<open>Other\<close>. A
  workflow that does not end leaves the echo off. \<open>exec\<close> is the error of \<open>Command::exec\<close>, which
  only returns when it fails.
\<close>

definition map_open_err :: "client_error + open_result \<Rightarrow> cli_error + open_result" where
  "map_open_err r = (case r of Inl _ \<Rightarrow> Inl CliOther | Inr x \<Rightarrow> Inr x)"

definition open_request ::
  "open_options \<Rightarrow> conn_answers \<Rightarrow> tty_answers \<Rightarrow> tty_answers \<Rightarrow> 32 word \<Rightarrow>
   ((cli_error + open_result) \<times> client_message list \<times> string list) run \<times> 32 word" where
  "open_request opts a t1 t2 lflag =
     (let params = \<lparr>op_host = oo_host opts\<rparr>
      in if oo_no_input opts then
           (run_bind (send_open params (ca_open a)) (\<lambda>(r, msgs). Return (map_open_err r, msgs, [])), lflag)
         else
           (case toggle_terminal_echo False t1 lflag of (lflag1, l1) \<Rightarrow>
             (case send_open params (ca_open a) of
                Panic \<Rightarrow> (Panic, lflag1)
              | Starved \<Rightarrow> (Starved, lflag1)
              | Return (r, msgs) \<Rightarrow>
                  (case toggle_terminal_echo True t2 lflag1 of (lflag2, l2) \<Rightarrow>
                    (Return (map_open_err r, msgs, l1 @ l2), lflag2)))))"

definition open_result_lines :: "open_options \<Rightarrow> open_result \<Rightarrow> string list" where
  "open_result_lines opts result =
     (if oo_quiet opts then []
      else case result of
          OpenSuccess \<Rightarrow> [''[Tunnel successfully opened.]'']
        | OpenAlreadyOpen \<Rightarrow> [''[Tunnel is already open.]''])"

definition after_open :: "open_options \<Rightarrow> string option \<Rightarrow> cli_outcome" where
  "after_open opts exec =
     (if oo_after_command opts \<noteq> [] then
        case exec of
          None \<Rightarrow> Execs (oo_after_command opts)
        | Some e \<Rightarrow> Fails (CliError ''failed to exec post-open command'')
      else Exits 0)"

definition open_cli ::
  "open_options \<Rightarrow> conn_answers \<Rightarrow> tty_answers \<Rightarrow> tty_answers \<Rightarrow> string option \<Rightarrow> 32 word \<Rightarrow>
   cli_run \<times> 32 word" where
  "open_cli opts a t1 t2 exec lflag =
     (case fst (establish (ca_establish a)) of
        Panic \<Rightarrow> (Panic, lflag)
      | Starved \<Rightarrow> (Starved, lflag)
      | Return (Inl e) \<Rightarrow> (Return (Fails (CliError e), [], []), lflag)
      | Return (Inr _) \<Rightarrow>
          (case open_request opts a t1 t2 lflag of (req, lflag') \<Rightarrow>
            (run_bind req (\<lambda>(r, msgs, lines). Return
               (case r of
                  Inl e \<Rightarrow> (Fails e, lines, msgs)
                | Inr result \<Rightarrow>
                    close_then a (lines @ open_result_lines opts result) msgs
                      (after_open opts exec, []))),
             lflag')))"

definition daemon_cli ::
  "daemon_options \<Rightarrow> new_answers \<Rightarrow> io_error + unit \<Rightarrow> io_error + unit \<Rightarrow> cli_run" where
  "daemon_cli opts a core bind =
     (let lines = (if do_foreground opts then [''stund daemon: staying in foreground''] else [])
      in case fst (state_new (do_foreground opts) a) of
           Inl e \<Rightarrow> Return (Fails (CliError e), [], [])
         | Inr st \<Rightarrow>
             (case serve_start core bind st of
                Inl e \<Rightarrow> Return (Fails (CliError e), lines, [])
              | Inr w \<Rightarrow> Return (Serves w, lines, [])))"

section \<open>The program\<close>

datatype stund_cli =
    Cli_Close close_options
  | Cli_Daemon daemon_options
  | Cli_Exit exit_options
  | Cli_Open open_options
  | Cli_Status status_options

record cli_answers =
  cli_conn :: conn_answers
  cli_tty1 :: tty_answers
  cli_tty2 :: tty_answers
  cli_exec :: "string option"
  cli_new :: new_answers
  cli_core :: "io_error + unit"
  cli_bind :: "io_error + unit"

fun stund_cli_run :: "stund_cli \<Rightarrow> cli_answers \<Rightarrow> 32 word \<Rightarrow> cli_run \<times> 32 word" where
  "stund_cli_run (Cli_Close opts) a lflag = (close_cli opts (cli_conn a), lflag)"
| "stund_cli_run (Cli_Daemon opts) a lflag =
     (daemon_cli opts (cli_new a) (cli_core a) (cli_bind a), lflag)"
| "stund_cli_run (Cli_Exit opts) a lflag = (exit_cli opts (cli_conn a), lflag)"
| "stund_cli_run (Cli_Open opts) a lflag =
     open_cli opts (cli_conn a) (cli_tty1 a) (cli_tty2 a) (cli_exec a) lflag"
| "stund_cli_run (Cli_Status opts) a lflag = (status_cli opts (cli_conn a), lflag)"

text \<open>The exit code of \<open>main\<close>, where the process ends by itself.\<close>

fun exit_code :: "cli_outcome \<Rightarrow> int option" where
  "exit_code (Exits code) = Some code"
| "exit_code (Execs command) = None"
| "exit_code (Serves w) = Some 0"
| "exit_code (Fails e) = Some 1"

end
