(* ===== verification/CliProps.thy ===== *)
theory CliProps
  imports Cli
begin

text \<open>
  The properties of the command line program.
\<close>

section \<open>The status table\<close>

lemma char_count_append [simp]: "char_count (s @ t) = char_count s + char_count t"
  by (simp add: char_count_def)

lemma char_count_spaces [simp]: "char_count (replicate n (CHR '' '')) = n"
  by (simp add: char_count_def of_char_def)

lemma char_count_le: "char_count s \<le> length s"
  by (simp add: char_count_def)

lemma char_count_pad: "char_count s \<le> w \<Longrightarrow> char_count (pad_to w s) = w"
  by (simp add: pad_to_def)

lemma fold_max_bounds:
  fixes f :: "'a \<Rightarrow> nat"
  shows "m \<le> fold (\<lambda>x n. max n (f x)) xs m \<and> (\<forall>x \<in> set xs. f x \<le> fold (\<lambda>x n. max n (f x)) xs m)"
proof (induction xs arbitrary: m)
  case (Cons x xs)
  from Cons [of "max m (f x)"] show ?case by auto
qed simp

lemma longest_host_bounds:
  "4 \<le> longest_host info"
  "tun \<in> set (tunnels info) \<Longrightarrow> char_count (ti_host tun) \<le> longest_host info"
  using fold_max_bounds [of 4 "\<lambda>tun. length (ti_host tun)" "tunnels info"]
    char_count_le [of "ti_host tun"]
  by (auto simp: longest_host_def intro: order_trans)

text \<open>The status table is aligned, in characters and for any host names: in every line after
  the two of the heading, and in the heading, what stands before the status has the same
  number of characters, the host comes first, and there is one line per tunnel in order.\<close>

theorem status_table_aligned:
  assumes "tunnels info \<noteq> []"
  shows "\<exists>width pads. length pads = length (tunnels info) \<and>
    (\<exists>pad. char_count (''Host'' @ pad) = width \<and> status_lines info !0 = ''Host'' @ pad @ ''Status'') \<and>
    status_lines info ! 1 = [] \<and>
    drop 2 (status_lines info) =
      map2 (\<lambda>tun pad. ti_host tun @ pad @ debug_status (ti_state tun)) (tunnels info) pads \<and>
    (\<forall>(tun, pad) \<in> set (zip (tunnels info) pads). char_count (ti_host tun @ pad) = width)"
proof -
  let ?l = "longest_host info"
  let ?pad = "\<lambda>host. replicate (?l - char_count host) (CHR '' '') @ ''  ''"
  let ?pads = "map (\<lambda>tun. ?pad (ti_host tun)) (tunnels info)"
  have two: "char_count ''  '' = 2" "char_count ''Host'' = 4"
    by (simp_all add: char_count_def of_char_def)
  have head: "char_count (''Host'' @ ?pad ''Host'') = ?l + 2"
    using longest_host_bounds(1) [of info] two
    by (simp only: char_count_append char_count_spaces le_add_diff_inverse2)
  have rows: "\<forall>(tun, pad) \<in> set (zip (tunnels info) ?pads). char_count (ti_host tun @ pad) = ?l + 2"
    using longest_host_bounds(2) [of _ info] two by (auto simp: set_zip)
  show ?thesis
    using assms head rows
    by (intro exI [of _ "?l + 2"] exI [of _ ?pads])
      (auto simp: status_lines_def pad_to_def Let_def zip_map2 zip_same_conv_map
        intro!: exI [of _ "?pad ''Host''"])
qed

theorem status_table_aligned_witness:
  "\<exists>pads. drop 2 (status_lines \<lparr>tunnels = [\<lparr>ti_host = ''login.example.org'', ti_state = TS_Open\<rparr>,
       \<lparr>ti_host = ''h'', ti_state = TS_Died\<rparr>]\<rparr>) =
     map2 (\<lambda>tun pad. ti_host tun @ pad @ debug_status (ti_state tun))
       [\<lparr>ti_host = ''login.example.org'', ti_state = TS_Open\<rparr>, \<lparr>ti_host = ''h'', ti_state = TS_Died\<rparr>] pads"
  using status_table_aligned [of "\<lparr>tunnels = [\<lparr>ti_host = ''login.example.org'', ti_state = TS_Open\<rparr>,
       \<lparr>ti_host = ''h'', ti_state = TS_Died\<rparr>]\<rparr>"]
  by auto

section \<open>The terminal\<close>

text \<open>After an interactive open that ends, successful or not, the terminal echoes again and every
  other local flag is as it was, if its attributes can be read and written; with \<open>--no-input\<close> or
  without a terminal nothing is changed.\<close>

theorem open_restores_terminal:
  assumes "fst (establish (ca_establish a)) = Return (Inr ())"
    and "send_open \<lparr>op_host = oo_host opts\<rparr> (ca_open a) = Return r"
    and "\<forall>t \<in> {t1, t2}. tty_get t = 0 \<and> tty_set t = 0 \<and> tty_echo_bit t = e \<and> tty_stdout t = tty"
  shows "snd (open_cli opts a t1 t2 exec lflag) =
    (if oo_no_input opts \<or> \<not> tty then lflag else lflag OR e)"
proof -
  have "(lflag AND NOT e) OR e = lflag OR e"
    by (auto simp: bit_eq_iff bit_simps)
  with assms show ?thesis
    by (cases r) (simp add: open_cli_def open_request_def toggle_terminal_echo_def Let_def)
qed

text \<open>An open workflow whose second answer is an error.\<close>

definition sample_open_polls :: "wf_env list" where
  "sample_open_polls =
     (let env = \<lparr>issue_send = Ready (), daemon_rx = [NotReady], user_rx = [NotReady], user_start = SendReady,
        daemon_start = SendReady, user_flush = Ready (), daemon_flush = Ready ()\<rparr>
      in [env, env\<lparr>daemon_rx := [Ready (Some SM_Ok), NotReady]\<rparr>,
          env\<lparr>daemon_rx := [Ready (Some (SM_Error ''no route''))]\<rparr>])"

definition sample_conn :: conn_answers where
  "sample_conn =
     \<lparr>ca_establish = \<lparr>ea_core = Inr (), ea_home = Some ''/u'', ea_connect = Inr (), ea_exe = Inr [],
        ea_status = Inr True, ea_reconnect = Inr ()\<rparr>,
      ca_sent = Inr (), ca_reply = Inr (Some SM_Ok), ca_open = sample_open_polls, ca_goodbye = Inr ()\<rparr>"

definition sample_tty :: tty_answers where
  "sample_tty = \<lparr>tty_echo_bit = 8, tty_stdout = True, tty_get = 0, tty_set = 0\<rparr>"

lemma sample_establish: "fst (establish (ca_establish sample_conn)) = Return (Inr ())"
  by (simp add: establish_def establish_inner_def sample_conn_def get_socket_path_def)

lemma sample_open_fails:
  "send_open \<lparr>op_host = ''h''\<rparr> sample_open_polls =
     Return (Inl (ClientError ''no route''), [CM_Open \<lparr>op_host = ''h''\<rparr>])"
  by (simp add: send_open_def sample_open_polls_def poll_issue_def poll_first_ack_def
      poll_communicating_def wf_start_def Let_def)

theorem open_restores_terminal_witness:
  "snd (open_cli \<lparr>oo_host = ''h'', oo_quiet = True, oo_no_input = False, oo_after_command = []\<rparr>
     sample_conn sample_tty sample_tty None 0x2B) = 0x2B"
  using open_restores_terminal [OF sample_establish, of "\<lparr>oo_host = ''h'', oo_quiet = True,
      oo_no_input = False, oo_after_command = []\<rparr>" _ sample_tty sample_tty 8 True] sample_open_fails
  by (simp add: sample_tty_def sample_conn_def)

section \<open>Leaving\<close>

lemma close_then_Exits:
  "close_then a lines msgs out = (Exits n, lines', msgs') \<Longrightarrow> last msgs' = CM_Goodbye \<and> fst out = Exits n"
  by (auto simp: close_then_def connection_close_def split: sum.split_asm)

text \<open>The ways in which an open that returns can go.\<close>

lemma open_cli_cases:
  assumes "fst (open_cli opts a t1 t2 exec lflag) = Return out"
  obtains (unconnected) e where "out = (Fails (CliError e), [], [])"
  | (failed) e msgs ls where "fst (open_request opts a t1 t2 lflag) = Return (Inl e, msgs, ls)"
      "out = (Fails e, ls, msgs)"
  | (opened) result msgs ls where "fst (open_request opts a t1 t2 lflag) = Return (Inr result, msgs, ls)"
      "out = close_then a (ls @ open_result_lines opts result) msgs (after_open opts exec, [])"
proof (cases "fst (establish (ca_establish a))")
  case (Return conn)
  show thesis
  proof (cases conn)
    case (Inl e)
    with Return assms show thesis by (intro unconnected [of e]) (simp add: open_cli_def)
  next
    case (Inr c)
    with Return assms obtain r msgs ls where req: "fst (open_request opts a t1 t2 lflag) = Return (r, msgs, ls)"
      by (cases "open_request opts a t1 t2 lflag") (auto simp: open_cli_def)
    with Return Inr assms failed opened show thesis
      by (cases "open_request opts a t1 t2 lflag"; cases r)
        (simp_all add: open_cli_def)
  qed
qed (use assms in \<open>simp_all add: open_cli_def\<close>)

text \<open>C40. A client command that ends with exit code 0 after talking to the daemon has taken its
  leave: the last message it sent is the goodbye that ends the daemon's session (and lets an
  exit command take effect).\<close>

theorem success_says_goodbye:
  assumes "fst (stund_cli_run cmd a lflag) = Return (Exits n, lines, msgs)"
  shows "n = 0 \<and> (msgs = [] \<or> last msgs = CM_Goodbye)"
proof (cases cmd)
  case (Cli_Close host)
  with assms obtain conn where "fst (establish (ca_establish (cli_conn a))) = Return conn"
    by (auto simp: close_cli_def)
  with Cli_Close assms show ?thesis
    by (cases conn) (auto simp: close_cli_def send_close_def dest!: close_then_Exits
        split: sum.split_asm close_result.split_asm)
next
  case (Cli_Daemon foreground)
  with assms show ?thesis
    by (auto simp: daemon_cli_def Let_def split: sum.split_asm)
next
  case Cli_Exit
  with assms show ?thesis
    by (auto simp: exit_cli_def send_exit_def dest!: close_then_Exits
        split: sum.split_asm option.split_asm)
next
  case (Cli_Open opts)
  with assms show ?thesis
    by (auto simp: after_open_def elim!: open_cli_cases dest!: close_then_Exits [OF sym]
        split: if_split_asm option.split_asm)
next
  case Cli_Status
  with assms show ?thesis
    by (auto simp: status_cli_def query_status_def dest!: close_then_Exits
        split: sum.split_asm option.split_asm)
qed

theorem success_says_goodbye_witness:
  "0 = (0 :: int) \<and> ([CM_Close \<lparr>cp_host = ''h''\<rparr>, CM_Goodbye] = [] \<or>
     last [CM_Close \<lparr>cp_host = ''h''\<rparr>, CM_Goodbye] = CM_Goodbye)"
proof (rule success_says_goodbye)
  show "fst (stund_cli_run (Cli_Close \<lparr>co_host = ''h''\<rparr>) \<lparr>cli_conn = sample_conn, cli_tty1 = sample_tty,
      cli_tty2 = sample_tty, cli_exec = None,
      cli_new = \<lparr>home_dir = None, connect_ok = False, remove_result = Inr (), create_result = Inr (),
        daemonize_result = Inr ()\<rparr>, cli_core = Inr (), cli_bind = Inr ()\<rparr> 0) =
    Return (Exits 0, [], [CM_Close \<lparr>cp_host = ''h''\<rparr>, CM_Goodbye])"
    by (simp add: close_cli_def sample_establish send_close_def ask_def close_then_def
        connection_close_def) (simp add: sample_conn_def)
qed

end
