(* ===== verification/OpenEnd.thy ===== *)
theory OpenEnd
  imports Wire CliProps
begin

text \<open>
  How \<open>stund open\<close> ends: what the client has read when it reports success, and what the daemon's
  session must then have seen.
\<close>

section \<open>What a run of the workflow reads\<close>

fun acks :: "(server_message option, string) poll list \<Rightarrow> server_message list" where
  "acks (Ready (Some SM_Ok) # as) = SM_Ok # acks as"
| "acks (Ready (Some m) # as) = [m]"
| "acks _ = []"

fun poll_reads :: "wf_env \<Rightarrow> workflow \<Rightarrow> server_message list" where
  "poll_reads env (FirstAck params saw_ok) = acks (daemon_rx env)"
| "poll_reads env (Communicating s) = heard (daemon_rx env)"
| "poll_reads env _ = []"

fun run_reads :: "wf_env list \<Rightarrow> workflow \<Rightarrow> server_message list" where
  "run_reads [] st = []"
| "run_reads (env # envs) st =
     poll_reads env st @
     (case poll_workflow env st of
        Return (Stay st') \<Rightarrow> run_reads envs st'
      | Return (Goto st') \<Rightarrow> run_reads envs st'
      | _ \<Rightarrow> [])"

lemma first_ack_loop_reads:
  "first_ack_loop as saw = Return (Inr (Inr saw')) \<Longrightarrow>
   \<exists>n. acks as = replicate n SM_Ok \<and> (saw' \<longleftrightarrow> saw \<or> 0 < n)"
proof (induction as saw rule: first_ack_loop.induct)
  case (2 as saw_ok)
  then show ?case by (auto intro: exI [of _ 0])
next
  case (4 as saw_ok)
  then obtain n where "acks as = replicate n SM_Ok" "saw'" by auto
  then show ?case by (auto intro: exI [of _ "Suc n"])
qed simp_all

lemma read_daemon_reads:
  "read_daemon as s = Return (Inr (done, s')) \<Longrightarrow>
   \<exists>ds. heard as = map SM_SshData ds @ (if done then [SM_Ok] else [])"
proof (induction as s rule: read_daemon.induct)
  case (4 data as s)
  then obtain ds where "heard as = map SM_SshData ds @ (if done then [SM_Ok] else [])" by auto
  then show ?case by (auto intro: exI [of _ "data # ds"])
qed auto

lemma first_ack_result: "first_ack_loop as saw \<noteq> Return (Inr (Inl OpenSuccess))"
  by (induction as saw rule: first_ack_loop.induct) simp_all

lemma no_ack_not_lost:
  assumes "read_daemon (daemon_rx env) s = Return (Inr (False, s1))" "poll_communicating env s = Return m"
  shows "m \<noteq> Lost"
proof (cases "read_keyboard (user_rx env) s1")
  case (Return r)
  with assms show ?thesis
    by (auto simp: poll_communicating_def finish_poll_def split: sum.split_asm poll.split_asm)
qed (use assms in \<open>simp_all add: poll_communicating_def\<close>)

lemma poll_communicating_outcome:
  assumes "poll_communicating env s = Return m"
  shows "(\<exists>s'. m = Stay (Communicating s')) \<and> (\<exists>ds. heard (daemon_rx env) = map SM_SshData ds) \<or>
    m = Goto (WFinished OpenSuccess) \<and> (\<exists>ds. heard (daemon_rx env) = map SM_SshData ds @ [SM_Ok]) \<or>
    (\<exists>e. m = Raise e)"
proof -
  from assms obtain r where r: "read_daemon (daemon_rx env) s = Return r"
    by (auto simp: poll_communicating_def)
  show ?thesis
  proof (cases r)
    case (Inl e)
    with assms r show ?thesis by (auto simp: poll_communicating_def)
  next
    case (Inr p)
    obtain fin s1 where p: "p = (fin, s1)" by (cases p)
    from read_daemon_reads [of _ s fin s1] r Inr p
    obtain ds where ds: "heard (daemon_rx env) = map SM_SshData ds @ (if fin then [SM_Ok] else [])" by blast
    show ?thesis
    proof (cases fin)
      case True
      with assms r Inr p ds show ?thesis by (auto simp: poll_communicating_def)
    next
      case False
      with r Inr p have "read_daemon (daemon_rx env) s = Return (Inr (False, s1))" by simp
      from no_ack_no_end [OF this assms] no_ack_not_lost [OF this assms] False ds assms show ?thesis
        by (cases m) (auto elim: workflow_poll_effect)
    qed
  qed
qed

lemma dialogue_success_reads:
  "run_workflow envs (Communicating s) = Return (Inr OpenSuccess, msgs) \<Longrightarrow>
   \<exists>ds. run_reads envs (Communicating s) = map SM_SshData ds @ [SM_Ok]"
proof (induction envs arbitrary: s)
  case (Cons env envs)
  then obtain m where poll: "poll_communicating env s = Return m" by auto
  from poll_communicating_outcome [OF poll] show ?case
  proof (elim disjE exE conjE)
    fix s' ds
    assume stay: "m = Stay (Communicating s')" and ds: "heard (daemon_rx env) = map SM_SshData ds"
    with Cons poll obtain ds' where "run_reads envs (Communicating s') = map SM_SshData ds' @ [SM_Ok]"
      by auto
    with poll stay ds show ?thesis by (auto intro: exI [of _ "ds @ ds'"])
  next
    fix ds
    assume "m = Goto (WFinished OpenSuccess)" "heard (daemon_rx env) = map SM_SshData ds @ [SM_Ok]"
    moreover have "run_reads envs (WFinished OpenSuccess) = []" by (cases envs) simp_all
    ultimately show ?thesis using poll by auto
  qed (use Cons.prems poll in simp)
qed simp

lemma ack_success_reads:
  "run_workflow envs (FirstAck params saw) = Return (Inr OpenSuccess, msgs) \<Longrightarrow>
   \<exists>n ds. run_reads envs (FirstAck params saw) = replicate n SM_Ok @ map SM_SshData ds @ [SM_Ok] \<and>
     (saw \<or> 0 < n)"
proof (induction envs arbitrary: saw)
  case (Cons env envs)
  then obtain r where loop: "first_ack_loop (daemon_rx env) saw = Return r"
    by (auto simp: poll_first_ack_def)
  show ?case
  proof (cases r)
    case (Inl e)
    with Cons.prems loop show ?thesis by (simp add: poll_first_ack_def)
  next
    case (Inr r2)
    show ?thesis
    proof (cases r2)
      case (Inl result)
      with Cons.prems loop Inr first_ack_result [of "daemon_rx env" saw] show ?thesis
        by (auto simp: poll_first_ack_def)
    next
      case saw2: (Inr saw2)
      from first_ack_loop_reads loop Inr saw2 obtain n where
        n: "acks (daemon_rx env) = replicate n SM_Ok" "saw2 \<longleftrightarrow> saw \<or> 0 < n" by blast
      show ?thesis
      proof (cases saw2)
        case True
        with loop Inr saw2 have go: "poll_workflow env (FirstAck params saw) =
            Return (Goto (Communicating (wf_start params)))"
          by (simp add: poll_first_ack_def)
        with Cons.prems dialogue_success_reads obtain ds where
          "run_reads envs (Communicating (wf_start params)) = map SM_SshData ds @ [SM_Ok]" by fastforce
        with go n True show ?thesis by (intro exI [of _ n] exI [of _ ds]) simp
      next
        case False
        with loop Inr saw2 have stay: "poll_workflow env (FirstAck params saw) =
            Return (Stay (FirstAck params False))"
          by (simp add: poll_first_ack_def)
        with Cons.prems Cons.IH [of False] obtain k ds where
          "run_reads envs (FirstAck params False) = replicate k SM_Ok @ map SM_SshData ds @ [SM_Ok]" "0 < k"
          by auto
        with stay n False show ?thesis by (intro exI [of _ k] exI [of _ ds]) simp
      qed
    qed
  qed
qed simp

lemma open_success_reads:
  "send_open params envs = Return (Inr OpenSuccess, msgs) \<Longrightarrow>
   \<exists>n ds. run_reads envs (Issue params) = replicate (Suc n) SM_Ok @ map SM_SshData ds @ [SM_Ok]"
  unfolding send_open_def
proof (induction envs)
  case (Cons env envs)
  show ?case
  proof (cases "issue_send env")
    case (Ready u)
    with Cons.prems have "run_workflow envs (FirstAck params False) = Return (Inr OpenSuccess, msgs)"
      by (simp add: poll_issue_def)
    from ack_success_reads [OF this] obtain n ds where
      "run_reads envs (FirstAck params False) = replicate n SM_Ok @ map SM_SshData ds @ [SM_Ok]" "0 < n" by auto
    with Ready show ?thesis by (intro exI [of _ "n - 1"] exI [of _ ds]) (simp add: poll_issue_def)
  next
    case NotReady
    with Cons show ?thesis by (simp add: poll_issue_def)
  next
    case (PollErr e)
    with Cons.prems show ?thesis by (simp add: poll_issue_def)
  qed
qed simp

section \<open>What the command line prints\<close>

definition success_line :: string where
  "success_line = ''[Tunnel successfully opened.]''"

lemma toggle_lines: "toggle_terminal_echo active t lflag = (lflag', ls) \<Longrightarrow> success_line \<notin> set ls"
  by (auto simp: toggle_terminal_echo_def success_line_def Let_def split: if_split_asm)

lemma open_request_returns:
  assumes "fst (open_request opts a t1 t2 lflag) = Return (r, msgs, ls)"
  shows "(\<exists>r'. send_open \<lparr>op_host = oo_host opts\<rparr> (ca_open a) = Return (r', msgs) \<and> r = map_open_err r') \<and>
    success_line \<notin> set ls"
proof (cases "oo_no_input opts")
  case True
  with assms show ?thesis by (auto simp: open_request_def)
next
  case False
  obtain lflag1 l1 where t1: "toggle_terminal_echo False t1 lflag = (lflag1, l1)" by fastforce
  obtain lflag2 l2 where t2: "toggle_terminal_echo True t2 lflag1 = (lflag2, l2)" by fastforce
  from assms False t1 t2 toggle_lines [OF t1] toggle_lines [OF t2] show ?thesis
    by (auto simp: open_request_def split: run.split_asm)
qed

lemma reported_open:
  assumes "fst (open_cli opts a t1 t2 exec lflag) = Return (out, lines, msgs)" "success_line \<in> set lines"
  shows "\<exists>sent. send_open \<lparr>op_host = oo_host opts\<rparr> (ca_open a) = Return (Inr OpenSuccess, sent)"
  using assms(1)
proof (cases rule: open_cli_cases)
  case (failed e msgs' ls)
  with assms(2) open_request_returns [OF failed(1)] show ?thesis by simp
next
  case (opened result msgs' ls)
  from opened(2) have "lines = ls @ open_result_lines opts result"
    by (auto simp: close_then_def connection_close_def split: sum.split_asm)
  with assms(2) open_request_returns [OF opened(1)] have "success_line \<in> set (open_result_lines opts result)"
    by auto
  then have "result = OpenSuccess"
    by (auto simp: open_result_lines_def success_line_def split: if_split_asm open_result.split_asm)
  moreover from open_request_returns [OF opened(1)] obtain r' where
    "send_open \<lparr>op_host = oo_host opts\<rparr> (ca_open a) = Return (r', msgs')" "Inr result = map_open_err r'"
    by blast
  ultimately show ?thesis by (cases r') (simp_all add: map_open_err_def)
qed (use assms(2) in simp)

section \<open>What the session has sent\<close>

lemma dialogue_poll_sends:
  assumes "poll_communicating_for_open env c w = Return (m, w')"
  shows "\<exists>ds. sent_to (cl_tx c) w' = sent_to (cl_tx c) w @ map SM_SshData ds"
  using assms
proof (cases rule: poll_communicating_cases)
  case (failed_sending e st)
  then show ?thesis by (auto intro: exI [of _ "[]"] exI [of _ "[d]" for d])
next
  case (waiting st c3 c4)
  from waiting(2) show ?thesis
    by (cases rule: flush_cl_buf_cases)
      (auto simp: after_reading_def intro: exI [of _ "[]"] exI [of _ "[d]" for d])
qed (auto simp: sent_to_def)

text \<open>A run goes on after its first poll, or ends with it.\<close>

lemma communicate_Cons_cases:
  assumes "communicate ((others, env) # ts) c w = Return (m, w')"
  obtains (goes_on) c1 w1 where "poll_communicating_for_open env c (others w) =
        Return (Stay (CommunicatingForOpen c1), w1)"
      "cl_tx c1 = cl_tx c" "communicate ts c1 w1 = Return (m, w')"
  | (ends) "poll_communicating_for_open env c (others w) = Return (m, w')"
proof -
  from assms obtain m1 w1 where
    poll: "poll_communicating_for_open env c (others w) = Return (m1, w1)" and
    rest: "(case m1 of Stay (CommunicatingForOpen c') \<Rightarrow> communicate ts c' w1 | _ \<Rightarrow> Return (m1, w1)) =
      Return (m, w')"
    by auto
  show thesis
  proof (cases "\<exists>m2. m1 = Stay m2")
    case True
    with poll obtain c1 where "m1 = Stay (CommunicatingForOpen c1)" "turn_effect env c (others w) c1 w1"
      by (auto elim: poll_communicating_Stay)
    with poll rest goes_on show thesis by (simp add: turn_effect_def)
  next
    case False
    with rest have "m1 = m" "w1 = w'" by (cases m1; simp)+
    with poll ends show thesis by simp
  qed
qed

lemma dialogue_sends:
  assumes "communicate ts c w = Return (m, w')" "undisturbed (cl_tx c) ts"
  shows "\<exists>ds. sent_to (cl_tx c) w' = sent_to (cl_tx c) w @ map SM_SshData ds"
  using assms
proof (induction ts arbitrary: c w)
  case (Cons t ts)
  obtain others env where t: "t = (others, env)" by (cases t)
  from Cons.prems(1) [unfolded t] show ?case
  proof (cases rule: communicate_Cons_cases)
    case (goes_on c1 w1)
    from dialogue_poll_sends [OF goes_on(1)] Cons.prems(2) t obtain ds where
      "sent_to (cl_tx c) w1 = sent_to (cl_tx c) w @ map SM_SshData ds" by auto
    moreover from goes_on Cons.IH [of c1 w1] Cons.prems(2) t obtain ds' where
      "sent_to (cl_tx c) w' = sent_to (cl_tx c) w1 @ map SM_SshData ds'" by auto
    ultimately show ?thesis by (auto intro: exI [of _ "ds @ ds'"])
  next
    case ends
    from dialogue_poll_sends [OF ends] Cons.prems(2) t show ?thesis by simp
  qed
qed (auto intro: exI [of _ "[]"])

lemma dialogue_poll_goes:
  assumes "poll_communicating_for_open env c w = Return (Goto cl, w')"
  shows "(\<exists>cm tx. cl = FinalizingTxn cm tx SM_Ok) \<or> (\<exists>cm tx e. cl = Aborting cm tx (Some (SM_Error e)))"
  using assms by (cases rule: poll_communicating_cases) auto

lemma communicate_goes:
  assumes "communicate ts c w = Return (Goto cl, w')"
  shows "(\<exists>cm tx. cl = FinalizingTxn cm tx SM_Ok) \<or> (\<exists>cm tx e. cl = Aborting cm tx (Some (SM_Error e)))"
  using assms
proof (induction ts arbitrary: c w)
  case (Cons t ts)
  obtain others env where t: "t = (others, env)" by (cases t)
  from Cons.prems [unfolded t] show ?case
    by (cases rule: communicate_Cons_cases) (auto dest: Cons.IH dialogue_poll_goes)
qed simp

lemma count_acks:
  "count_list (map SM_SshData ds) SM_Ok = 0" "count_list (replicate n SM_Ok) SM_Ok = n"
  by (induction ds, simp_all) (induction n, simp_all)

lemma subseq_count: "subseq xs ys \<Longrightarrow> count_list xs x \<le> count_list ys x"
  by (induction rule: list_emb.induct) auto

section \<open>Properties\<close>

text \<open>C8. \<open>stund open\<close> reports success only for a tunnel that is up: if it prints that the tunnel has
  been opened, and what its workflow has read comes over a connection from the session of the
  daemon that launched SSH, no read of which has ended inside a message, then SSH has printed
  the whole marker, so the login is over; the session ended its dialogue for this reason and
  none other. Messages may have shared reads. (A read that ends inside a chunk of output is
  excluded, since what is left of the chunk can look like an acknowledgement.)\<close>

theorem reported_success_is_real:
  assumes "fst (open_cli opts a t1 t2 exec lflag) = Return (out, lines, msgs)"
    and "success_line \<in> set lines"
    and "communicate ts (opened cm tx key) w = Return (m, w')"
    and "undisturbed tx ts" "sent_to tx w = [SM_Ok]" "key \<noteq> []"
    and "delivers (sent_to tx w' @ pending_reply m) (run_reads (ca_open a) (Issue \<lparr>op_host = oo_host opts\<rparr>))"
  shows "m = Goto (FinalizingTxn cm tx SM_Ok) \<and> sublist (into_bytes key) (concat (all_printed ts))"
proof -
  from assms(1,2) have "\<exists>sent. send_open \<lparr>op_host = oo_host opts\<rparr> (ca_open a) = Return (Inr OpenSuccess, sent)"
    by (rule reported_open)
  then obtain n ds where reads: "run_reads (ca_open a) (Issue \<lparr>op_host = oo_host opts\<rparr>) =
      replicate (Suc n) SM_Ok @ map SM_SshData ds @ [SM_Ok]"
    using open_success_reads by blast
  from dialogue_sends [OF assms(3)] assms(4,5) obtain ds' where
    sent: "sent_to tx w' = SM_Ok # map SM_SshData ds'" by (auto simp: opened_def)
  from subseq_count [OF conveys_subseq [OF assms(7)], of SM_Ok] reads sent
  have "0 < count_list (pending_reply m) SM_Ok" by (simp add: count_acks)
  then obtain cl where m: "m = Goto cl" and cl: "\<not> (\<exists>cm tx e. cl = Aborting cm tx (Some (SM_Error e)))"
    by (cases m rule: pending_reply.cases) (auto split: if_split_asm)
  from communicate_goes assms(3) m cl obtain cm' tx' where "m = Goto (FinalizingTxn cm' tx' SM_Ok)" by blast
  with assms(3,4) communicate_found [of ts "opened cm tx key" w cm' tx' SM_Ok w'] show ?thesis
    using found_key [OF _ assms(6)] by (auto simp: opened_def)
qed

text \<open>An open that succeeds: the first \<open>Ok\<close>, output in which the marker begins, the final \<open>Ok\<close>.\<close>

definition success_polls :: "wf_env list" where
  "success_polls =
     [sample_wf_env, sample_wf_env\<lparr>daemon_rx := [Ready (Some SM_Ok), NotReady]\<rparr>,
      sample_wf_env\<lparr>daemon_rx := [Ready (Some (SM_SshData [7, 65])), NotReady]\<rparr>,
      sample_wf_env\<lparr>daemon_rx := [Ready (Some SM_Ok)]\<rparr>]"

lemma success_polls_run:
  "send_open \<lparr>op_host = ''h''\<rparr> success_polls = Return (Inr OpenSuccess, [CM_Open \<lparr>op_host = ''h''\<rparr>])"
  "run_reads success_polls (Issue \<lparr>op_host = ''h''\<rparr>) = [SM_Ok, SM_SshData [7, 65], SM_Ok]"
  by (simp_all add: send_open_def success_polls_def sample_wf_env_def poll_issue_def poll_first_ack_def
      poll_communicating_def wf_start_def flush_user_def flush_daemon_def finish_poll_def)

definition marker_turns :: "turn list" where
  "marker_turns =
     [(id, sample_env\<lparr>ssh_rx_answers := [Ready (Some [7, 65]), NotReady]\<rparr>),
      (id, sample_env\<lparr>ssh_rx_answers := [Ready (Some [66, 10]), NotReady]\<rparr>)]"

lemma marker_turns_run:
  "communicate marker_turns (opened quiet_common 0 ''AB'') (take_message 0 SM_Ok empty_world) =
     Return (Goto (FinalizingTxn quiet_common 0 SM_Ok),
       spawn SshLogTask (take_message 0 (SM_SshData [7, 65]) (take_message 0 SM_Ok empty_world)))"
  by (simp add: marker_turns_def poll_communicating_for_open_def opened_def sample_env_def flush_cl_buf_def
      flush_ssh_buf_def finish_communicating_def search_key_def into_bytes_def of_char_def
      hand_off_ssh_process_def)

theorem reported_success_is_real_witness:
  "sublist (into_bytes ''AB'') (concat (all_printed marker_turns))"
proof -
  let ?opts = "\<lparr>oo_host = ''h'', oo_quiet = False, oo_no_input = True, oo_after_command = []\<rparr>"
  let ?a = "sample_conn\<lparr>ca_open := success_polls\<rparr>"
  have run: "fst (open_cli ?opts ?a sample_tty sample_tty None 0) =
      Return (Exits 0, [success_line], [CM_Open \<lparr>op_host = ''h''\<rparr>, CM_Goodbye])"
    using sample_establish success_polls_run(1)
    by (simp add: open_cli_def open_request_def map_open_err_def open_result_lines_def success_line_def
        close_then_def connection_close_def after_open_def) (simp add: sample_conn_def)
  have sent: "sent_to 0 (spawn SshLogTask (take_message 0 (SM_SshData [7, 65]) (take_message 0 SM_Ok empty_world))) =
      [SM_Ok, SM_SshData [7, 65]]" "sent_to 0 (take_message 0 SM_Ok empty_world) = [SM_Ok]"
    by (simp_all add: sent_to_def empty_world_def)
  have "bincode_ok [SM_Ok, SM_SshData [7, 65], SM_Ok] sample_message_ser sample_message_de"
    using sample_message_ok(2) [of "[7, 65]"] by (simp add: bincode_ok_def)
  from carries_all [OF this] have
    "carries [SM_Ok, SM_SshData [7, 65], SM_Ok] (run_reads success_polls (Issue \<lparr>op_host = ''h''\<rparr>))"
    by (simp add: success_polls_run)
  from carries_delivers [OF this] show ?thesis
    using reported_success_is_real [OF run _ marker_turns_run] sent by (simp add: marker_turns_def)
qed

section \<open>Failures\<close>

text \<open>The user never sees why an open has failed: whatever error the workflow ends with, also a text
  the daemon has sent, the command fails with the same error and prints nothing about it.\<close>

theorem open_error_text_is_lost:
  assumes "fst (establish (ca_establish a)) = Return (Inr ())"
    and "send_open \<lparr>op_host = oo_host opts\<rparr> (ca_open a) = Return (Inl e, msgs)"
  shows "\<exists>lines. fst (open_cli opts a t1 t2 exec lflag) = Return (Fails CliOther, lines, msgs) \<and>
    (oo_no_input opts \<longrightarrow> lines = [])"
proof (cases "oo_no_input opts")
  case True
  with assms show ?thesis by (simp add: open_cli_def open_request_def map_open_err_def)
next
  case False
  obtain lflag1 l1 where "toggle_terminal_echo False t1 lflag = (lflag1, l1)" by fastforce
  moreover obtain lflag2 l2 where "toggle_terminal_echo True t2 lflag1 = (lflag2, l2)" by fastforce
  ultimately show ?thesis using assms False by (simp add: open_cli_def open_request_def map_open_err_def)
qed

theorem open_error_text_is_lost_witness:
  "fst (open_cli \<lparr>oo_host = ''h'', oo_quiet = False, oo_no_input = True, oo_after_command = []\<rparr>
     sample_conn sample_tty sample_tty None 0) = Return (Fails CliOther, [], [CM_Open \<lparr>op_host = ''h''\<rparr>])"
proof -
  let ?opts = "\<lparr>oo_host = ''h'', oo_quiet = False, oo_no_input = True, oo_after_command = []\<rparr>"
  have "send_open \<lparr>op_host = oo_host ?opts\<rparr> (ca_open sample_conn) =
      Return (Inl (ClientError ''no route''), [CM_Open \<lparr>op_host = ''h''\<rparr>])"
    using sample_open_fails by (simp add: sample_conn_def)
  from open_error_text_is_lost [OF sample_establish this, of sample_tty sample_tty None 0]
  show ?thesis by simp
qed

text \<open>The first acknowledgement is read greedily: SSH output that arrives in the same poll fails the
  open, and a second acknowledgement in it is swallowed.\<close>

theorem first_ack_reads_too_far:
  "daemon_rx env = Ready (Some SM_Ok) # Ready (Some (SM_SshData data)) # as \<Longrightarrow>
   poll_workflow env (FirstAck params saw) = Return (Raise (UnexpectedReply (SM_SshData data)))"
  "daemon_rx env = [Ready (Some SM_Ok), Ready (Some SM_Ok), NotReady] \<Longrightarrow>
   poll_workflow env (FirstAck params saw) = Return (Goto (Communicating (wf_start params)))"
  by (simp_all add: poll_first_ack_def)

end
