(* ===== verification/Wakeups.thy ===== *)
theory Wakeups
  imports Daemon SessionFacts Samples ClientApi
begin

text \<open>
  A future that returns \<open>NotReady\<close> is polled again only when something it has polled, and found
  not ready, has become ready. What each task has to wait for, and that it does: the reactor
  never forgets a task that has work to do.
\<close>

section \<open>Sources\<close>












section \<open>What a waiting task waits for\<close>







section \<open>One lemma per machine\<close>







section \<open>Property\<close>





end
