(* ===== verification/DaemonInv.thy ===== *)
theory DaemonInv
  imports Daemon Replies
begin

text \<open>
  The invariant of the daemon process, over all interleavings of its tasks: the tunnel table,
  the kill channels, the monitors and the sessions fit together.
\<close>

section \<open>The invariant\<close>

fun monitor_ok :: "world \<Rightarrow> monitor \<Rightarrow> bool" where
  "monitor_ok w (AwaitingChildEvent key c ch) \<longleftrightarrow>
     \<not> reaped c \<and> kill_on_drop c \<and> ch < next_chan w \<and>
     list_all (\<lambda>(k, t). t = Running ch \<longrightarrow> k = key) (children w)"
| "monitor_ok w (AwaitingChildReaped key c) \<longleftrightarrow> \<not> reaped c \<and> kill_on_drop c"
| "monitor_ok w (NotifyingChildDied st) \<longleftrightarrow> True"
| "monitor_ok w ChildReaped \<longleftrightarrow> False"
| "monitor_ok w ChildError \<longleftrightarrow> False"

fun client_ok :: "client \<Rightarrow> bool" where
  "client_ok (CommunicatingForOpen c) \<longleftrightarrow> status_ok (ssh_key c) (ssh_key_status c)"
| "client_ok (Finished cm tx) \<longleftrightarrow> False"
| "client_ok (Failed e) \<longleftrightarrow> False"
| "client_ok _ \<longleftrightarrow> True"

fun chans_of :: "task \<Rightarrow> kill_chan list" where
  "chans_of (MonitorTask (AwaitingChildEvent key c ch)) = [ch]"
| "chans_of _ = []"

fun conns_of :: "task \<Rightarrow> conn list" where
  "conns_of (ClientTask (AwaitingCommand cm tx)) = [tx]"
| "conns_of (ClientTask (CommunicatingForOpen c)) = [cl_tx c]"
| "conns_of (ClientTask (FinalizingTxn cm tx msg)) = [tx]"
| "conns_of (ClientTask (Aborting cm tx msg)) = [tx]"
| "conns_of _ = []"

fun task_ok :: "world \<Rightarrow> task \<Rightarrow> bool" where
  "task_ok w (MonitorTask m) \<longleftrightarrow> monitor_ok w m"
| "task_ok w (ClientTask cl) \<longleftrightarrow> client_ok cl \<and> list_all (\<lambda>c. c < next_conn w) (conns_of (ClientTask cl))"
| "task_ok w t \<longleftrightarrow> True"

text \<open>
  One entry per host; a running entry has a kill channel of its own, over which nothing has
  been sent.
\<close>

definition table_inv :: "world \<Rightarrow> bool" where
  "table_inv w \<longleftrightarrow>
     table_ok (children w) \<and>
     (\<forall>k ch. children_get (children w) k = Some (Running ch) \<longrightarrow>
        ch < next_chan w \<and> ch \<notin> set (kill_sent w)) \<and>
     (\<forall>k k' ch. children_get (children w) k = Some (Running ch) \<longrightarrow>
        children_get (children w) k' = Some (Running ch) \<longrightarrow> k = k') \<and>
     (\<forall>ch \<in> set (kill_sent w). ch < next_chan w)"

definition tasks_inv :: "world \<Rightarrow> bool" where
  "tasks_inv w \<longleftrightarrow>
     list_all (task_ok w) (tasks w) \<and>
     distinct (concat (map chans_of (tasks w))) \<and> distinct (concat (map conns_of (tasks w)))"

definition daemon_inv :: "world \<Rightarrow> bool" where
  "daemon_inv w \<longleftrightarrow> table_inv w \<and> tasks_inv w"

lemma running_entries:
  "table_ok (children w) \<Longrightarrow>
   list_all (\<lambda>(k, t). t = Running ch \<longrightarrow> k = key) (children w) \<longleftrightarrow>
   (\<forall>k. children_get (children w) k = Some (Running ch) \<longrightarrow> k = key)"
  by (auto simp: list_all_iff table.iter_iff)

section \<open>What a poll changes\<close>

text \<open>
  The effect of a session's poll on the table, the channels and the tasks: nothing but tasks
  that log or end the process, a launch, or a close.
\<close>

definition same_core :: "world \<Rightarrow> world \<Rightarrow> bool" where
  "same_core w w' \<longleftrightarrow>
     children w' = children w \<and> kill_sent w' = kill_sent w \<and> next_chan w' = next_chan w \<and>
     tasks w' = tasks w \<and> next_conn w' = next_conn w \<and> sigkills w' = sigkills w \<and>
     exit_msgs w' = exit_msgs w \<and>
     prefix (log_lines w) (log_lines w')"

inductive session_effect :: "world \<Rightarrow> world \<Rightarrow> bool" where
  same: "same_core w w' \<Longrightarrow> session_effect w w'"
| hand_off: "same_core (spawn SshLogTask w) w' \<Longrightarrow> session_effect w w'"
| open_failed: "same_core (w\<lparr>next_chan := next_chan w + 1\<rparr>) w' \<Longrightarrow> session_effect w w'"
| launch: "\<not> reaped child \<Longrightarrow> kill_on_drop child \<Longrightarrow>
    same_core (insert_child key (Running (next_chan w))
      (spawn (MonitorTask (AwaitingChildEvent key child (next_chan w)))
        (w\<lparr>next_chan := next_chan w + 1\<rparr>))) w' \<Longrightarrow> session_effect w w'"
| forget: "same_core (remove_child key w) w' \<Longrightarrow> session_effect w w'"
| close: "children_get (children w) key = Some (Running ch) \<Longrightarrow>
    same_core ((remove_child key w)\<lparr>kill_sent := ch # kill_sent w\<rparr>) w' \<Longrightarrow> session_effect w w'"

lemma same_core_refl [simp]: "same_core w w"
  by (simp add: same_core_def)

lemma process_open_effect:
  assumes "process_open_command env cm params tx w = Return (res, w')"
  shows "session_effect w w'"
  using assms
proof (cases rule: process_open_cases)
  case already
  then show ?thesis by (intro session_effect.same) (simp add: same_core_def)
next
  case (failed e)
  then show ?thesis by (intro session_effect.open_failed) (simp add: same_core_def)
next
  case (launched w2 fd)
  from launched(1) show ?thesis
  proof (cases rule: open_inner_cases)
    case (running fd' child)
    with launched(3) show ?thesis
      by (intro session_effect.launch [of child "op_host params"])
        (auto simp: same_core_def spawn_def insert_child_def log_items_def)
  qed simp
qed

lemma process_close_effect:
  assumes "process_close_command env cm params tx w = Return (res, w')"
  shows "session_effect w w'"
  using assms
  by (auto simp: process_close_command_def Let_def same_core_def
      split: option.split_asm tunnel_state.split_asm sum.split_asm
      intro: session_effect.forget [where key = "cp_host params"]
        session_effect.close [where key = "cp_host params"])

lemma poll_communicating_effect:
  assumes "poll_communicating_for_open env c w = Return (res, w')"
  shows "session_effect w w'"
  using assms
proof (cases rule: poll_communicating_cases)
  case (waiting st c3 c4)
  then show ?thesis
    by (intro session_effect.same) (auto simp: same_core_def elim!: flush_cl_buf_cases)
next
  case found
  then show ?thesis by (intro session_effect.hand_off) simp_all
qed (auto simp: same_core_def intro!: session_effect.same)

lemma poll_client_effect:
  assumes "poll_client env cl w = Return (res, w')"
  shows "session_effect w w'"
proof (cases cl)
  case (AwaitingCommand cm tx)
  with assms obtain a as where a: "rx_answers env = a # as"
    by (auto simp: poll_awaiting_command_def split: list.split_asm)
  show ?thesis
  proof (cases "(\<exists>p. a = Ready (Some (CM_Open p))) \<or> (\<exists>p. a = Ready (Some (CM_Close p)))")
    case True
    with assms AwaitingCommand a show ?thesis
      by (auto simp: poll_awaiting_command_def dest: process_open_effect process_close_effect)
  next
    case False
    with assms AwaitingCommand a show ?thesis
      by (intro session_effect.same)
        (auto simp: poll_awaiting_command_def process_status_query_def same_core_def
          split: poll.split_asm option.split_asm client_message.split_asm)
  qed
next
  case (CommunicatingForOpen c)
  with assms show ?thesis by (auto dest: poll_communicating_effect)
next
  case (FinalizingTxn cm tx msg)
  with assms show ?thesis
    by (intro session_effect.same) (auto simp: same_core_def elim!: poll_finalizing_cases)
next
  case (Aborting cm tx msg)
  with assms show ?thesis
    by (intro session_effect.same) (auto simp: same_core_def elim!: poll_aborting_cases)
qed (use assms in simp_all)

section \<open>The invariant is kept\<close>

lemma inv_cong:
  assumes "children w' = children w" "kill_sent w' = kill_sent w" "next_chan w' = next_chan w"
    "tasks w' = tasks w" "next_conn w' = next_conn w"
  shows "daemon_inv w' = daemon_inv w"
proof -
  have "task_ok w' t = task_ok w t" for t
  proof (cases t)
    case (MonitorTask m)
    with assms show ?thesis by (cases m) auto
  qed (auto simp: assms)
  with assms show ?thesis by (simp add: daemon_inv_def table_inv_def tasks_inv_def list_all_iff)
qed

lemma same_core_inv: "same_core w w' \<Longrightarrow> daemon_inv w' = daemon_inv w"
  by (rule inv_cong) (simp_all add: same_core_def)

lemma quiet_inv [simp]:
  "daemon_inv (log_items l w) = daemon_inv w" "daemon_inv (send_signals ps w) = daemon_inv w"
  "daemon_inv (w\<lparr>exit_msgs := n\<rparr>) = daemon_inv w"
  by (rule inv_cong; simp)+

lemma task_okI:
  assumes "task_ok w t" "next_chan w \<le> next_chan w'" "next_conn w \<le> next_conn w'"
    and "\<And>k ch. (k, Running ch) \<in> set (children w') \<Longrightarrow>
      (k, Running ch) \<in> set (children w) \<or> next_chan w \<le> ch"
  shows "task_ok w' t"
proof (cases t)
  case (MonitorTask m)
  with assms show ?thesis
    by (cases m) (auto simp: list_all_iff, fastforce)
next
  case (ClientTask cl)
  with assms show ?thesis by (auto simp: list_all_iff)
qed simp_all

text \<open>Removing an entry, or recording an exit, and sending on a channel no entry holds.\<close>

lemma fewer_running_inv:
  assumes inv: "daemon_inv w" and ok: "table_ok (children w')"
    and less: "\<And>k ch. children_get (children w') k = Some (Running ch) \<Longrightarrow>
      children_get (children w) k = Some (Running ch) \<and> ch \<notin> set (kill_sent w')"
    and sent: "\<And>ch. ch \<in> set (kill_sent w') \<Longrightarrow> ch < next_chan w"
    and same: "next_chan w' = next_chan w" "next_conn w' = next_conn w" "tasks w' = tasks w"
  shows "daemon_inv w'"
proof -
  from inv have t: "table_ok (children w)" by (simp add: daemon_inv_def table_inv_def)
  have "task_ok w' t" if "task_ok w t" for t
    using that
  proof (rule task_okI)
    fix k ch
    assume "(k, Running ch) \<in> set (children w')"
    then show "(k, Running ch) \<in> set (children w) \<or> next_chan w \<le> ch"
      using less table.iter_iff [OF ok] table.iter_iff [OF t] by simp
  qed (simp_all add: same)
  moreover have "table_inv w'"
    using inv ok sent same(1) unfolding daemon_inv_def table_inv_def by (auto dest!: less)
  ultimately show ?thesis
    using inv same(3) by (simp add: daemon_inv_def tasks_inv_def list_all_iff)
qed

lemma exited_inv:
  assumes "daemon_inv w"
  shows "daemon_inv (insert_child k (Exited st) w)"
proof -
  from assms have t: "table_ok (children w)"
    and r: "\<And>k ch. children_get (children w) k = Some (Running ch) \<Longrightarrow>
      ch < next_chan w \<and> ch \<notin> set (kill_sent w)"
    and s: "\<And>ch. ch \<in> set (kill_sent w) \<Longrightarrow> ch < next_chan w"
    by (simp_all add: daemon_inv_def table_inv_def)
  show ?thesis
    using assms
    by (rule fewer_running_inv)
      (auto simp: table.ok_ins [OF t] table.get_ins [OF t] dest: r s split: if_split_asm)
qed

lemma remove_inv:
  assumes "daemon_inv w"
  shows "daemon_inv (remove_child k w)"
proof -
  from assms have t: "table_ok (children w)"
    and r: "\<And>k ch. children_get (children w) k = Some (Running ch) \<Longrightarrow>
      ch < next_chan w \<and> ch \<notin> set (kill_sent w)"
    and s: "\<And>ch. ch \<in> set (kill_sent w) \<Longrightarrow> ch < next_chan w"
    by (simp_all add: daemon_inv_def table_inv_def)
  show ?thesis
    using assms
    by (rule fewer_running_inv)
      (auto simp: table.ok_del [OF t] table.get_del [OF t] dest: r s split: if_split_asm)
qed

lemma close_inv:
  assumes inv: "daemon_inv w" and ch: "children_get (children w) k = Some (Running ch)"
  shows "daemon_inv ((remove_child k w)\<lparr>kill_sent := ch # kill_sent w\<rparr>)"
proof -
  from inv have t: "table_ok (children w)"
    and r: "\<And>k ch. children_get (children w) k = Some (Running ch) \<Longrightarrow>
      ch < next_chan w \<and> ch \<notin> set (kill_sent w)"
    and s: "\<And>ch. ch \<in> set (kill_sent w) \<Longrightarrow> ch < next_chan w"
    by (simp_all add: daemon_inv_def table_inv_def)
  from inv ch have u: "\<And>k'. children_get (children w) k' = Some (Running ch) \<Longrightarrow> k' = k"
    unfolding daemon_inv_def table_inv_def by blast
  have own: "ch < next_chan w" using r [OF ch] by blast
  show ?thesis
    using inv
    by (rule fewer_running_inv)
      (auto simp: table.ok_del [OF t] table.get_del [OF t] own dest: r s u split: if_split_asm)
qed

text \<open>A launch takes a channel that nobody has.\<close>

lemma chans_below:
  assumes "daemon_inv w" "ch \<in> set (concat (map chans_of (tasks w)))"
  shows "ch < next_chan w"
proof -
  from assms(2) obtain t where t: "t \<in> set (tasks w)" "ch \<in> set (chans_of t)" by auto
  with assms(1) have "task_ok w t" by (auto simp: daemon_inv_def tasks_inv_def list_all_iff)
  with t(2) show ?thesis by (cases t rule: chans_of.cases) auto
qed

lemma conns_below:
  assumes "daemon_inv w" "c \<in> set (concat (map conns_of (tasks w)))"
  shows "c < next_conn w"
proof -
  from assms(2) obtain t where t: "t \<in> set (tasks w)" "c \<in> set (conns_of t)" by auto
  with assms(1) have "task_ok w t" by (auto simp: daemon_inv_def tasks_inv_def list_all_iff)
  with t(2) show ?thesis by (cases t) (auto simp: list_all_iff)
qed

lemma bump_inv: "daemon_inv w \<Longrightarrow> daemon_inv (w\<lparr>next_chan := next_chan w + 1\<rparr>)"
  unfolding daemon_inv_def table_inv_def tasks_inv_def
  by (auto simp: list_all_iff less_Suc_eq intro: task_okI)

lemma spawn_inv:
  assumes "daemon_inv w" "task_ok w t"
    and "distinct (chans_of t)" "set (chans_of t) \<inter> set (concat (map chans_of (tasks w))) = {}"
    and "distinct (conns_of t)" "set (conns_of t) \<inter> set (concat (map conns_of (tasks w))) = {}"
  shows "daemon_inv (spawn t w)"
proof -
  have "task_ok (spawn t w) t'" if "task_ok w t'" for t'
    using that by (rule task_okI) simp_all
  with assms show ?thesis
    by (auto simp: daemon_inv_def table_inv_def tasks_inv_def list_all_iff)
qed

lemma launch_inv:
  assumes inv: "daemon_inv w" and child: "\<not> reaped c" "kill_on_drop c"
  shows "daemon_inv (insert_child key (Running (next_chan w))
    (spawn (MonitorTask (AwaitingChildEvent key c (next_chan w))) (w\<lparr>next_chan := next_chan w + 1\<rparr>)))"
    (is "daemon_inv (insert_child key (Running ?n) ?v)")
proof -
  have t: "table_ok (children w)"
    and r: "\<And>k ch. children_get (children w) k = Some (Running ch) \<Longrightarrow> ch < ?n"
    and s: "\<And>ch. ch \<in> set (kill_sent w) \<Longrightarrow> ch < ?n"
    using inv by (auto simp: daemon_inv_def table_inv_def)
  have "task_ok (w\<lparr>next_chan := ?n + 1\<rparr>) (MonitorTask (AwaitingChildEvent key c ?n))"
    using child r [of _ "?n"] by (auto simp: running_entries [OF t])
  with bump_inv [OF inv] chans_below [OF inv, of ?n] have v: "daemon_inv ?v"
    by (intro spawn_inv) auto
  have "task_ok (insert_child key (Running ?n) ?v) t'" if t': "t' \<in> set (tasks ?v)" for t'
  proof (cases "t' = MonitorTask (AwaitingChildEvent key c ?n)")
    case True
    with child r [of _ "?n"] show ?thesis
      by (auto simp: list_all_iff table.iter_iff [OF table.ok_ins [OF t]] table.get_ins [OF t]
          split: if_split_asm)
  next
    case False
    with t' inv have "task_ok w t'" by (auto simp: daemon_inv_def tasks_inv_def list_all_iff)
    then show ?thesis
    proof (rule task_okI)
      fix k ch
      assume "(k, Running ch) \<in> set (children (insert_child key (Running ?n) ?v))"
      then show "(k, Running ch) \<in> set (children w) \<or> next_chan w \<le> ch"
        by (simp add: table.iter_iff [OF t] table.iter_iff [OF table.ok_ins [OF t]]
            table.get_ins [OF t] split: if_split_asm)
    qed simp_all
  qed
  moreover have "table_inv (insert_child key (Running ?n) ?v)"
    using inv unfolding daemon_inv_def table_inv_def
    by (auto simp: table.ok_ins [OF t] table.get_ins [OF t] less_Suc_eq dest: r s)
  ultimately show ?thesis
    using v by (simp add: daemon_inv_def tasks_inv_def list_all_iff)
qed

lemma session_effect_inv:
  assumes "session_effect w w'" "daemon_inv w"
  shows "daemon_inv w'"
  using assms
proof (induction rule: session_effect.induct)
  case (hand_off w w')
  then have "daemon_inv (spawn SshLogTask w)" by (intro spawn_inv) auto
  with hand_off show ?case by (simp add: same_core_inv)
qed (simp_all add: same_core_inv bump_inv [simplified] launch_inv [simplified] remove_inv close_inv)

lemma session_effect_tasks:
  "session_effect w w' \<Longrightarrow> \<exists>ts. tasks w' = tasks w @ ts"
  by (auto simp: same_core_def elim!: session_effect.cases)

lemma monitor_move_inv:
  "monitor_move m w res w' \<Longrightarrow> daemon_inv w \<Longrightarrow> daemon_inv w'"
  by (auto elim!: monitor_move.cases intro: exited_inv)

text \<open>A session keeps its search status in bounds and its connection.\<close>

definition next_ok :: "client \<Rightarrow> (client, session_error) machine \<Rightarrow> bool" where
  "next_ok cl res \<longleftrightarrow>
     (\<forall>cl'. client_after res = Some cl' \<longrightarrow>
        client_ok cl' \<and> conns_of (ClientTask cl') = conns_of (ClientTask cl) \<or>
        (\<exists>cm tx. cl' = Finished cm tx \<and> res = Goto cl'))"

lemma opened_ok: "0 < length (into_bytes (make_key enc rnd))"
  by (simp add: make_key_def into_bytes_def)

lemma communicating_ok:
  assumes "poll_communicating_for_open env c w = Return (res, w')" "client_ok (CommunicatingForOpen c)"
  shows "next_ok (CommunicatingForOpen c) res"
  using assms(1)
proof (cases rule: poll_communicating_cases)
  case (waiting st c3 c4)
  from waiting(1) search_chunks_returns [of "ssh_key c" "ssh_key_status c" "printed (ssh_rx_answers env)"]
    assms(2)
  have "status_ok (ssh_key c) st" by (auto simp: reads_to_def)
  with waiting(2-4) show ?thesis
    by (auto simp: next_ok_def after_reading_def elim!: flush_cl_buf_cases flush_ssh_buf_cases)
qed (simp_all add: next_ok_def)

lemma poll_client_ok:
  assumes poll: "poll_client env cl w = Return (res, w')" and ok: "client_ok cl"
  shows "next_ok cl res"
proof (cases cl)
  case (AwaitingCommand cm tx)
  with poll obtain a as where a: "rx_answers env = a # as"
    by (auto simp: poll_awaiting_command_def split: list.split_asm)
  show ?thesis
  proof (cases "\<exists>p. a = Ready (Some (CM_Open p))")
    case True
    then obtain p where "a = Ready (Some (CM_Open p))" ..
    with poll AwaitingCommand a have "process_open_command env cm p tx w = Return (res, w')"
      by (simp add: poll_awaiting_command_def)
    then show ?thesis
      by (cases rule: process_open_cases) (simp_all add: AwaitingCommand next_ok_def opened_ok)
  next
    case False
    with poll AwaitingCommand a show ?thesis
      by (auto simp: poll_awaiting_command_def process_status_query_def process_close_command_def
          Let_def abort_client_def next_ok_def
          split: poll.split_asm option.split_asm client_message.split_asm tunnel_state.split_asm
            sum.split_asm)
  qed
next
  case (CommunicatingForOpen c)
  with poll ok show ?thesis by (auto dest: communicating_ok)
next
  case (FinalizingTxn cm tx msg)
  with poll show ?thesis by (auto simp: next_ok_def elim!: poll_finalizing_cases)
next
  case (Aborting cm tx msg)
  with poll show ?thesis by (auto simp: next_ok_def elim!: poll_aborting_cases)
qed (use poll in simp_all)

section \<open>Putting the polled task back\<close>

lemma replace_inv:
  assumes "daemon_inv w" "i < length (tasks w)" "task_ok w t"
    and "chans_of t = [] \<or> chans_of t = chans_of (tasks w ! i)"
    and "conns_of t = [] \<or> conns_of t = conns_of (tasks w ! i)"
  shows "daemon_inv (w\<lparr>tasks := (tasks w)[i := t]\<rparr>)"
proof -
  have same: "task_ok (w\<lparr>tasks := ts\<rparr>) t' = task_ok w t'" for ts t'
  proof (cases t')
    case (MonitorTask m)
    then show ?thesis by (cases m) auto
  qed auto
  with assms show ?thesis
    by (simp add: daemon_inv_def table_inv_def tasks_inv_def distinct_concat_update
        list_all_update [of "task_ok w", unfolded same [symmetric]] same cong: list.pred_cong)
qed

lemma monitor_move_next_ok:
  assumes "monitor_move m w res w'" "monitor_ok w' m" "res = Stay m' \<or> res = Goto m'"
    and "m' \<noteq> ChildReaped"
  shows "monitor_ok w' m' \<and> (chans_of (MonitorTask m') = [] \<or>
    chans_of (MonitorTask m') = chans_of (MonitorTask m))"
  using assms by (auto elim!: monitor_move.cases)

text \<open>The five kinds of task.\<close>

lemma poll_monitor_task:
  assumes "poll_task env (MonitorTask m) w = Return (t, w')"
  obtains (stays) m' where "monitor_move m w (Stay m') w'" "t = MonitorTask m'"
  | (goes) m' where "monitor_move m w (Goto m') w'" "m' \<noteq> ChildReaped" "t = MonitorTask m'"
  | (finishes) "monitor_move m w (Goto ChildReaped) w'" "t = DoneTask"
  | (fails) "monitor_move m w (Raise ()) w" "t = DoneTask" "w' = drop_monitor (mon_env env) m w"
proof -
  from assms obtain r v where p: "poll_monitor (mon_env env) m w = Return (r, v)"
    and t: "(t, w') = (case r of
          Stay m' \<Rightarrow> (MonitorTask m', v)
        | Goto ChildReaped \<Rightarrow> (DoneTask, v)
        | Goto m' \<Rightarrow> (MonitorTask m', v)
        | Lost \<Rightarrow> (LostTask, v)
        | Raise _ \<Rightarrow> (DoneTask, drop_monitor (mon_env env) m v))"
    by auto
  from poll_monitor_move [OF p] have move: "monitor_move m w r v" .
  show thesis
  proof (cases r)
    case (Stay m')
    with move t stays show thesis by simp
  next
    case (Goto m')
    with move t goes finishes show thesis by (cases m') auto
  next
    case Lost
    with move show thesis by (auto elim: monitor_move.cases)
  next
    case (Raise u)
    with move have "v = w" by (auto elim: monitor_move.cases)
    with Raise move t fails show thesis by simp
  qed
qed

lemma poll_monitor_task_inv:
  assumes inv: "daemon_inv w" and i: "i < length (tasks w)" "tasks w ! i = MonitorTask m"
    and poll: "poll_task env (MonitorTask m) w = Return (t, w')"
  shows "daemon_inv (w'\<lparr>tasks := (tasks w')[i := t]\<rparr>)"
proof -
  have next_ok: "daemon_inv (w'\<lparr>tasks := (tasks w')[i := t]\<rparr>)"
    if move: "monitor_move m w res w'"
      and t: "t = DoneTask \<or> (\<exists>m'. (res = Stay m' \<or> res = Goto m') \<and> m' \<noteq> ChildReaped \<and> t = MonitorTask m')"
    for res
  proof -
    from move inv have inv': "daemon_inv w'" by (rule monitor_move_inv)
    from move have tasks: "tasks w' = tasks w" by (simp add: keeps)
    with inv' i have "monitor_ok w' m"
      by (auto simp: daemon_inv_def tasks_inv_def list_all_length)
    with t monitor_move_next_ok [OF move] have "task_ok w' t"
      "chans_of t = [] \<or> chans_of t = chans_of (MonitorTask m)" "conns_of t = []"
      by auto
    with inv' tasks i show ?thesis by (intro replace_inv) simp_all
  qed
  from poll show ?thesis
  proof (cases rule: poll_monitor_task)
    case (stays m')
    moreover from stays(1) have "m' \<noteq> ChildReaped" by (auto elim: monitor_move.cases)
    ultimately show ?thesis by (intro next_ok) auto
  next
    case fails
    then have "daemon_inv w'" "tasks w' = tasks w"
      using inv by (simp_all add: drop_monitor_def split: option.split)
    with fails(2) i show ?thesis by (intro replace_inv) simp_all
  next
    case (goes m')
    then show ?thesis by (intro next_ok [of "Goto m'"]) auto
  next
    case finishes
    then show ?thesis by (intro next_ok [of "Goto ChildReaped"]) auto
  qed
qed

lemma poll_client_task:
  assumes "poll_task env (ClientTask cl) w = Return (t, w')"
  obtains (continues) res cl' where "poll_client (ses_env env) cl w = Return (res, w')"
      "client_after res = Some cl'" "\<forall>cm tx. res \<noteq> Goto (Finished cm tx)" "t = ClientTask cl'"
  | (finishes) cm tx v where "poll_client (ses_env env) cl w = Return (Goto (Finished cm tx), v)"
      "t = DoneTask" "w' = session_finished cm v"
  | (is_lost) "poll_client (ses_env env) cl w = Return (Lost, w')" "t = LostTask"
  | (fails) e v where "poll_client (ses_env env) cl w = Return (Raise e, v)"
      "t = DoneTask" "w' = session_failed e v"
proof -
  from assms obtain r v where p: "poll_client (ses_env env) cl w = Return (r, v)"
    and t: "(t, w') = (case r of
          Stay cl' \<Rightarrow> (ClientTask cl', v)
        | Goto (Finished cm tx) \<Rightarrow> (DoneTask, session_finished cm v)
        | Goto cl' \<Rightarrow> (ClientTask cl', v)
        | Lost \<Rightarrow> (LostTask, v)
        | Raise e \<Rightarrow> (DoneTask, session_failed e v))"
    by auto
  show thesis
  proof (cases r)
    case (Goto cl')
    with p t continues [of r cl'] finishes show thesis by (cases cl') auto
  qed (use p t continues is_lost fails in auto)
qed

text \<open>
  Everything a poll of a session does to the process: its effect, and an exit task or a line
  in the log.
\<close>

lemma session_end_effect:
  assumes "session_effect w v" "daemon_inv w"
  shows "daemon_inv (session_finished cm v)" "daemon_inv (session_failed e v)"
    and "\<exists>ts. tasks (session_finished cm v) = tasks w @ ts" "\<exists>ts. tasks (session_failed e v) = tasks w @ ts"
proof -
  from session_effect_inv [OF assms] have v: "daemon_inv v" .
  then have "daemon_inv (spawn ExitTask (log_items l v))" for l by (intro spawn_inv) simp_all
  with v session_effect_tasks [OF assms(1)]
  show "daemon_inv (session_finished cm v)" "daemon_inv (session_failed e v)"
    "\<exists>ts. tasks (session_finished cm v) = tasks w @ ts" "\<exists>ts. tasks (session_failed e v) = tasks w @ ts"
    by (auto simp: session_finished_def session_failed_def Let_def)
qed

lemma poll_client_task_inv:
  assumes inv: "daemon_inv w" and i: "i < length (tasks w)" "tasks w ! i = ClientTask cl"
    and poll: "poll_task env (ClientTask cl) w = Return (t, w')"
  shows "daemon_inv (w'\<lparr>tasks := (tasks w')[i := t]\<rparr>)"
proof -
  have over: "daemon_inv (w'\<lparr>tasks := (tasks w')[i := t]\<rparr>)"
    if "daemon_inv w'" "\<exists>ts. tasks w' = tasks w @ ts" "t = DoneTask \<or> t = LostTask"
    using that i by (intro replace_inv) auto
  from poll show ?thesis
  proof (cases rule: poll_client_task)
    case (continues res cl')
    note eff = poll_client_effect [OF continues(1)]
    from session_effect_inv [OF eff inv] have inv': "daemon_inv w'" .
    from session_effect_tasks [OF eff] i have "i < length (tasks w')" "tasks w' ! i = ClientTask cl"
      by (auto simp: nth_append)
    moreover from inv' calculation have "task_ok w' (ClientTask cl)"
      by (auto simp: daemon_inv_def tasks_inv_def list_all_length dest!: spec [of _ i])
    moreover from calculation(3) poll_client_ok [OF continues(1)] continues(2,3)
    have "client_ok cl'" "conns_of (ClientTask cl') = conns_of (ClientTask cl)"
      by (auto simp: next_ok_def)
    ultimately show ?thesis using inv' continues(4) by (intro replace_inv) auto
  next
    case (finishes cm tx v)
    from session_end_effect(1,3) [OF poll_client_effect [OF finishes(1)] inv, of cm] finishes(2,3)
    show ?thesis by (intro over) simp_all
  next
    case is_lost
    note eff = poll_client_effect [OF is_lost(1)]
    from session_effect_inv [OF eff inv] session_effect_tasks [OF eff] is_lost(2)
    show ?thesis by (intro over) simp_all
  next
    case (fails e v)
    from session_end_effect(2,4) [OF poll_client_effect [OF fails(1)] inv, of e] fails(2,3)
    show ?thesis by (intro over) simp_all
  qed
qed

lemma poll_ssh_log_core:
  "poll_ssh_log as w = Return (b, w') \<Longrightarrow> same_core w w'"
  by (induction as w rule: poll_ssh_log.induct) (auto simp: same_core_def dest: append_prefixD)

lemma process_client_inv:
  assumes "daemon_inv w"
  shows "daemon_inv (process_client w)"
proof -
  let ?w = "w\<lparr>next_conn := next_conn w + 1, lingers := lingers w @ [(next_conn w, 1, 2)]\<rparr>"
  from assms have "daemon_inv ?w"
    unfolding daemon_inv_def table_inv_def tasks_inv_def
    by (auto simp: list_all_iff intro: task_okI)
  then show ?thesis
    using conns_below [OF assms, of "next_conn w"]
    unfolding process_client_def by (intro spawn_inv) auto
qed

lemma poll_accept_inv:
  "poll_accept as w = Return (b, w') \<Longrightarrow> daemon_inv w \<Longrightarrow> daemon_inv w'"
  by (induction as w rule: poll_accept.induct) (auto simp: process_client_inv accept_failed_def)

text \<open>What accepting changes: new connections, each with a session, and the log.\<close>

definition sessions_added :: "world \<Rightarrow> world \<Rightarrow> bool" where
  "sessions_added w w' \<longleftrightarrow>
     children w' = children w \<and> kill_sent w' = kill_sent w \<and> next_chan w' = next_chan w \<and>
     sent w' = sent w \<and> sigkills w' = sigkills w \<and> exit_msgs w' = exit_msgs w \<and>
     prefix (log_lines w) (log_lines w') \<and>
     (\<exists>cs. tasks w' = tasks w @ map (\<lambda>c. ClientTask (AwaitingCommand \<lparr>exit_on_close = False\<rparr> c)) cs)"

lemma poll_accept_adds:
  "poll_accept as w = Return (b, w') \<Longrightarrow> sessions_added w w'"
proof (induction as w rule: poll_accept.induct)
  case (5 u as w)
  then have "sessions_added (process_client w) w'" by simp
  then obtain cs where
    "tasks w' = tasks w @ map (\<lambda>c. ClientTask (AwaitingCommand \<lparr>exit_on_close = False\<rparr> c)) (next_conn w # cs)"
    "children w' = children w" "kill_sent w' = kill_sent w" "next_chan w' = next_chan w" "sent w' = sent w"
    "sigkills w' = sigkills w" "exit_msgs w' = exit_msgs w" "prefix (log_lines w) (log_lines w')"
    by (auto simp: sessions_added_def process_client_def)
  then show ?case unfolding sessions_added_def by blast
qed (auto simp: sessions_added_def accept_failed_def)

lemma poll_task_inv:
  assumes inv: "daemon_inv w" and i: "i < length (tasks w)"
    and poll: "poll_task env (tasks w ! i) w = Return (t, w')"
  shows "daemon_inv (w'\<lparr>tasks := (tasks w')[i := t]\<rparr>)"
proof -
  have plain: "daemon_inv (w'\<lparr>tasks := (tasks w')[i := t]\<rparr>)"
    if "daemon_inv w'" "tasks w' = tasks w" "task_ok w' t" "chans_of t = []" "conns_of t = []"
    using that i by (intro replace_inv) auto
  show ?thesis
  proof (cases "tasks w ! i")
    case AcceptTask
    with poll obtain b where b: "poll_accept (incoming env) w = Return (b, w')"
      and t: "t = (if b then DoneTask else AcceptTask)"
      by auto
    from poll_accept_adds [OF b] obtain ts where ts: "tasks w' = tasks w @ ts"
      by (auto simp: sessions_added_def)
    with i AcceptTask have "tasks w' ! i = AcceptTask" by (simp add: nth_append)
    with poll_accept_inv [OF b inv] ts t i show ?thesis by (intro replace_inv) simp_all
  next
    case (MonitorTask m)
    with poll_monitor_task_inv [OF inv i] poll show ?thesis by simp
  next
    case (ClientTask cl)
    with poll_client_task_inv [OF inv i] poll show ?thesis by simp
  next
    case SshLogTask
    with poll obtain b where b: "poll_ssh_log (log_answers env) w = Return (b, w')"
      and t: "t = (if b then DoneTask else SshLogTask)"
      by auto
    note core = poll_ssh_log_core [OF b]
    from same_core_inv [OF core] inv core t show ?thesis
      by (intro plain) (simp_all add: same_core_def)
  next
    case ExitTask
    with poll inv show ?thesis by (intro plain) (auto split: poll.split_asm)
  next
    case LostTask
    with poll inv show ?thesis by (intro plain) simp_all
  next
    case DoneTask
    with poll inv show ?thesis by (intro plain) simp_all
  qed
qed

lemma daemon_step_inv: "daemon_step allowed w w' \<Longrightarrow> daemon_inv w \<Longrightarrow> daemon_inv w'"
  by (erule daemon_stepE) (auto simp: on_signal_def intro: poll_task_inv)

lemma state_new_fresh:
  assumes "state_new foreground a = (Inr st, calls)"
  shows "children st = [] \<and> log_lines st = []"
proof -
  from assms obtain p where p: "get_socket_path (home_dir a) = Inr p" and c: "\<not> connect_ok a"
    by (auto simp: state_new_def split: sum.split_asm if_split_asm)
  from assms p c show ?thesis
    by (cases "remove_result a"; cases foreground; cases "create_result a"; cases "daemonize_result a")
      (auto simp: state_new_def Let_def split: if_split_asm)
qed

lemma daemon_initial_inv:
  assumes "daemon_initial w"
  shows "daemon_inv w"
proof -
  from assms obtain foreground a st calls where
    "state_new foreground a = (Inr st, calls)" "serve_start (Inr ()) (Inr ()) st = Inr w"
    by (auto simp: daemon_initial_def)
  then have "children w = [] \<and> tasks w = [AcceptTask] \<and> kill_sent w = []"
    using state_new_fresh by (auto simp: serve_start_def)
  then show ?thesis
    using table.ok_empty by (simp add: daemon_inv_def table_inv_def tasks_inv_def table.get_empty)
qed

interpretation process: inductive_invariant daemon_initial "daemon_step allowed" daemon_inv
  for allowed
  by unfold_locales (auto intro: daemon_initial_inv daemon_step_inv)

end
