(* ===== verification/MonitorProps.thy ===== *)
theory MonitorProps
  imports Samples
begin

text \<open>
  The properties of a monitor: what it records, whom it signals, and that it ends.
\<close>

section \<open>The branches of a watching monitor\<close>

lemma watching_cases:
  assumes "poll_monitor env (AwaitingChildEvent key c ch) w = Return (res, w')"
  obtains (died) status c' where "poll_exit c (waits env) (sigs env) = Return (Ready status, c')"
      "res = Goto (NotifyingChildDied (Some status))"
      "w' = insert_child key (Exited (Some status)) (log_items (LogChildDied key status) w)"
  | (ordered) "kill_rx env = Ready ()" "res = Goto (AwaitingChildReaped key c)"
      "w' = send_signals [inner_id c] (log_items (LogKillOrdered key) w)"
  | (waiting) "kill_rx env = NotReady" "res = Stay (AwaitingChildEvent key c ch)" "w' = w"
  | (wait_failed) e c' where "poll_exit c (waits env) (sigs env) = Return (PollErr e, c')"
      "res = Raise ()" "w' = w"
  | (abandoned) "kill_rx env = PollErr ()" "res = Raise ()" "w' = w"
proof -
  from assms obtain r c' where p: "poll_exit c (waits env) (sigs env) = Return (r, c')"
    by (auto simp: handler_defs)
  from poll_exit_child [OF p] have c: "\<not> reaped c" "c' = after_poll r c" by auto
  show thesis
  proof (cases r)
    case (Ready status)
    with assms p c died [of status c'] show thesis by (simp add: handler_defs after_poll_def)
  next
    case NotReady
    with assms p c ordered waiting abandoned show thesis
      by (cases "kill_rx env") (simp_all add: handler_defs after_poll_def)
  next
    case (PollErr e)
    with assms p wait_failed show thesis by (simp add: handler_defs)
  qed
qed

section \<open>Properties\<close>

text \<open>C20. An SSH process that dies on its own is recorded with its status: the entry of its host
  becomes \<open>Exited (Some status)\<close>, every other entry stays, nobody is signalled, and the
  monitor goes on to report the status, whatever the kill channel says at that moment.\<close>

theorem death_is_recorded:
  assumes "poll_exit c (waits env) (sigs env) = Return (Ready status, c')"
    and "table_ok (children w)"
  shows "\<exists>w'. poll_monitor env (AwaitingChildEvent key c ch) w =
      Return (Goto (NotifyingChildDied (Some status)), w') \<and>
    children_get (children w') = (children_get (children w))(key \<mapsto> Exited (Some status)) \<and>
    sigkills w' = sigkills w \<and> log_lines w' = log_lines w @ [LogChildDied key status]"
  using assms(1) poll_exit_child [OF assms(1)] table.get_ins [OF assms(2)]
  by (simp add: handler_defs after_poll_def)

theorem death_is_recorded_witness:
  "\<exists>w'. poll_monitor
      \<lparr>waits = [\<lparr>wp_ret = 42, wp_status = 256, wp_errno = IoError OtherKind []\<rparr>], sigs = [],
       os_kill = Inr (), kill_rx = Ready (), die_tx = NotReady\<rparr>
      (AwaitingChildEvent ''h'' (child_new 42) 0) (empty_world\<lparr>children := [(''h'', Running 0)]\<rparr>) =
      Return (Goto (NotifyingChildDied (Some 256)), w') \<and> sigkills w' = []"
proof -
  let ?env = "\<lparr>waits = [\<lparr>wp_ret = 42, wp_status = 256, wp_errno = IoError OtherKind []\<rparr>], sigs = [],
       os_kill = Inr (), kill_rx = Ready (), die_tx = NotReady\<rparr>"
  have "poll_exit (child_new 42) (waits ?env) (sigs ?env) =
      Return (Ready 256, child_new 42\<lparr>reaped := True\<rparr>)"
    by (simp add: poll_exit_def poll_exit_loop.simps child_new_def)
  from death_is_recorded [OF this, of "empty_world\<lparr>children := [(''h'', Running 0)]\<rparr>" "''h''" 0]
  show ?thesis by (auto simp: table_ok_def empty_world_def)
qed

text \<open>C19. A kill order reaches the process: when a live process has been ordered to be killed, it
  and nobody else gets the one \<open>SIGKILL\<close>, and the monitor waits for its end; when that
  comes, the tunnel is recorded as closed, without a status, and no further signal is sent.\<close>

theorem kill_order_is_executed:
  assumes "poll_exit c (waits env) (sigs env) = Return (NotReady, c')" "kill_rx env = Ready ()"
    and "poll_exit c (waits env2) (sigs env2) = Return (Ready status, c2)"
    and "table_ok (children w2)"
  shows "\<exists>w' w2'. poll_monitor env (AwaitingChildEvent key c ch) w =
      Return (Goto (AwaitingChildReaped key c), w') \<and>
    sigkills w' = sigkills w @ [inner_id c] \<and> children w' = children w \<and>
    poll_monitor env2 (AwaitingChildReaped key c) w2 = Return (Goto (NotifyingChildDied None), w2') \<and>
    sigkills w2' = sigkills w2 \<and>
    children_get (children w2') = (children_get (children w2))(key \<mapsto> Exited None)"
  using assms(1-3) poll_exit_child [OF assms(1)] poll_exit_child [OF assms(3)]
    table.get_ins [OF assms(4)]
  by (simp add: handler_defs after_poll_def)

theorem kill_order_is_executed_witness:
  "\<exists>w'. poll_monitor
      \<lparr>waits = [\<lparr>wp_ret = 0, wp_status = 0, wp_errno = IoError OtherKind []\<rparr>], sigs = [NotReady],
       os_kill = Inr (), kill_rx = Ready (), die_tx = NotReady\<rparr>
      (AwaitingChildEvent ''h'' (child_new 42) 0) empty_world =
      Return (Goto (AwaitingChildReaped ''h'' (child_new 42)), w') \<and> sigkills w' = [42]"
proof -
  let ?env = "\<lparr>waits = [\<lparr>wp_ret = 0, wp_status = 0, wp_errno = IoError OtherKind []\<rparr>], sigs = [NotReady],
       os_kill = Inr (), kill_rx = Ready (), die_tx = NotReady\<rparr>"
  let ?env2 = "\<lparr>waits = [\<lparr>wp_ret = 42, wp_status = 9, wp_errno = IoError OtherKind []\<rparr>], sigs = [],
       os_kill = Inr (), kill_rx = Ready (), die_tx = NotReady\<rparr>"
  have a: "poll_exit (child_new 42) (waits ?env) (sigs ?env) = Return (NotReady, child_new 42)"
    by (simp add: poll_exit_def poll_exit_loop.simps child_new_def)
  have b: "poll_exit (child_new 42) (waits ?env2) (sigs ?env2) =
      Return (Ready 9, child_new 42\<lparr>reaped := True\<rparr>)"
    by (simp add: poll_exit_def poll_exit_loop.simps child_new_def)
  from kill_order_is_executed [OF a _ b, of empty_world "''h''" 0 empty_world] show ?thesis
    by (auto simp: table_ok_def empty_world_def child_new_def)
qed

text \<open>C21. A monitor moves only forward, through watching, reaping, notifying and its end, so it
  makes at most three transitions; a poll that makes none leaves the monitor and the whole
  process as they were.\<close>

theorem monitor_moves_forward:
  assumes "poll_monitor env m w = Return (res, w')"
  shows "(\<forall>m'. res = Goto m' \<longrightarrow> phase_of m < phase_of m') \<and> (\<forall>m'. res = Stay m' \<longrightarrow> m' = m \<and> w' = w)"
  using poll_monitor_move [OF assms] move_phase move_stays by blast

theorem monitor_moves_forward_witness:
  "phase_of (NotifyingChildDied (Some 256)) < phase_of ChildReaped"
proof -
  let ?env = "\<lparr>waits = [], sigs = [], os_kill = Inr (), kill_rx = NotReady, die_tx = Ready ()\<rparr>"
  have "poll_monitor ?env (NotifyingChildDied (Some 256)) empty_world = Return (Goto ChildReaped, empty_world)"
    by (simp add: handler_defs)
  from monitor_moves_forward [OF this] show ?thesis by simp
qed

end
