(* ===== verification/SampleRuns.thy ===== *)
theory SampleRuns
  imports DaemonInv SessionProps MonitorProps
begin

text \<open>
  Concrete runs of the daemon, for the witnesses: a tunnel to a host \<open>h\<close> is opened on the
  first connection, closed on the second, and opened again on the third, while the first SSH
  process has been killed and not yet been reaped.
\<close>

section \<open>The first world\<close>

definition start_world :: world where
  "start_world = empty_world\<lparr>log_lines := [LogStartingUp], tasks := [AcceptTask], next_conn := 0\<rparr>"

lemma start_world_initial: "daemon_initial start_world"
proof -
  let ?a = "\<lparr>home_dir = Some ''/home/u'', connect_ok = False, remove_result = Inr (),
    create_result = Inr (), daemonize_result = Inr ()\<rparr>"
  have "state_new True ?a = (Inr \<lparr>sock_path = ''/home/u/.ssh/stund.sock'', opts_foreground = True,
      log_lines = [], children = []\<rparr>,
      [Connect_to ''/home/u/.ssh/stund.sock'', Remove_file ''/home/u/.ssh/stund.sock'', Umask 127])"
    by (simp add: state_new_def get_socket_path_def path_push_def)
  then show ?thesis
    unfolding daemon_initial_def
    by (intro exI conjI) (assumption, simp add: serve_start_def start_world_def empty_world_def)
qed

lemma start_run: "reach daemon_initial (daemon_step allowed) start_world"
  by (rule reach_init) (rule start_world_initial)

text \<open>One more step of a run, given by what it computes.\<close>

lemma run_poll:
  assumes "reach daemon_initial (daemon_step allowed) w"
    and "i < length (tasks w)" "allowed env (tasks w ! i)"
    and "answers_ok w env (tasks w ! i)"
    and "case poll_task env (tasks w ! i) w of
      Return (t, v) \<Rightarrow> v\<lparr>tasks := (tasks v)[i := t]\<rparr> = w' | _ \<Rightarrow> False"
  shows "reach daemon_initial (daemon_step allowed) w'"
proof -
  from assms(5) obtain t v where
    "poll_task env (tasks w ! i) w = Return (t, v)" "v\<lparr>tasks := (tasks v)[i := t]\<rparr> = w'"
    by (auto split: run.split_asm)
  with daemon_step.poll [of i w allowed env t v] assms(1-4) show ?thesis
    by (blast intro: reach.reach_step)
qed

definition sample_task_env :: task_env where
  "sample_task_env =
     \<lparr>incoming = [NotReady], mon_env = \<lparr>waits = [\<lparr>wp_ret = 0, wp_status = 0, wp_errno = IoError OtherKind []\<rparr>],
        sigs = [NotReady], os_kill = Inr (), kill_rx = NotReady, die_tx = NotReady\<rparr>,
      ses_env = sample_env, log_answers = [NotReady], exit_answer = Ready ()\<rparr>"

text \<open>One connection arrives.\<close>

lemma run_accept:
  assumes "reach daemon_initial (daemon_step allowed) w" "i < length (tasks w)" "tasks w ! i = AcceptTask"
    and "\<And>env. allowed env AcceptTask"
  shows "reach daemon_initial (daemon_step allowed) (process_client w)"
proof -
  let ?env = "sample_task_env\<lparr>incoming := [Ready (Some ()), NotReady]\<rparr>"
  have "poll_task ?env (tasks w ! i) w = Return (AcceptTask, process_client w)"
    by (simp add: assms(3))
  moreover have "(process_client w)\<lparr>tasks := (tasks (process_client w))[i := AcceptTask]\<rparr> = process_client w"
    using assms(2,3) list_update_id [of "tasks w" i]
    by (simp add: process_client_def spawn_def list_update_append)
  ultimately show ?thesis
    using run_poll [OF assms(1,2), of ?env "process_client w"] assms(3,4) by simp
qed

section \<open>A run\<close>

abbreviation quiet_common :: client_common where
  "quiet_common \<equiv> \<lparr>exit_on_close = False\<rparr>"

definition command_env :: "client_message \<Rightarrow> pid \<Rightarrow> task_env" where
  "command_env m pid = sample_task_env\<lparr>ses_env := sample_env\<lparr>rx_answers := [Ready (Some m)],
     pty_spawn := (pty_spawn sample_env)\<lparr>fork_ret := Inr pid\<rparr>\<rparr>\<rparr>"

definition wait_env :: "int \<Rightarrow> (unit, unit) poll \<Rightarrow> task_env" where
  "wait_env ret rx = sample_task_env\<lparr>mon_env := (mon_env sample_task_env)
     \<lparr>waits := [\<lparr>wp_ret = ret, wp_status = 9, wp_errno = IoError OtherKind []\<rparr>], kill_rx := rx\<rparr>\<rparr>"

definition opened_world :: world where
  "opened_world = start_world
     \<lparr>log_lines := [LogStartingUp, LogSpawn ''h''], children := [(''h'', Running 0)],
      tasks := [AcceptTask, ClientTask (CommunicatingForOpen (opened quiet_common 0 ''STUND:AB'')),
        MonitorTask (AwaitingChildEvent ''h'' (child_new 42) 0)],
      sent := [(0, SM_Ok)], launched := [ssh_command ''h'' ''STUND:AB''], next_chan := 1, next_conn := 1,
      lingers := [(0, 1, 2)]\<rparr>"

definition closing_world :: world where
  "closing_world = opened_world
     \<lparr>log_lines := log_lines opened_world @ [LogClose ''h''], children := [],
      tasks := tasks opened_world @ [ClientTask (FinalizingTxn quiet_common 1 SM_Ok)],
      kill_sent := [0], next_conn := 2, lingers := [(0, 1, 2), (1, 1, 2)]\<rparr>"

definition killed_world :: world where
  "killed_world = closing_world
     \<lparr>log_lines := log_lines closing_world @ [LogKillOrdered ''h''],
      tasks := (tasks closing_world)[2 := MonitorTask (AwaitingChildReaped ''h'' (child_new 42))],
      sigkills := [42]\<rparr>"

definition reopened_world :: world where
  "reopened_world = killed_world
     \<lparr>log_lines := log_lines killed_world @ [LogSpawn ''h''], children := [(''h'', Running 1)],
      tasks := tasks killed_world @
        [ClientTask (CommunicatingForOpen (opened quiet_common 2 ''STUND:AB'')),
         MonitorTask (AwaitingChildEvent ''h'' (child_new 43) 1)],
      sent := [(0, SM_Ok), (2, SM_Ok)],
      launched := [ssh_command ''h'' ''STUND:AB'', ssh_command ''h'' ''STUND:AB''],
      next_chan := 2, next_conn := 3, lingers := [(0, 1, 2), (1, 1, 2), (2, 1, 2)]\<rparr>"

lemmas sample_worlds = start_world_def empty_world_def opened_world_def closing_world_def
  killed_world_def reopened_world_def

lemmas sample_sessions = poll_awaiting_command_def process_open_command_def open_inner_def
  process_close_command_def sample_task_env_def sample_env_def command_env_def wait_env_def opened_def
  make_key_def async_pty_open_def spawn_pty_async_def spawn_pty_async_full_def pre_exec_def
  open_sync_pty_slave_def read_ptsname_def cstr_from_ptr_def std_spawn_def
  children_get_def children_insert_def children_remove_def
  log_items_def insert_child_def remove_child_def spawn_def take_message_def process_client_def
  kill_send_ok_def listening_def kill_rx_ok_def sender_held_def wait_answer_ok_def handler_defs
  poll_exit_def poll_exit_loop.simps child_new_def child_kill_def send_signals_def Let_def

lemma run_opened: "reach daemon_initial (daemon_step waits_work) opened_world"
proof (rule run_poll [of waits_work "process_client start_world" 1 "command_env (CM_Open \<lparr>op_host = ''h''\<rparr>) 42"])
  show "reach daemon_initial (daemon_step waits_work) (process_client start_world)"
    by (rule run_accept [OF start_run, of 0]) (simp_all add: sample_worlds)
qed (simp_all add: sample_worlds sample_sessions)

lemma run_closing: "reach daemon_initial (daemon_step waits_work) closing_world"
proof (rule run_poll [of waits_work "process_client opened_world" 3 "command_env (CM_Close \<lparr>cp_host = ''h''\<rparr>) 42"])
  show "reach daemon_initial (daemon_step waits_work) (process_client opened_world)"
    by (rule run_accept [OF run_opened, of 0]) (simp_all add: sample_worlds)
qed (simp_all add: sample_worlds sample_sessions)

lemma run_killed: "reach daemon_initial (daemon_step waits_work) killed_world"
  by (rule run_poll [of waits_work closing_world 2 "wait_env 0 (Ready ())"], rule run_closing)
    (simp_all add: sample_worlds sample_sessions)

lemma run_reopened: "reach daemon_initial (daemon_step waits_work) reopened_world"
proof (rule run_poll [of waits_work "process_client killed_world" 4 "command_env (CM_Open \<lparr>op_host = ''h''\<rparr>) 43"])
  show "reach daemon_initial (daemon_step waits_work) (process_client killed_world)"
    by (rule run_accept [OF run_killed, of 0]) (simp_all add: sample_worlds)
qed (simp_all add: sample_worlds sample_sessions)

end
