(* ===== verification/DaemonProps.thy ===== *)
theory DaemonProps
  imports SampleRuns
begin

text \<open>
  The properties of the daemon process, over every interleaving of its tasks and every
  answer of its environment that the channels and the kernel can give.
\<close>

section \<open>Consistency\<close>

text \<open>C3. Whatever happens, the daemon's records fit together: one entry per host; each running
  entry has a kill channel of its own, not yet used; a monitor that listens on the channel of
  an entry is the monitor of that host, and no two listen on one; monitored processes have not
  been reaped; no machine is polled after its end; every session has a connection of its own
  and its search stays within the marker.\<close>

theorem daemon_stays_consistent:
  assumes "reach daemon_initial (daemon_step allowed) w"
  shows "daemon_inv w"
  using assms by (rule process.inv_reach)

theorem daemon_stays_consistent_witness: "daemon_inv (process_client start_world)"
  by (rule daemon_stays_consistent [where allowed = "\<lambda>_ _. True"])
    (rule run_accept [OF start_run, of 0], simp_all add: start_world_def empty_world_def)

section \<open>No panic\<close>

text \<open>What is assumed beyond \<open>answers_ok\<close>: the C library terminates the name of a terminal.\<close>

fun ptsname_ok :: "ptsname_answer \<Rightarrow> bool" where
  "ptsname_ok (Ptsname_r ret buf) \<longleftrightarrow> (ret = 0 \<longrightarrow> 0 \<in> set (take 512 buf))"
| "ptsname_ok (Ptsname None) \<longleftrightarrow> True"
| "ptsname_ok (Ptsname (Some st)) \<longleftrightarrow> 0 \<notin> set st \<and> length st < 512"

lemma spawn_pty_not_Panic:
  "ptsname_ok (slave_name a) \<Longrightarrow> spawn_pty_async mk fd a \<noteq> Panic"
proof -
  assume ok: "ptsname_ok (slave_name a)"
  then have "open_sync_pty_slave (slave_name a) (slave_errno a) (slave_open a) \<noteq> Panic"
    by (cases "slave_name a" rule: ptsname_ok.cases)
      (auto simp: open_sync_pty_slave_def read_ptsname_def cstr_from_strncpy cstr_from_ptr_def [of "take 512 _"])
  then show ?thesis
    by (auto simp: spawn_pty_async_def spawn_pty_async_full_def split: sum.split_asm prod.split_asm)
qed

fun host_ok :: "task_env \<Rightarrow> task \<Rightarrow> bool" where
  "host_ok env (ClientTask (AwaitingCommand cm tx)) \<longleftrightarrow> ptsname_ok (slave_name (pty_spawn (ses_env env)))"
| "host_ok env t \<longleftrightarrow> True"

lemma open_inner_not_Panic:
  "ptsname_ok (slave_name (pty_spawn env)) \<Longrightarrow> open_inner env params key v \<noteq> Panic"
  by (simp add: open_inner_def Let_def spawn_pty_not_Panic split: sum.split)

text \<open>
  The one panic a session can meet: SSH has been launched for an open command, and the sink of
  the connection does not take the first \<open>Ok\<close>.
\<close>

definition launches :: "session_env \<Rightarrow> open_parameters \<Rightarrow> world \<Rightarrow> bool" where
  "launches env params w \<longleftrightarrow>
     \<not> runs (children w) (op_host params) \<and>
     (\<exists>fd w'. open_inner env params (make_key (b64_encode env) (rng_bytes env))
        (log_items (LogSpawn (op_host params)) w) = Return (Inr fd, w'))"

fun ok_refused :: "session_env \<Rightarrow> client \<Rightarrow> world \<Rightarrow> bool" where
  "ok_refused env (AwaitingCommand cm tx) w \<longleftrightarrow>
     (\<exists>params as. rx_answers env = Ready (Some (CM_Open params)) # as \<and> launches env params w) \<and>
     cl_start env \<noteq> SendReady"
| "ok_refused env cl w \<longleftrightarrow> False"

lemma process_open_Panic:
  assumes "ptsname_ok (slave_name (pty_spawn env))"
  shows "process_open_command env cm params tx w = Panic \<longleftrightarrow>
    launches env params w \<and> cl_start env \<noteq> SendReady"
proof (cases "runs (children w) (op_host params)")
  case True
  then show ?thesis by (auto simp: process_open_command_def launches_def runs_def)
next
  case False
  let ?inner = "open_inner env params (make_key (b64_encode env) (rng_bytes env))
    (log_items (LogSpawn (op_host params)) w)"
  from False have "process_open_command env cm params tx w = Panic \<longleftrightarrow>
      (\<exists>fd w'. ?inner = Return (Inr fd, w') \<and> cl_start env \<noteq> SendReady)"
    using open_inner_not_Panic [OF assms]
    by (cases ?inner; cases "children_get (children w) (op_host params)"; cases "cl_start env")
      (auto simp: process_open_command_def Let_def runs_def
        split: tunnel_state.split_asm tunnel_state.split sum.split_asm sum.split)
  with False show ?thesis by (auto simp: launches_def)
qed

lemma awaiting_Panic:
  assumes "ptsname_ok (slave_name (pty_spawn env))"
  shows "poll_awaiting_command env cm tx w = Panic \<longleftrightarrow> ok_refused env (AwaitingCommand cm tx) w"
proof (cases "\<exists>params as. rx_answers env = Ready (Some (CM_Open params)) # as")
  case True
  with process_open_Panic [OF assms] show ?thesis by (auto simp: poll_awaiting_command_def)
next
  case False
  then show ?thesis
    by (auto simp: poll_awaiting_command_def process_status_query_def process_close_command_def Let_def
        split: list.split poll.split option.split client_message.split tunnel_state.split sum.split)
qed

lemma communicating_not_Panic:
  assumes ok: "status_ok (ssh_key c) (ssh_key_status c)"
  shows "poll_communicating_for_open env c w \<noteq> Panic"
proof -
  have finish: "finish_communicating env c' w' \<noteq> Panic" for c' w'
    by (simp add: finish_communicating_def split: poll.split)
  have read: "read_ssh (ssh_rx_answers env) c1 \<noteq> Panic"
    if "read_user (rx_answers env) c = Return (Inr c1)" for c1
    using read_user_Inr [OF that] ok by (intro read_ssh_not_Panic) simp
  show ?thesis
    by (simp add: poll_communicating_for_open_def read_user_not_Panic read finish
        split: sum.split prod.split)
qed

lemma poll_monitor_not_Panic:
  assumes "monitor_ok w m" "answers_ok w env (MonitorTask m)"
  shows "poll_monitor (mon_env env) m w \<noteq> Panic"
proof (cases m)
  case (AwaitingChildEvent key c ch)
  with assms have "poll_exit c (waits (mon_env env)) (sigs (mon_env env)) \<noteq> Panic"
    by (intro poll_exit_not_Panic) auto
  with AwaitingChildEvent show ?thesis by (auto simp: handler_defs split: poll.split_asm)
next
  case (AwaitingChildReaped key c)
  with assms have "poll_exit c (waits (mon_env env)) (sigs (mon_env env)) \<noteq> Panic"
    by (intro poll_exit_not_Panic) auto
  with AwaitingChildReaped show ?thesis by (auto simp: handler_defs split: poll.split_asm)
qed (use assms in \<open>simp_all add: handler_defs split: poll.split\<close>)

lemma poll_ssh_log_not_Panic: "poll_ssh_log as w \<noteq> Panic"
  by (induction as w rule: poll_ssh_log.induct) auto

lemma finalizing_not_Panic: "poll_finalizing_txn env cm tx msg w \<noteq> Panic"
  by (auto simp: poll_finalizing_txn_def split: prod.split poll.split)

lemma aborting_not_Panic: "poll_aborting env cm tx msg w \<noteq> Panic"
  by (auto simp: poll_aborting_def split: prod.split poll.split)

lemma poll_accept_not_Panic: "poll_accept as w \<noteq> Panic"
  by (induction as w rule: poll_accept.induct) auto

text \<open>C2. The daemon panics in one situation only: no assertion, \<open>unwrap\<close>, index or final state is
  hit by polling any task of any reachable process, whatever the connections answer, except that
  a session which has launched SSH for an open command panics exactly when the sink of its
  connection is not ready for the first \<open>Ok\<close>, or fails. The kernel, the kill channels and the C
  library are taken to keep to what they document.\<close>

theorem daemon_panics_only_if_ok_refused:
  assumes "reach daemon_initial (daemon_step allowed) w" "i < length (tasks w)"
    and "answers_ok w env (tasks w ! i)" "host_ok env (tasks w ! i)"
  shows "poll_task env (tasks w ! i) w = Panic \<longleftrightarrow>
    (\<exists>cl. tasks w ! i = ClientTask cl \<and> ok_refused (ses_env env) cl w)"
proof -
  from process.inv_reach [OF assms(1)] assms(2) have ok: "task_ok w (tasks w ! i)"
    by (auto simp: daemon_inv_def tasks_inv_def list_all_length)
  show ?thesis
  proof (cases "tasks w ! i")
    case (MonitorTask m)
    with ok assms(3) poll_monitor_not_Panic show ?thesis by simp
  next
    case (ClientTask cl)
    have "poll_client (ses_env env) cl w = Panic \<longleftrightarrow> ok_refused (ses_env env) cl w"
    proof (cases cl)
      case (AwaitingCommand cm tx)
      with ClientTask assms(4) show ?thesis by (simp add: awaiting_Panic)
    next
      case (CommunicatingForOpen c)
      with ClientTask ok show ?thesis by (simp add: communicating_not_Panic)
    qed (use ok ClientTask in \<open>simp_all add: finalizing_not_Panic aborting_not_Panic\<close>)
    with ClientTask show ?thesis by simp
  qed (simp_all add: poll_ssh_log_not_Panic poll_accept_not_Panic)
qed

theorem daemon_panics_only_if_ok_refused_witness:
  "poll_task sample_task_env (ClientTask (AwaitingCommand \<lparr>exit_on_close = False\<rparr> 0))
     (process_client start_world) \<noteq> Panic \<and>
   (let env = (command_env (CM_Open \<lparr>op_host = ''h''\<rparr>) 42) in
    poll_task (env\<lparr>ses_env := (ses_env env)\<lparr>cl_start := SendNotReady\<rparr>\<rparr>)
      (ClientTask (AwaitingCommand \<lparr>exit_on_close = False\<rparr> 0)) (process_client start_world) = Panic)"
proof -
  let ?env = "command_env (CM_Open \<lparr>op_host = ''h''\<rparr>) 42"
  let ?env' = "?env\<lparr>ses_env := (ses_env ?env)\<lparr>cl_start := SendNotReady\<rparr>\<rparr>"
  have run: "reach daemon_initial (daemon_step (\<lambda>_ _. True)) (process_client start_world)"
    by (rule run_accept [OF start_run, of 0]) (simp_all add: start_world_def empty_world_def)
  have t: "tasks (process_client start_world) ! 1 = ClientTask (AwaitingCommand \<lparr>exit_on_close = False\<rparr> 0)"
    "1 < length (tasks (process_client start_world))"
    by (simp_all add: process_client_def start_world_def empty_world_def)
  have "ok_refused (ses_env ?env') (AwaitingCommand \<lparr>exit_on_close = False\<rparr> 0) (process_client start_world)"
    by (simp add: launches_def runs_def sample_worlds sample_sessions attach_streams_def)
  with daemon_panics_only_if_ok_refused [OF run t(2), of ?env'] have "poll_task ?env'
      (ClientTask (AwaitingCommand \<lparr>exit_on_close = False\<rparr> 0)) (process_client start_world) = Panic"
    unfolding t by (simp add: command_env_def sample_task_env_def sample_env_def kill_send_ok_def del: poll_task.simps)
  moreover from daemon_panics_only_if_ok_refused [OF run t(2), of sample_task_env] have
    "poll_task sample_task_env (ClientTask (AwaitingCommand \<lparr>exit_on_close = False\<rparr> 0))
      (process_client start_world) \<noteq> Panic"
    unfolding t by (simp add: sample_task_env_def sample_env_def kill_send_ok_def del: poll_task.simps)
  ultimately show ?thesis by (simp add: Let_def)
qed

section \<open>Signals\<close>

lemma session_effect_keeps [keeps]:
  assumes "session_effect w w'"
  shows "sigkills w' = sigkills w" "exit_msgs w' = exit_msgs w" "next_conn w' = next_conn w"
    "prefix (log_lines w) (log_lines w')"
  using assms by (auto simp: same_core_def elim!: session_effect.cases)

lemma session_ends_keep [simp]:
  "sigkills (session_finished cm w) = sigkills w" "sigkills (session_failed e w) = sigkills w"
  "exit_msgs (session_finished cm w) = exit_msgs w" "exit_msgs (session_failed e w) = exit_msgs w"
  "next_conn (session_finished cm w) = next_conn w" "next_conn (session_failed e w) = next_conn w"
  "children (session_finished cm w) = children w" "children (session_failed e w) = children w"
  "kill_sent (session_finished cm w) = kill_sent w" "kill_sent (session_failed e w) = kill_sent w"
  by (simp_all add: session_finished_def session_failed_def Let_def)

lemma poll_client_task_effect:
  assumes "poll_task env (ClientTask cl) w = Return (t, w')"
  obtains res v where "poll_client (ses_env env) cl w = Return (res, v)"
    "w' = v \<or> (\<exists>cm tx. res = Goto (Finished cm tx) \<and> w' = session_finished cm v) \<or>
     (\<exists>e. w' = session_failed e v)"
  using assms by (cases rule: poll_client_task) auto

text \<open>What a poll of any task can do to the signals.\<close>

lemma poll_task_signals:
  assumes poll: "poll_task env t w = Return (t', w')"
  shows "\<exists>ps. sigkills w' = sigkills w @ ps \<and> (ps = [] \<or>
    (\<exists>m c. t = MonitorTask m \<and> child_of m = Some c \<and> \<not> reaped c \<and> ps = [inner_id c]))"
proof (cases t)
  case AcceptTask
  with poll poll_accept_adds show ?thesis by (fastforce simp: sessions_added_def)
next
  case (MonitorTask m)
  have moved: ?thesis if "monitor_move m w res w'" for res
    using move_signals [OF that] MonitorTask by auto
  from poll [unfolded MonitorTask] show ?thesis
  proof (cases rule: poll_monitor_task)
    case fails
    then show ?thesis
      using MonitorTask move_child_live [OF fails(1)]
      by (auto simp: drop_monitor_def child_drop_def split: option.split)
  qed (auto dest: moved)
next
  case (ClientTask cl)
  with poll poll_client_effect show ?thesis
    by (auto elim!: poll_client_task_effect simp: keeps simp del: poll_task.simps)
next
  case SshLogTask
  with poll poll_ssh_log_core show ?thesis by (fastforce simp: same_core_def)
next
  case ExitTask
  with poll show ?thesis by (auto split: poll.split_asm)
qed (use poll in auto)

text \<open>C12. The daemon signals only its own living SSH processes: a step sends at most one
  \<open>SIGKILL\<close>, and that to a process one of its monitors holds and has not reaped.\<close>

theorem only_own_processes_killed:
  assumes "reach daemon_initial (daemon_step allowed) w" "daemon_step allowed w w'"
  shows "sigkills w' = sigkills w \<or>
    (\<exists>m c. MonitorTask m \<in> set (tasks w) \<and> child_of m = Some c \<and> \<not> reaped c \<and>
       sigkills w' = sigkills w @ [inner_id c])"
  using assms(2)
proof (cases rule: daemon_step.cases)
  case (poll i env t v)
  from poll_task_signals [OF poll(5)] poll(1,2) nth_mem [of i "tasks w"] show ?thesis by fastforce
qed (simp add: on_signal_def)

theorem only_own_processes_killed_witness:
  "\<exists>m c. MonitorTask m \<in> set (tasks closing_world) \<and> child_of m = Some c \<and> \<not> reaped c \<and>
     sigkills killed_world = sigkills closing_world @ [inner_id c]"
proof -
  have poll: "poll_task (wait_env 0 (Ready ())) (tasks closing_world ! 2) closing_world =
      Return (MonitorTask (AwaitingChildReaped ''h'' (child_new 42)),
        send_signals [42] (log_items (LogKillOrdered ''h'') closing_world))"
    by (simp add: sample_worlds sample_sessions)
  have "daemon_step waits_work closing_world killed_world"
    using daemon_step.poll [of 2 closing_world waits_work "wait_env 0 (Ready ())", OF _ _ _ poll]
    by (simp add: sample_worlds sample_sessions)
  moreover have "sigkills killed_world \<noteq> sigkills closing_world"
    by (simp add: sample_worlds)
  ultimately show ?thesis using only_own_processes_killed [OF run_closing] by blast
qed

section \<open>Running tunnels are watched\<close>

text \<open>
  As long as waiting for SSH processes does not fail, the monitor of every running entry is
  there, listening on the channel of the entry.
\<close>

definition watched :: "world \<Rightarrow> bool" where
  "watched w \<longleftrightarrow>
     (\<forall>k ch. children_get (children w) k = Some (Running ch) \<longrightarrow>
        (\<exists>c. MonitorTask (AwaitingChildEvent k c ch) \<in> set (tasks w)))"

lemma watchedI:
  assumes "watched w"
    and "\<And>k ch. children_get (children w') k = Some (Running ch) \<Longrightarrow>
      children_get (children w) k = Some (Running ch) \<or>
      (\<exists>c. MonitorTask (AwaitingChildEvent k c ch) \<in> set (tasks w'))"
    and "\<And>k c ch. children_get (children w') k = Some (Running ch) \<Longrightarrow>
      MonitorTask (AwaitingChildEvent k c ch) \<in> set (tasks w) \<Longrightarrow>
      MonitorTask (AwaitingChildEvent k c ch) \<in> set (tasks w')"
  shows "watched w'"
  using assms unfolding watched_def by blast

lemma session_effect_running:
  assumes "session_effect w w'" "table_ok (children w)"
    and "children_get (children w') k = Some (Running ch)"
  shows "children_get (children w) k = Some (Running ch) \<or>
    (\<exists>c. MonitorTask (AwaitingChildEvent k c ch) \<in> set (tasks w'))"
  using assms
  by (cases rule: session_effect.cases)
    (auto simp: same_core_def table.get_ins table.get_del split: if_split_asm)

lemma session_watched:
  assumes eff: "session_effect w v" and inv: "daemon_inv w" and "watched w"
    and i: "i < length (tasks w)" "tasks w ! i = ClientTask cl"
    and w': "children w' = children v" "\<exists>ts. tasks w' = (tasks v @ ts)[i := t]"
  shows "watched w'"
proof -
  from inv have t: "table_ok (children w)" by (simp add: daemon_inv_def table_inv_def)
  from session_effect_tasks [OF eff] obtain ts where ts: "tasks v = tasks w @ ts" by blast
  have "tasks v ! i = ClientTask cl" using i ts by (simp add: nth_append)
  then have keep: "MonitorTask m \<in> set (tasks w')" if "MonitorTask m \<in> set (tasks v)" for m
    using w'(2) that i ts by (auto simp: nth_append intro!: in_update_other)
  from \<open>watched w\<close> show ?thesis
  proof (rule watchedI)
    fix k ch
    assume "children_get (children w') k = Some (Running ch)"
    with session_effect_running [OF eff t, of k ch] w'(1) keep show
      "children_get (children w) k = Some (Running ch) \<or>
       (\<exists>c. MonitorTask (AwaitingChildEvent k c ch) \<in> set (tasks w'))"
      by auto
  next
    fix k c ch
    assume "MonitorTask (AwaitingChildEvent k c ch) \<in> set (tasks w)"
    with ts keep show "MonitorTask (AwaitingChildEvent k c ch) \<in> set (tasks w')" by simp
  qed
qed

lemma sender_held_iff:
  "table_ok (children w) \<Longrightarrow>
   sender_held ch w \<longleftrightarrow> (\<exists>k. children_get (children w) k = Some (Running ch))"
  by (auto simp: sender_held_def list_ex_iff table.iter_iff)

lemma monitor_move_running:
  "monitor_move m w res w' \<Longrightarrow> table_ok (children w) \<Longrightarrow>
   children_get (children w') k = Some (Running ch) \<Longrightarrow> children_get (children w) k = Some (Running ch)"
  by (auto elim!: monitor_move.cases simp: table.get_ins split: if_split_asm)

text \<open>A watching monitor of a running entry goes on watching, or ends the entry.\<close>

lemma poll_watching_task:
  assumes poll: "poll_task env (MonitorTask (AwaitingChildEvent k c ch)) w = Return (t, w')"
    and inv: "daemon_inv w" and ok: "answers_ok w env (MonitorTask (AwaitingChildEvent k c ch))"
    and calm: "waits_work env (MonitorTask (AwaitingChildEvent k c ch))"
    and running: "children_get (children w') k = Some (Running ch)"
  shows "t = MonitorTask (AwaitingChildEvent k c ch)"
proof -
  from inv have table: "table_ok (children w)"
    and used: "\<And>k. children_get (children w) k = Some (Running ch) \<Longrightarrow> ch \<notin> set (kill_sent w)"
    by (auto simp: daemon_inv_def table_inv_def)
  from poll obtain res v where
    p: "poll_monitor (mon_env env) (AwaitingChildEvent k c ch) w = Return (res, v)"
    by (auto simp del: poll_monitor.simps)
  note poll = poll [simplified poll_task.simps p run_bind.simps prod.case]
  from p show ?thesis
  proof (cases rule: watching_cases)
    case (died status c')
    with poll running show ?thesis by (auto simp: table.get_ins [OF table])
  next
    case ordered
    with poll running used ok show ?thesis by (auto simp: kill_rx_ok_def)
  next
    case waiting
    with poll show ?thesis by simp
  next
    case (wait_failed e c')
    with calm show ?thesis by simp
  next
    case abandoned
    with poll running ok show ?thesis
      by (auto simp: kill_rx_ok_def sender_held_iff [OF table] drop_monitor_def)
  qed
qed

lemma poll_monitor_task_keeps:
  assumes "poll_task env (MonitorTask m) w = Return (t, w')"
  shows "tasks w' = tasks w" "table_ok (children w) \<Longrightarrow>
    children_get (children w') k = Some (Running ch) \<Longrightarrow> children_get (children w) k = Some (Running ch)"
  using assms
  by (cases rule: poll_monitor_task;
      auto dest: move_keeps(1) monitor_move_running simp: drop_monitor_def split: option.split_asm)+

lemma poll_watched:
  assumes inv: "daemon_inv w" and w: "watched w" and i: "i < length (tasks w)"
    and ok: "answers_ok w env (tasks w ! i)" and calm: "waits_work env (tasks w ! i)"
    and poll: "poll_task env (tasks w ! i) w = Return (t, w')"
  shows "watched (w'\<lparr>tasks := (tasks w')[i := t]\<rparr>)"
proof -
  from inv have table: "table_ok (children w)" by (simp add: daemon_inv_def table_inv_def)
  have plain: ?thesis if "same_core w w'" "\<forall>m. tasks w ! i \<noteq> MonitorTask m"
    using w that by (intro watchedI [OF w]) (auto simp: same_core_def intro!: in_update_other dest: sym)
  show ?thesis
  proof (cases "tasks w ! i")
    case AcceptTask
    with poll obtain b where "poll_accept (incoming env) w = Return (b, w')" by auto
    from poll_accept_adds [OF this] obtain ts where ts: "children w' = children w" "tasks w' = tasks w @ ts"
      by (auto simp: sessions_added_def)
    with AcceptTask i show ?thesis
      by (intro watchedI [OF w]) (auto simp: nth_append intro!: in_update_other)
  next
    case (MonitorTask m)
    note keeps = poll_monitor_task_keeps [OF poll [unfolded MonitorTask]]
    from w show ?thesis
    proof (rule watchedI)
      fix k c ch
      assume r: "children_get (children (w'\<lparr>tasks := (tasks w')[i := t]\<rparr>)) k = Some (Running ch)"
        and m: "MonitorTask (AwaitingChildEvent k c ch) \<in> set (tasks w)"
      show "MonitorTask (AwaitingChildEvent k c ch) \<in> set (tasks (w'\<lparr>tasks := (tasks w')[i := t]\<rparr>))"
      proof (cases "tasks w ! i = MonitorTask (AwaitingChildEvent k c ch)")
        case True
        with poll_watching_task [of env k c ch w t w'] poll inv ok calm r
        have "t = MonitorTask (AwaitingChildEvent k c ch)" by simp
        with i keeps(1) show ?thesis by (simp add: set_update_memI)
      next
        case False
        with m keeps(1) show ?thesis by (auto intro!: in_update_other)
      qed
    qed (use keeps(2) [OF table] in simp)
  next
    case (ClientTask cl)
    from poll [unfolded ClientTask] obtain res v where
      p: "poll_client (ses_env env) cl w = Return (res, v)"
      and v: "w' = v \<or> (\<exists>cm tx. res = Goto (Finished cm tx) \<and> w' = session_finished cm v) \<or>
        (\<exists>e. w' = session_failed e v)"
      by (rule poll_client_task_effect)
    from v have "children w' = children v" "\<exists>ts. tasks w' = tasks v @ ts"
      by (auto simp: session_finished_def session_failed_def Let_def)
    then show ?thesis
      by (intro session_watched [OF poll_client_effect [OF p] inv w i ClientTask]) auto
  next
    case SshLogTask
    with poll poll_ssh_log_core show ?thesis by (intro plain) auto
  next
    case ExitTask
    with poll have "children w' = children w" "tasks w' = tasks w" by (auto split: poll.split_asm)
    with ExitTask show ?thesis by (intro watchedI [OF w]) (auto intro!: in_update_other)
  next
    case LostTask
    with poll show ?thesis by (intro plain) simp_all
  next
    case DoneTask
    with poll show ?thesis by (intro plain) simp_all
  qed
qed

lemma calm_step_watched:
  assumes "daemon_inv w \<and> watched w" "daemon_step waits_work w w'"
  shows "daemon_inv w' \<and> watched w'"
proof -
  from assms(2) have "watched w'"
  proof (cases rule: daemon_step.cases)
    case (poll i env t v)
    with assms(1) show ?thesis by (auto intro: poll_watched)
  qed (use assms(1) in \<open>auto simp: watched_def on_signal_def\<close>)
  with assms show ?thesis by (blast intro: daemon_step_inv)
qed

lemma daemon_initial_watched: "daemon_initial w \<Longrightarrow> watched w"
proof -
  assume "daemon_initial w"
  then obtain foreground a st calls where
    "state_new foreground a = (Inr st, calls)" "serve_start (Inr ()) (Inr ()) st = Inr w"
    by (auto simp: daemon_initial_def)
  then have "children w = []" using state_new_fresh by (auto simp: serve_start_def)
  then show "watched w" by (simp add: watched_def table.get_empty)
qed

interpretation calm: inductive_invariant daemon_initial "daemon_step waits_work"
  "\<lambda>w. daemon_inv w \<and> watched w"
proof unfold_locales
  show "daemon_inv w \<and> watched w" if "daemon_initial w" for w
    using that by (simp add: daemon_initial_inv daemon_initial_watched)
  show "daemon_inv v \<and> watched v" if "daemon_inv w \<and> watched w" "daemon_step waits_work w v" for w v
    using that by (rule calm_step_watched)
qed

text \<open>C7. A tunnel that is reported open is watched, and can be closed: in every reachable process
  (of runs where waiting for SSH processes does not fail), a running entry has a monitor that
  holds a live process and listens on the channel of the entry, so a close command for it is
  answered with \<open>Ok\<close> and never fails for want of a receiver.\<close>

theorem open_tunnel_can_be_closed:
  assumes "reach daemon_initial (daemon_step waits_work) w"
    and "children_get (children w) (cp_host params) = Some (Running ch)"
    and "rx_answers env = Ready (Some (CM_Close params)) # as" "kill_send_ok w env"
  shows "(\<exists>c. MonitorTask (AwaitingChildEvent (cp_host params) c ch) \<in> set (tasks w) \<and> \<not> reaped c) \<and>
    (\<exists>w'. poll_awaiting_command env cm tx w = Return (Goto (FinalizingTxn cm tx SM_Ok), w') \<and>
      ch \<in> set (kill_sent w'))"
proof -
  from calm.inv_reach [OF assms(1)] assms(2) obtain c where inv: "daemon_inv w"
    and m: "MonitorTask (AwaitingChildEvent (cp_host params) c ch) \<in> set (tasks w)"
    by (auto simp: watched_def)
  then have "\<not> reaped c" by (auto simp: daemon_inv_def tasks_inv_def list_all_iff)
  moreover from m have "listening ch w" by (force simp: listening_def list_ex_iff)
  with assms(2-4) have "kill_send env = Inr ()" by (simp add: kill_send_ok_def)
  ultimately show ?thesis
    using m assms(2,3) by (auto simp: poll_awaiting_command_def process_close_command_def)
qed

theorem open_tunnel_can_be_closed_witness:
  "(\<exists>c. MonitorTask (AwaitingChildEvent ''h'' c 1) \<in> set (tasks reopened_world) \<and> \<not> reaped c) \<and>
   (\<exists>w'. poll_awaiting_command (sample_env\<lparr>rx_answers := [Ready (Some (CM_Close \<lparr>cp_host = ''h''\<rparr>))]\<rparr>)
      quiet_common 7 reopened_world = Return (Goto (FinalizingTxn quiet_common 7 SM_Ok), w') \<and>
      1 \<in> set (kill_sent w'))"
  using open_tunnel_can_be_closed [OF run_reopened, of "\<lparr>cp_host = ''h''\<rparr>" 1
      "sample_env\<lparr>rx_answers := [Ready (Some (CM_Close \<lparr>cp_host = ''h''\<rparr>))]\<rparr>" "[]"]
  by (simp add: sample_worlds children_get_def kill_send_ok_def listening_def sample_env_def)

end
