(* ===== verification/DaemonEnd.thy ===== *)
theory DaemonEnd
  imports DaemonProps
begin

text \<open>
  How the daemon starts, why it ends, and what goes wrong when a host is opened again while
  its old SSH process is still dying.
\<close>

section \<open>Runs\<close>

text \<open>The worlds a process goes through, from its start.\<close>

inductive daemon_run :: "(task_env \<Rightarrow> task \<Rightarrow> bool) \<Rightarrow> world list \<Rightarrow> bool"
  for allowed :: "task_env \<Rightarrow> task \<Rightarrow> bool" where
  run_init: "daemon_initial w \<Longrightarrow> daemon_run allowed [w]"
| run_step: "daemon_run allowed (ws @ [w]) \<Longrightarrow> daemon_step allowed w w' \<Longrightarrow>
    daemon_run allowed (ws @ [w, w'])"

lemma run_ends_reachable:
  "daemon_run allowed ws \<Longrightarrow> ws \<noteq> [] \<and> reach daemon_initial (daemon_step allowed) (last ws)"
  by (induction rule: daemon_run.induct) (auto intro: reach.intros)

lemma reachable_run:
  "reach daemon_initial (daemon_step allowed) w \<Longrightarrow> \<exists>ws. daemon_run allowed (ws @ [w])"
proof (induction rule: reach.induct)
  case (reach_init s)
  then have "daemon_run allowed ([] @ [s])" by (simp add: run_init)
  then show ?case ..
next
  case (reach_step s t)
  then obtain ws where "daemon_run allowed (ws @ [s])" by blast
  with reach_step(2) have "daemon_run allowed ((ws @ [s]) @ [t])" by (simp add: run_step)
  then show ?case ..
qed

section \<open>Ending\<close>

text \<open>
  The steps that tell the daemon to end: a session reads the exit command from its client, or a
  fatal signal arrives.
\<close>

inductive told :: "world \<Rightarrow> world \<Rightarrow> bool" where
  commanded: "i < length (tasks w) \<Longrightarrow> tasks w ! i = ClientTask (AwaitingCommand cm tx) \<Longrightarrow>
    rx_answers (ses_env env) = Ready (Some CM_Exit) # as \<Longrightarrow>
    poll_task env (tasks w ! i) w = Return (t, v) \<Longrightarrow> told w (v\<lparr>tasks := (tasks v)[i := t]\<rparr>)"
| signalled: "sig \<in> set fatal_signals \<Longrightarrow> told w (on_signal sig w)"

fun wants_exit :: "client \<Rightarrow> bool" where
  "wants_exit (AwaitingCommand cm tx) = exit_on_close cm"
| "wants_exit (CommunicatingForOpen c) = exit_on_close (comm_common c)"
| "wants_exit (FinalizingTxn cm tx msg) = exit_on_close cm"
| "wants_exit (Finished cm tx) = exit_on_close cm"
| "wants_exit (Aborting cm tx msg) = exit_on_close cm"
| "wants_exit (Failed e) = False"

fun asks_exit :: "task \<Rightarrow> bool" where
  "asks_exit ExitTask = True"
| "asks_exit (ClientTask cl) = wants_exit cl"
| "asks_exit t = False"

text \<open>Nobody has asked for the end, and no message is in the exit channel.\<close>

definition unasked :: "world \<Rightarrow> bool" where
  "unasked w \<longleftrightarrow> exit_msgs w = 0 \<and> (\<forall>t \<in> set (tasks w). \<not> asks_exit t)"

lemma unaskedI:
  assumes "unasked w" "exit_msgs w' = exit_msgs w" "i < length (tasks w)"
    and "\<And>u. u \<in> set (tasks w') \<Longrightarrow> asks_exit u \<Longrightarrow> u \<in> set (tasks w)" "\<not> asks_exit t"
  shows "unasked (w'\<lparr>tasks := (tasks w')[i := t]\<rparr>)"
  using assms by (auto simp: unasked_def dest!: in_updateD)

lemma communicating_wants_exit:
  assumes "poll_communicating_for_open env c w = Return (res, w')" "client_after res = Some cl"
  shows "wants_exit cl = exit_on_close (comm_common c)"
  using assms(1)
proof (cases rule: poll_communicating_cases)
  case (waiting st c3 c4)
  with assms(2) show ?thesis
    by (auto simp: after_reading_def elim!: flush_cl_buf_cases flush_ssh_buf_cases)
qed (use assms(2) in auto)

text \<open>A session wants the daemon to end only once it has read the exit command.\<close>

lemma poll_client_wants_exit:
  assumes "poll_client env cl w = Return (res, w')" "client_after res = Some cl'" "wants_exit cl'"
  shows "wants_exit cl \<or> (\<exists>cm tx as. cl = AwaitingCommand cm tx \<and> rx_answers env = Ready (Some CM_Exit) # as)"
proof (cases cl)
  case (AwaitingCommand cm tx)
  with assms(1) obtain a as where a: "rx_answers env = a # as"
    by (auto simp: poll_awaiting_command_def split: list.split_asm)
  show ?thesis
  proof (cases "\<exists>p. a = Ready (Some (CM_Open p))")
    case True
    then obtain p where "a = Ready (Some (CM_Open p))" ..
    with assms(1) AwaitingCommand a have "process_open_command env cm p tx w = Return (res, w')"
      by (simp add: poll_awaiting_command_def)
    then show ?thesis
      using assms(2,3) AwaitingCommand by (cases rule: process_open_cases) auto
  next
    case False
    with assms AwaitingCommand a show ?thesis
      by (auto simp: poll_awaiting_command_def process_status_query_def process_close_command_def
          Let_def abort_client_def
          split: poll.split_asm option.split_asm client_message.split_asm tunnel_state.split_asm
            sum.split_asm)
  qed
next
  case (CommunicatingForOpen c)
  with assms show ?thesis by (auto dest: communicating_wants_exit)
next
  case (FinalizingTxn cm tx msg)
  with assms show ?thesis by (auto elim!: poll_finalizing_cases)
next
  case (Aborting cm tx msg)
  with assms show ?thesis by (auto elim!: poll_aborting_cases)
qed (use assms in simp_all)

lemma session_effect_asks:
  "session_effect w w' \<Longrightarrow> t \<in> set (tasks w') \<Longrightarrow> asks_exit t \<Longrightarrow> t \<in> set (tasks w)"
  by (auto simp: same_core_def elim!: session_effect.cases)

lemma poll_client_unasked:
  assumes un: "unasked w" and i: "i < length (tasks w)" "tasks w ! i = ClientTask cl"
    and poll: "poll_task env (ClientTask cl) w = Return (t, w')"
    and other: "\<not> told w (w'\<lparr>tasks := (tasks w')[i := t]\<rparr>)"
  shows "unasked (w'\<lparr>tasks := (tasks w')[i := t]\<rparr>)"
proof -
  from un i have "\<not> wants_exit cl" using nth_mem [OF i(1)] by (auto simp: unasked_def)
  have calm: "\<not> wants_exit cl'"
    if p: "poll_client (ses_env env) cl w = Return (res, v)" and c: "client_after res = Some cl'" for res v cl'
  proof
    assume "wants_exit cl'"
    with poll_client_wants_exit [OF p c] \<open>\<not> wants_exit cl\<close> obtain cm tx as where
      "cl = AwaitingCommand cm tx" "rx_answers (ses_env env) = Ready (Some CM_Exit) # as"
      by blast
    with other i poll commanded [of i w cm tx env as t w'] show False by simp
  qed
  from poll show ?thesis
  proof (cases rule: poll_client_task)
    case (continues res cl')
    note eff = poll_client_effect [OF continues(1)]
    from calm [OF continues(1,2)] continues(4) session_effect_asks [OF eff] session_effect_keeps(2) [OF eff]
    show ?thesis by (intro unaskedI [OF un _ i(1)]) simp_all
  next
    case (finishes cm tx v)
    note eff = poll_client_effect [OF finishes(1)]
    from calm [OF finishes(1)] have "\<not> exit_on_close cm" by simp
    with finishes(2,3) session_effect_asks [OF eff] session_effect_keeps(2) [OF eff]
    show ?thesis by (intro unaskedI [OF un _ i(1)]) (simp_all add: session_finished_def Let_def)
  next
    case is_lost
    note eff = poll_client_effect [OF is_lost(1)]
    from is_lost(2) session_effect_asks [OF eff] session_effect_keeps(2) [OF eff]
    show ?thesis by (intro unaskedI [OF un _ i(1)]) simp_all
  next
    case (fails e v)
    note eff = poll_client_effect [OF fails(1)]
    from fails(2,3) session_effect_asks [OF eff] session_effect_keeps(2) [OF eff]
    show ?thesis by (intro unaskedI [OF un _ i(1)]) (simp_all add: session_failed_def)
  qed
qed

lemma poll_unasked:
  assumes un: "unasked w" and i: "i < length (tasks w)"
    and poll: "poll_task env (tasks w ! i) w = Return (t, w')"
    and other: "\<not> told w (w'\<lparr>tasks := (tasks w')[i := t]\<rparr>)"
  shows "unasked (w'\<lparr>tasks := (tasks w')[i := t]\<rparr>)"
proof (cases "tasks w ! i")
  case AcceptTask
  with poll obtain b where "poll_accept (incoming env) w = Return (b, w')" "\<not> asks_exit t"
    by auto
  moreover from poll_accept_adds [OF this(1)] obtain cs where "exit_msgs w' = exit_msgs w"
    "tasks w' = tasks w @ map (\<lambda>c. ClientTask (AwaitingCommand \<lparr>exit_on_close = False\<rparr> c)) cs"
    by (auto simp: sessions_added_def)
  ultimately show ?thesis by (intro unaskedI [OF un _ i]) auto
next
  case (MonitorTask m)
  from poll [unfolded MonitorTask] have "exit_msgs w' = exit_msgs w" "\<not> asks_exit t"
    by (cases rule: poll_monitor_task; auto dest: move_keeps(6) simp: drop_monitor_def split: option.split)+
  with poll_monitor_task_keeps(1) [OF poll [unfolded MonitorTask]] show ?thesis
    by (intro unaskedI [OF un _ i]) simp_all
next
  case (ClientTask cl)
  with poll_client_unasked [OF un i] poll other show ?thesis by simp
next
  case SshLogTask
  with poll obtain b where "poll_ssh_log (log_answers env) w = Return (b, w')"
    "t = (if b then DoneTask else SshLogTask)"
    by auto
  with poll_ssh_log_core show ?thesis by (intro unaskedI [OF un _ i]) (auto simp: same_core_def)
next
  case ExitTask
  with un nth_mem [OF i] show ?thesis by (auto simp: unasked_def)
next
  case LostTask
  with poll show ?thesis by (intro unaskedI [OF un _ i]) simp_all
next
  case DoneTask
  with poll show ?thesis by (intro unaskedI [OF un _ i]) simp_all
qed

lemma step_unasked:
  assumes "daemon_step allowed w w'" "unasked w"
  shows "told w w' \<or> unasked w'"
  using assms(1)
proof (cases rule: daemon_step.cases)
  case (signal sig)
  then show ?thesis by (simp add: signalled)
next
  case (poll i env t v)
  with poll_unasked [OF assms(2), of i env t v] show ?thesis by blast
qed

lemma initial_unasked: "daemon_initial w \<Longrightarrow> unasked w"
  by (auto simp: daemon_initial_def serve_start_def unasked_def split: sum.split_asm)

lemma run_told:
  "daemon_run allowed ws \<Longrightarrow>
   unasked (last ws) \<or> (\<exists>us v v' vs. ws = us @ v # v' # vs \<and> told v v')"
proof (induction rule: daemon_run.induct)
  case (run_step ws w w')
  then show ?case
  proof (elim disjE exE conjE)
    assume "unasked (last (ws @ [w]))"
    with run_step(2) step_unasked have "told w w' \<or> unasked w'" by simp
    then show ?thesis by auto
  next
    fix us v v' vs
    assume "ws @ [w] = us @ v # v' # vs" "told v v'"
    then have "ws @ [w, w'] = us @ v # v' # (vs @ [w'])" by (metis append.assoc append_Cons append_Nil)
    with \<open>told v v'\<close> show ?thesis by blast
  qed
qed (simp add: initial_unasked)

text \<open>C13. The daemon ends only when it is told to: in every run of the process, before there is a
  message in the exit channel a session has read the exit command from its client, or one of
  the fatal signals has arrived. No error, dead tunnel, goodbye or lost client ends it.\<close>

theorem ends_only_when_told:
  assumes "daemon_run allowed ws" "0 < exit_msgs (last ws)"
  shows "\<exists>us v v' vs. ws = us @ v # v' # vs \<and> told v v'"
  using run_told [OF assms(1)] assms(2) by (auto simp: unasked_def)

theorem ends_only_when_told_witness:
  "\<exists>us v v' vs. [start_world, on_signal 15 start_world] = us @ v # v' # vs \<and> told v v'"
proof (rule ends_only_when_told)
  from run_step [of waits_work "[]" start_world, OF _ daemon_step.signal [of 15]] show
    "daemon_run waits_work [start_world, on_signal 15 start_world]"
    using run_init [OF start_world_initial, of waits_work] by (simp add: fatal_signals_def)
qed (simp add: on_signal_def)

section \<open>Accepting\<close>

text \<open>Only the start of the daemon creates the accepting task.\<close>

definition no_accepting :: "world \<Rightarrow> bool" where
  "no_accepting w \<longleftrightarrow> AcceptTask \<notin> set (tasks w)"

lemma session_effect_accepting:
  "session_effect w w' \<Longrightarrow> \<exists>ts. tasks w' = tasks w @ ts \<and> AcceptTask \<notin> set ts"
  by (auto simp: same_core_def elim!: session_effect.cases)

lemma poll_task_accepting:
  assumes "poll_task env t w = Return (t', w')"
  shows "(\<exists>ts. tasks w' = tasks w @ ts \<and> AcceptTask \<notin> set ts) \<and> (t' = AcceptTask \<longrightarrow> t = AcceptTask) \<and>
    (next_conn w' = next_conn w \<or> t = AcceptTask)"
proof (cases t)
  case AcceptTask
  with assms poll_accept_adds show ?thesis by (fastforce simp: sessions_added_def)
next
  case (MonitorTask m)
  from assms [unfolded MonitorTask] show ?thesis
    by (cases rule: poll_monitor_task)
      (auto dest: move_keeps(1,5) simp: drop_monitor_def MonitorTask split: option.split)
next
  case (ClientTask cl)
  from assms [unfolded ClientTask] show ?thesis
    by (cases rule: poll_client_task)
      (auto dest!: poll_client_effect dest: session_effect_accepting session_effect_keeps(3)
        simp: session_finished_def session_failed_def Let_def ClientTask)
next
  case SshLogTask
  with assms obtain b where "poll_ssh_log (log_answers env) w = Return (b, w')" "t' \<noteq> AcceptTask"
    by auto
  with poll_ssh_log_core show ?thesis by (auto simp: same_core_def)
next
  case ExitTask
  with assms show ?thesis by (auto split: poll.split_asm)
qed (use assms in auto)

text \<open>
  One failed \<open>accept\<close> closes the daemon to new clients for good: the accepting task ends, and in no
  continuation, however long, is there another, or another connection, although nothing ends the
  daemon.
\<close>

lemma daemon_step_no_accepting:
  assumes "daemon_step allowed w w'" "no_accepting w"
  shows "no_accepting w' \<and> next_conn w' = next_conn w"
  using assms(1)
proof (cases rule: daemon_step.cases)
  case (poll i env t v)
  from assms(2) poll(2) have "tasks w ! i \<noteq> AcceptTask"
    using nth_mem [OF poll(2)] by (metis no_accepting_def)
  with poll_task_accepting [OF poll(5)] assms(2) poll(1) show ?thesis
    by (auto simp: no_accepting_def dest!: in_updateD)
qed (use assms(2) in \<open>simp add: no_accepting_def on_signal_def\<close>)

theorem accept_error_is_final:
  assumes "tasks w = us @ AcceptTask # vs" "AcceptTask \<notin> set us" "AcceptTask \<notin> set vs"
    and "incoming env = PollErr e # as"
  shows "\<exists>v. poll_task env (tasks w ! length us) w = Return (DoneTask, v) \<and> log_lines v = log_lines w @ [LogAcceptError e] \<and>
    (\<forall>w'. (daemon_step allowed)\<^sup>*\<^sup>* (v\<lparr>tasks := (tasks v)[length us := DoneTask]\<rparr>) w' \<longrightarrow>
      no_accepting w' \<and> next_conn w' = next_conn w)"
proof -
  let ?w1 = "(accept_failed e w)\<lparr>tasks := (tasks (accept_failed e w))[length us := DoneTask]\<rparr>"
  have "no_accepting w' \<and> next_conn w' = next_conn w" if "(daemon_step allowed)\<^sup>*\<^sup>* ?w1 w'" for w'
    using that
  proof (induction rule: rtranclp_induct)
    case base
    with assms(1-3) show ?case by (simp add: no_accepting_def accept_failed_def)
  next
    case (step v v')
    with daemon_step_no_accepting [OF step(2)] show ?case by simp
  qed
  with assms(1,4) show ?thesis by (intro exI [of _ "accept_failed e w"]) (simp add: accept_failed_def)
qed

theorem accept_error_is_final_witness:
  "\<exists>v. poll_task (sample_task_env\<lparr>incoming := [PollErr ''EMFILE'']\<rparr>) AcceptTask opened_world = Return (DoneTask, v) \<and>
     no_accepting (v\<lparr>tasks := (tasks v)[0 := DoneTask]\<rparr>)"
proof -
  have "tasks opened_world = [] @ AcceptTask # tl (tasks opened_world)" "AcceptTask \<notin> set (tl (tasks opened_world))"
    by (simp_all add: opened_world_def)
  from accept_error_is_final [OF this(1) _ this(2), of "sample_task_env\<lparr>incoming := [PollErr ''EMFILE'']\<rparr>" "''EMFILE''" "[]" waits_work]
  obtain v where "poll_task (sample_task_env\<lparr>incoming := [PollErr ''EMFILE'']\<rparr>) (tasks opened_world ! 0) opened_world = Return (DoneTask, v)"
    "\<forall>w'. (daemon_step waits_work)\<^sup>*\<^sup>* (v\<lparr>tasks := (tasks v)[0 := DoneTask]\<rparr>) w' \<longrightarrow> no_accepting w' \<and> next_conn w' = next_conn opened_world"
    by auto
  moreover have "tasks opened_world ! 0 = AcceptTask" by (simp add: opened_world_def)
  ultimately show ?thesis by (metis rtranclp.rtrancl_refl)
qed

section \<open>Closing and opening again\<close>

text \<open>C16. Opening a host again too early gets the new tunnel killed. While the old SSH process of
  a closed tunnel has not been reaped, the host can be opened again; the reaping then writes
  \<open>Exited None\<close> over the entry of the new tunnel, which drops the only sender of the new kill
  channel, and at its next poll the new monitor gives up and kills the new, healthy SSH
  process, although nothing was ever sent on its channel.\<close>

theorem reopened_tunnel_is_killed:
  assumes "reach daemon_initial (daemon_step allowed) w"
    and "i < length (tasks w)" "tasks w ! i = MonitorTask (AwaitingChildReaped k c1)"
    and "j < length (tasks w)" "tasks w ! j = MonitorTask (AwaitingChildEvent k c2 ch)"
    and "children_get (children w) k = Some (Running ch)"
    and "poll_task env1 (tasks w ! i) w = Return (t, v)" "w1 = v\<lparr>tasks := (tasks v)[i := t]\<rparr>"
    and "poll_exit c1 (waits (mon_env env1)) (sigs (mon_env env1)) = Return (Ready status, c1')"
    and "poll_exit c2 (waits (mon_env env2)) (sigs (mon_env env2)) = Return (NotReady, c2')"
    and "answers_ok w1 env2 (tasks w1 ! j)"
  shows "children_get (children w1) k = Some (Exited None) \<and> ch \<notin> set (kill_sent w1) \<and>
    (\<exists>w2. poll_task env2 (tasks w1 ! j) w1 = Return (DoneTask, w2) \<and>
      sigkills w2 = sigkills w1 @ [inner_id c2])"
proof -
  from process.inv_reach [OF assms(1)] have table: "table_ok (children w)"
    and one: "\<And>k'. children_get (children w) k' = Some (Running ch) \<Longrightarrow> k' = k"
    and unsent: "ch \<notin> set (kill_sent w)" and task: "task_ok w (tasks w ! j)"
    using assms(4,6) unfolding daemon_inv_def table_inv_def tasks_inv_def list_all_length by blast+
  from task assms(5) have c2: "\<not> reaped c2" "kill_on_drop c2" by auto
  have v: "v = insert_child k (Exited None) (log_items (LogChildReaped k) w)"
    using assms(7,9) poll_exit_child [OF assms(9)]
    by (simp add: assms(3) handler_defs after_poll_def)
  from assms(3,5) have "i \<noteq> j" by auto
  then have j: "tasks w1 ! j = MonitorTask (AwaitingChildEvent k c2 ch)"
    by (simp add: assms(5,8) v)
  have "children_get (children w1) = (children_get (children w))(k \<mapsto> Exited None)"
    and table1: "table_ok (children w1)"
    by (simp_all add: assms(8) v table.get_ins [OF table] table.ok_ins [OF table])
  moreover from this(1) one have "\<not> sender_held ch w1"
    by (auto simp: sender_held_iff [OF table1] split: if_split_asm)
  moreover have sent: "kill_sent w1 = kill_sent w" by (simp add: assms(8) v)
  moreover from calculation(3) assms(11) have "kill_rx (mon_env env2) = PollErr ()"
    using unsent by (simp add: j sent kill_rx_ok_def split: poll.split_asm)
  ultimately show ?thesis
    using unsent c2 assms(10)
    by (simp add: j handler_defs drop_monitor_def child_drop_def)
qed

theorem reopened_tunnel_is_killed_witness:
  "\<exists>w1 w2. poll_task (wait_env 0 (PollErr ())) (tasks w1 ! 5) w1 = Return (DoneTask, w2) \<and>
     children_get (children w1) ''h'' = Some (Exited None) \<and> sigkills w2 = [42, 43]"
proof -
  let ?env1 = "wait_env 42 NotReady"
  let ?env2 = "wait_env 0 (PollErr ())"
  let ?v = "insert_child ''h'' (Exited None) (log_items (LogChildReaped ''h'') reopened_world)"
  let ?w1 = "?v\<lparr>tasks := (tasks ?v)[2 := MonitorTask (NotifyingChildDied None)]\<rparr>"
  have a: "poll_task ?env1 (tasks reopened_world ! 2) reopened_world =
      Return (MonitorTask (NotifyingChildDied None), ?v)"
    by (simp add: sample_worlds sample_sessions child_drop_def)
  have b: "poll_exit (child_new 42) (waits (mon_env ?env1)) (sigs (mon_env ?env1)) =
      Return (Ready 9, child_new 42\<lparr>reaped := True\<rparr>)"
    by (simp add: sample_sessions)
  have c: "poll_exit (child_new 43) (waits (mon_env ?env2)) (sigs (mon_env ?env2)) =
      Return (NotReady, child_new 43)"
    by (simp add: sample_sessions)
  have d: "answers_ok ?w1 ?env2 (tasks ?w1 ! 5)"
    by (simp add: sample_worlds sample_sessions)
  have e: "2 < length (tasks reopened_world)"
    "tasks reopened_world ! 2 = MonitorTask (AwaitingChildReaped ''h'' (child_new 42))"
    "5 < length (tasks reopened_world)"
    "tasks reopened_world ! 5 = MonitorTask (AwaitingChildEvent ''h'' (child_new 43) 1)"
    "children_get (children reopened_world) ''h'' = Some (Running 1)"
    "sigkills ?w1 = [42]"
    by (simp_all add: sample_worlds children_get_def)
  from reopened_tunnel_is_killed [OF run_reopened e(1-5) a refl b c d] obtain w2 where
    killed: "poll_task ?env2 (tasks ?w1 ! 5) ?w1 = Return (DoneTask, w2)"
      "children_get (children ?w1) ''h'' = Some (Exited None)"
      "sigkills w2 = sigkills ?w1 @ [inner_id (child_new 43)]"
    by blast
  from killed(3) e(6) have "sigkills w2 = [42, 43]" by (simp add: child_new_def)
  with killed(1,2) show ?thesis by blast
qed

section \<open>A wait that fails\<close>

lemma listening_iff: "listening ch w \<longleftrightarrow> (\<exists>t \<in> set (tasks w). ch \<in> set (chans_of t))"
proof -
  have "(case t of MonitorTask (AwaitingChildEvent _ _ c) \<Rightarrow> c = ch | _ \<Rightarrow> False) \<longleftrightarrow> ch \<in> set (chans_of t)" for t
    by (cases t rule: chans_of.cases) auto
  then show ?thesis by (simp add: listening_def list_ex_iff)
qed

text \<open>C17. A failing \<open>waitpid\<close> strands a tunnel. The monitor that awaits an event gives up, its SSH process
  is killed, but the entry of the host stays running with nobody listening on its channel: an
  open of this host is answered with \<open>TunnelAlreadyOpen\<close>, although there is no tunnel, and a
  close with an error, which removes the entry.\<close>

theorem failed_wait_strands_tunnel:
  assumes "reach daemon_initial (daemon_step allowed) w"
    and "i < length (tasks w)" "tasks w ! i = MonitorTask (AwaitingChildEvent k c ch)"
    and "children_get (children w) k = Some (Running ch)"
    and "poll_exit c (waits (mon_env env)) (sigs (mon_env env)) = Return (PollErr e, c')"
  shows "\<exists>w1. poll_task env (tasks w ! i) w = Return (DoneTask, w1) \<and>
    sigkills w1 = sigkills w @ [inner_id c] \<and> children_get (children w1) k = Some (Running ch) \<and>
    \<not> listening ch (w1\<lparr>tasks := (tasks w1)[i := DoneTask]\<rparr>) \<and>
    (\<forall>w2 env2 cm tx as. children w2 = children w1 \<longrightarrow> \<not> listening ch w2 \<longrightarrow>
      (rx_answers env2 = Ready (Some (CM_Open \<lparr>op_host = k\<rparr>)) # as \<longrightarrow>
        (\<exists>v. poll_awaiting_command env2 cm tx w2 =
          Return (Goto (FinalizingTxn cm tx SM_TunnelAlreadyOpen), v))) \<and>
      (rx_answers env2 = Ready (Some (CM_Close \<lparr>cp_host = k\<rparr>)) # as \<and> kill_send_ok w2 env2 \<longrightarrow>
        (\<exists>v text. poll_awaiting_command env2 cm tx w2 =
            Return (Goto (Aborting cm tx (Some (SM_Error text))), v) \<and>
          children v = children_remove k (children w2))))"
proof -
  from process.inv_reach [OF assms(1)] assms(2) have "task_ok w (tasks w ! i)"
    and chans: "distinct (concat (map chans_of (tasks w)))"
    by (simp_all add: daemon_inv_def tasks_inv_def list_all_length)
  with assms(3) have c: "\<not> reaped c" "kill_on_drop c" by auto
  let ?w1 = "send_signals [inner_id c] w"
  have "poll_task env (tasks w ! i) w = Return (DoneTask, ?w1)"
    using c assms(3,5) by (simp add: handler_defs drop_monitor_def child_drop_def)
  moreover have "\<not> listening ch (?w1\<lparr>tasks := (tasks ?w1)[i := DoneTask]\<rparr>)"
  proof
    assume "listening ch (?w1\<lparr>tasks := (tasks ?w1)[i := DoneTask]\<rparr>)"
    then obtain t where "t \<in> set ((tasks w)[i := DoneTask])" "ch \<in> set (chans_of t)"
      by (auto simp: listening_iff)
    then obtain j where j: "j < length (tasks w)" "(tasks w)[i := DoneTask] ! j = t"
      by (auto simp: in_set_conv_nth)
    with assms(2) \<open>ch \<in> set (chans_of t)\<close> have "j \<noteq> i" "tasks w ! j = t" by (auto simp: nth_list_update)
    with distinct_concat_disjoint [OF chans j(1) assms(2)] \<open>ch \<in> set (chans_of t)\<close> assms(3) show False
      by simp
  qed
  moreover have "children_get (children ?w1) k = Some (Running ch)" by (simp add: assms(4))
  ultimately show ?thesis
    by (intro exI [of _ ?w1])
      (auto simp: poll_awaiting_command_def process_open_command_def process_close_command_def Let_def
        kill_send_ok_def abort_client_def assms(4))
qed

theorem failed_wait_strands_tunnel_witness:
  "\<exists>w1. poll_task (wait_env (-1) NotReady) (tasks opened_world ! 2) opened_world = Return (DoneTask, w1) \<and>
     sigkills w1 = [42] \<and> children_get (children w1) ''h'' = Some (Running 0)"
proof -
  let ?env = "wait_env (-1) NotReady"
  have "2 < length (tasks opened_world)"
    "tasks opened_world ! 2 = MonitorTask (AwaitingChildEvent ''h'' (child_new 42) 0)"
    "children_get (children opened_world) ''h'' = Some (Running 0)" "sigkills opened_world = []"
    by (simp_all add: sample_worlds children_get_def)
  moreover have "poll_exit (child_new 42) (waits (mon_env ?env)) (sigs (mon_env ?env)) =
      Return (PollErr (IoError OtherKind []), child_new 42)"
    by (simp add: sample_sessions)
  ultimately show ?thesis
    using failed_wait_strands_tunnel [OF run_opened, of 2 "''h''" "child_new 42" 0 ?env]
    by (simp add: child_new_def del: poll_task.simps) blast
qed

section \<open>Starting\<close>

lemma log_beside_socket:
  "set_extension (path_push d ''stund.sock'') ''log'' = path_push d ''stund.log''"
  by (cases d rule: rev_cases) (auto simp: set_extension_def path_push_def Let_def)

text \<open>C38. Starting up is exclusive and private. If a daemon answers on the socket, a second one
  refuses and has touched nothing; a start that succeeds found no daemon, has removed the old
  socket only after that, and has set the umask to 0177 before it creates the log, which lies
  beside the socket.\<close>

theorem startup_exclusive_and_private:
  assumes "state_new foreground a = (r, calls)" "home_dir a = Some h"
  shows "(connect_ok a \<longrightarrow>
      r = Inl ''refusing to start: another daemon is already running'' \<and>
      calls = [Connect_to (path_push (path_push h ''.ssh'') ''stund.sock'')]) \<and>
    (\<forall>st. r = Inr st \<longrightarrow>
      \<not> connect_ok a \<and> sock_path st = path_push (path_push h ''.ssh'') ''stund.sock'' \<and>
      calls = [Connect_to (sock_path st), Remove_file (sock_path st), Umask 127] @
        (if foreground then []
         else [Create_file (path_push (path_push h ''.ssh'') ''stund.log''), Daemonize]))"
proof (cases "connect_ok a")
  case True
  with assms show ?thesis by (auto simp: state_new_def get_socket_path_def)
next
  case False
  with assms show ?thesis
    by (cases "remove_result a"; cases foreground; cases "create_result a"; cases "daemonize_result a")
      (auto simp: state_new_def get_socket_path_def Let_def log_beside_socket split: if_split_asm)
qed

theorem startup_exclusive_and_private_witness:
  "state_new False \<lparr>home_dir = Some ''/u'', connect_ok = True, remove_result = Inr (),
     create_result = Inr (), daemonize_result = Inr ()\<rparr> =
   (Inl ''refusing to start: another daemon is already running'', [Connect_to ''/u/.ssh/stund.sock''])"
    (is "state_new False ?a = _")
proof -
  obtain r calls where eq: "state_new False ?a = (r, calls)" by (cases "state_new False ?a")
  from startup_exclusive_and_private [OF eq, of "''/u''"] eq show ?thesis
    by (simp add: path_push_def)
qed

end
