(* ===== verification/DaemonLive.thy ===== *)
theory DaemonLive
  imports DaemonEnd
begin

text \<open>
  What the daemon can always do: obey a close or an exit command of a session that waits for
  one. Each of the two is a run of four polls.
\<close>

section \<open>Polls\<close>

text \<open>One poll of the task \<open>i\<close>, with answers the kernel and the channels can give.\<close>

definition polls :: "nat \<Rightarrow> task_env \<Rightarrow> world \<Rightarrow> world \<Rightarrow> bool" where
  "polls i env w w' \<longleftrightarrow>
     i < length (tasks w) \<and> answers_ok w env (tasks w ! i) \<and> waits_work env (tasks w ! i) \<and>
     (\<exists>t v. poll_task env (tasks w ! i) w = Return (t, v) \<and> w' = v\<lparr>tasks := (tasks v)[i := t]\<rparr>)"

lemma polls_step: "polls i env w w' \<Longrightarrow> daemon_step waits_work w w'"
  by (auto simp: polls_def intro: daemon_step.poll)

lemma session_polls:
  assumes "i < length (tasks w)" "tasks w ! i = ClientTask cl" "answers_ok w env (ClientTask cl)"
    and "poll_client (ses_env env) cl w = Return (Goto cl', v)" "\<forall>cm tx. cl' \<noteq> Finished cm tx"
  shows "polls i env w (v\<lparr>tasks := (tasks v)[i := ClientTask cl']\<rparr>)"
  using assms by (simp add: polls_def split: client.split)

lemma monitor_polls:
  assumes "i < length (tasks w)" "tasks w ! i = MonitorTask m"
    and "answers_ok w env (MonitorTask m)" "waits_work env (MonitorTask m)"
    and "poll_monitor (mon_env env) m w = Return (Goto m', v)" "m' \<noteq> ChildReaped"
  shows "polls i env w (v\<lparr>tasks := (tasks v)[i := MonitorTask m']\<rparr>)"
  using assms by (simp add: polls_def split: monitor.split)

text \<open>A session that sends its reply.\<close>

lemma sends_reply:
  assumes "i < length (tasks w)" "tasks w ! i = ClientTask (FinalizingTxn cm tx msg)"
    and "cl_start (ses_env env) = SendReady" "cl_flush (ses_env env) = Ready ()"
  shows "polls i env w ((take_message tx msg w)\<lparr>tasks := (tasks w)[i := ClientTask (AwaitingCommand cm tx)]\<rparr>)"
  using session_polls [OF assms(1,2), of env "AwaitingCommand cm tx" "take_message tx msg w"] assms(3,4)
  by (simp add: poll_finalizing_txn_def)

section \<open>The exit command\<close>

lemma receives_exit:
  assumes "i < length (tasks w)" "tasks w ! i = ClientTask (AwaitingCommand cm tx)"
    and "rx_answers (ses_env env) = Ready (Some CM_Exit) # as"
  shows "polls i env w ((log_items LogExitCommanded w)\<lparr>tasks := (tasks w)
      [i := ClientTask (FinalizingTxn (cm\<lparr>exit_on_close := True\<rparr>) tx SM_Ok)]\<rparr>)"
  using session_polls [OF assms(1,2), of env "FinalizingTxn (cm\<lparr>exit_on_close := True\<rparr>) tx SM_Ok"
      "log_items LogExitCommanded w"] assms(3)
  by (simp add: poll_awaiting_command_def kill_send_ok_def)

lemma ends_session:
  assumes "i < length (tasks w)" "tasks w ! i = ClientTask (AwaitingCommand cm tx)"
    and "rx_answers (ses_env env) = Ready (Some CM_Goodbye) # as \<or> rx_answers (ses_env env) = Ready None # as"
  shows "polls i env w
    ((session_finished cm w)\<lparr>tasks := (tasks (session_finished cm w))[i := DoneTask]\<rparr>)"
  using assms by (auto simp: polls_def poll_awaiting_command_def kill_send_ok_def)

lemma sends_exit:
  assumes "i < length (tasks w)" "tasks w ! i = ExitTask" "exit_answer env = Ready ()"
  shows "polls i env w (w\<lparr>exit_msgs := exit_msgs w + 1, tasks := (tasks w)[i := DoneTask]\<rparr>)"
  using assms by (simp add: polls_def)

text \<open>C15. An exit command is obeyed: when a session that waits for a command reads the exit command,
  can send its reply, and then reads the goodbye or the end of the connection, it answers \<open>Ok\<close>,
  and spawns a task that puts a message into the exit channel at its next poll, if the channel
  takes it; so the daemon ends, and only then. The tunnels are as before, and nothing is killed on
  the way. This is so whatever else the four polls may meet.\<close>

theorem exit_command_is_obeyed:
  assumes "i < length (tasks w)" "tasks w ! i = ClientTask (AwaitingCommand cm tx)"
    and "rx_answers (ses_env e1) = Ready (Some CM_Exit) # as1"
    and "cl_start (ses_env e2) = SendReady" "cl_flush (ses_env e2) = Ready ()"
    and "rx_answers (ses_env e3) = Ready (Some CM_Goodbye) # as3 \<or> rx_answers (ses_env e3) = Ready None # as3"
    and "exit_answer e4 = Ready ()"
  shows "\<exists>w1 w2 w3 w4. polls i e1 w w1 \<and> polls i e2 w1 w2 \<and> polls i e3 w2 w3 \<and>
    polls (length (tasks w)) e4 w3 w4 \<and>
    sent w2 = sent w @ [(tx, SM_Ok)] \<and> sent w4 = sent w2 \<and>
    exit_msgs w3 = exit_msgs w \<and> exit_msgs w4 = exit_msgs w + 1 \<and>
    children w4 = children w \<and> sigkills w4 = sigkills w"
proof -
  let ?cm = "cm\<lparr>exit_on_close := True\<rparr>"
  let ?w1 = "(log_items LogExitCommanded w)\<lparr>tasks := (tasks w)[i := ClientTask (FinalizingTxn ?cm tx SM_Ok)]\<rparr>"
  let ?w2 = "(take_message tx SM_Ok ?w1)\<lparr>tasks := (tasks ?w1)[i := ClientTask (AwaitingCommand ?cm tx)]\<rparr>"
  let ?w3 = "(session_finished ?cm ?w2)\<lparr>tasks := (tasks (session_finished ?cm ?w2))[i := DoneTask]\<rparr>"
  let ?n = "length (tasks w)"
  let ?w4 = "?w3\<lparr>exit_msgs := exit_msgs ?w3 + 1, tasks := (tasks ?w3)[?n := DoneTask]\<rparr>"
  have "polls i e1 w ?w1" using assms(1-3) by (rule receives_exit)
  moreover have "polls i e2 ?w1 ?w2" using assms(1,4,5) by (intro sends_reply) simp_all
  moreover have "polls i e3 ?w2 ?w3" using assms(1,6) by (intro ends_session) simp_all
  moreover have "polls ?n e4 ?w3 ?w4"
    using assms(1,7) by (intro sends_exit) (simp_all add: session_finished_def nth_append)
  moreover have "sent ?w2 = sent w @ [(tx, SM_Ok)]" "sent ?w4 = sent ?w2" "exit_msgs ?w3 = exit_msgs w"
    "exit_msgs ?w4 = exit_msgs w + 1" "children ?w4 = children w" "sigkills ?w4 = sigkills w"
    by (simp_all add: session_finished_def)
  ultimately show ?thesis by blast
qed

definition receives :: "client_message \<Rightarrow> task_env" where
  "receives m = sample_task_env\<lparr>ses_env := sample_env\<lparr>rx_answers := [Ready (Some m)]\<rparr>\<rparr>"

theorem exit_command_is_obeyed_witness:
  "\<exists>w'. (daemon_step waits_work)\<^sup>*\<^sup>* (process_client opened_world) w' \<and> exit_msgs w' = 1 \<and>
     sent w' = [(0, SM_Ok), (1, SM_Ok)]"
proof -
  let ?w = "process_client opened_world"
  have w: "3 < length (tasks ?w)" "tasks ?w ! 3 = ClientTask (AwaitingCommand quiet_common 1)"
    "sent ?w = [(0, SM_Ok)]" "exit_msgs ?w = 0"
    by (simp_all add: process_client_def spawn_def sample_worlds)
  have e: "rx_answers (ses_env (receives m)) = [Ready (Some m)]" "cl_start (ses_env (receives m)) = SendReady"
    "cl_flush (ses_env (receives m)) = Ready ()" "exit_answer (receives m) = Ready ()" for m
    by (simp_all add: receives_def sample_task_env_def sample_env_def)
  have "rx_answers (ses_env (receives CM_Goodbye)) = [Ready (Some CM_Goodbye)] \<or>
      rx_answers (ses_env (receives CM_Goodbye)) = [Ready None]"
    by (simp add: e)
  from exit_command_is_obeyed [OF w(1,2) e(1) [of CM_Exit] e(2) [of CM_Exit] e(3) this e(4) [of CM_Exit]]
  obtain w1 w2 w3 w4 where
    p: "polls 3 (receives CM_Exit) ?w w1" "polls 3 (receives CM_Exit) w1 w2"
      "polls 3 (receives CM_Goodbye) w2 w3" "polls (length (tasks ?w)) (receives CM_Exit) w3 w4"
    and "sent w2 = sent ?w @ [(1, SM_Ok)]" "sent w4 = sent w2" "exit_msgs w4 = exit_msgs ?w + 1"
    by blast
  then have "sent w4 = [(0, SM_Ok), (1, SM_Ok)]" "exit_msgs w4 = 1" by (simp_all add: w(3,4))
  moreover from p have "(daemon_step waits_work)\<^sup>*\<^sup>* ?w w4"
    by (meson polls_step rtranclp.rtrancl_refl rtranclp.rtrancl_into_rtrancl)
  ultimately show ?thesis by blast
qed

section \<open>The close command\<close>

lemma receives_close:
  assumes "i < length (tasks w)" "tasks w ! i = ClientTask (AwaitingCommand cm tx)"
    and "children_get (children w) k = Some (Running ch)" "listening ch w"
  shows "polls i (receives (CM_Close \<lparr>cp_host = k\<rparr>)) w
    ((remove_child k (log_items (LogClose k) w))
      \<lparr>kill_sent := ch # kill_sent w, tasks := (tasks w)[i := ClientTask (FinalizingTxn cm tx SM_Ok)]\<rparr>)"
proof -
  let ?v = "(remove_child k (log_items (LogClose k) w))\<lparr>kill_sent := ch # kill_sent w\<rparr>"
  have "poll_client (ses_env (receives (CM_Close \<lparr>cp_host = k\<rparr>))) (AwaitingCommand cm tx) w =
      Return (Goto (FinalizingTxn cm tx SM_Ok), ?v)"
    using assms(3)
    by (simp add: poll_awaiting_command_def process_close_command_def receives_def sample_task_env_def
        sample_env_def)
  moreover have "kill_send_ok w (ses_env (receives (CM_Close \<lparr>cp_host = k\<rparr>)))"
    using assms(3,4) by (simp add: kill_send_ok_def receives_def sample_task_env_def sample_env_def)
  ultimately show ?thesis using session_polls [OF assms(1,2)] by fastforce
qed

lemma listening_monitor:
  "MonitorTask (AwaitingChildEvent k c ch) \<in> set (tasks w) \<Longrightarrow> listening ch w"
  by (force simp: listening_def list_ex_iff)

text \<open>\<open>waitpid\<close> says that the process runs, or that it has ended.\<close>

lemma wait_running:
  "\<not> reaped c \<Longrightarrow> poll_exit c (waits (mon_env (wait_env 0 rx))) (sigs (mon_env (wait_env 0 rx))) =
     Return (NotReady, c)"
  by (simp add: poll_exit_def poll_exit_loop.simps wait_env_def sample_task_env_def)

lemma wait_ended:
  assumes "\<not> reaped c" "0 < sint (inner_id c)"
  shows "poll_exit c (waits (mon_env (wait_env (sint (inner_id c)) rx)))
      (sigs (mon_env (wait_env (sint (inner_id c)) rx))) = Return (Ready 9, c\<lparr>reaped := True\<rparr>)"
  using assms by (simp add: poll_exit_def poll_exit_loop.simps wait_env_def sample_task_env_def)

lemma kills_child:
  assumes "j < length (tasks w)" "tasks w ! j = MonitorTask (AwaitingChildEvent k c ch)" "\<not> reaped c"
    and "ch \<in> set (kill_sent w)"
  shows "polls j (wait_env 0 (Ready ())) w
    ((send_signals [inner_id c] (log_items (LogKillOrdered k) w))
      \<lparr>tasks := (tasks w)[j := MonitorTask (AwaitingChildReaped k c)]\<rparr>)"
  using monitor_polls [OF assms(1,2), of "wait_env 0 (Ready ())" "AwaitingChildReaped k c"
      "send_signals [inner_id c] (log_items (LogKillOrdered k) w)"] wait_running [OF assms(3)] assms(3,4)
  by (simp add: handler_defs kill_rx_ok_def wait_answer_ok_def) (simp add: wait_env_def wait_answer_ok_def)

lemma reaps_child:
  assumes "j < length (tasks w)" "tasks w ! j = MonitorTask (AwaitingChildReaped k c)" "\<not> reaped c"
    and "0 < sint (inner_id c)"
  shows "polls j (wait_env (sint (inner_id c)) NotReady) w
    ((insert_child k (Exited None) (log_items (LogChildReaped k) w))
      \<lparr>tasks := (tasks w)[j := MonitorTask (NotifyingChildDied None)]\<rparr>)"
  using monitor_polls [OF assms(1,2), of "wait_env (sint (inner_id c)) NotReady" "NotifyingChildDied None"
      "insert_child k (Exited None) (log_items (LogChildReaped k) w)"] wait_ended [OF assms(3,4)]
  by (simp add: handler_defs wait_answer_ok_def) (simp add: wait_env_def wait_answer_ok_def)

text \<open>C4. A close command can always be obeyed, as long as waiting for SSH processes has not failed: in
  every process reachable in this way in which a session waits for a command and the entry of a
  host is running, there are four polls in which the session receives the close command and
  answers \<open>Ok\<close>, the monitor of this host sends its SSH process, and no other, a \<open>SIGKILL\<close>, and
  records the tunnel as closed when the process has been reaped; every other entry is as before
  and the session waits for its next command. Process numbers are taken to be positive.\<close>

theorem close_command_is_obeyed:
  assumes "reach daemon_initial (daemon_step waits_work) w"
    and "i < length (tasks w)" "tasks w ! i = ClientTask (AwaitingCommand cm tx)"
    and "children_get (children w) k = Some (Running ch)"
    and "\<And>c. MonitorTask (AwaitingChildEvent k c ch) \<in> set (tasks w) \<Longrightarrow> 0 < sint (inner_id c)"
  shows "\<exists>j c e1 e2 e3 e4 w1 w2 w3 w4.
    j < length (tasks w) \<and> tasks w ! j = MonitorTask (AwaitingChildEvent k c ch) \<and>
    rx_answers (ses_env e1) = [Ready (Some (CM_Close \<lparr>cp_host = k\<rparr>))] \<and>
    polls i e1 w w1 \<and> polls i e2 w1 w2 \<and> polls j e3 w2 w3 \<and> polls j e4 w3 w4 \<and>
    sent w2 = sent w @ [(tx, SM_Ok)] \<and> sent w4 = sent w2 \<and>
    sigkills w2 = sigkills w \<and> sigkills w3 = sigkills w @ [inner_id c] \<and> sigkills w4 = sigkills w3 \<and>
    children_get (children w4) = (children_get (children w))(k \<mapsto> Exited None) \<and>
    tasks w4 ! i = ClientTask (AwaitingCommand cm tx)"
proof -
  from calm.inv_reach [OF assms(1)] assms(4) obtain c where inv: "daemon_inv w"
    and m: "MonitorTask (AwaitingChildEvent k c ch) \<in> set (tasks w)"
    by (auto simp: watched_def)
  then obtain j where j: "j < length (tasks w)" "tasks w ! j = MonitorTask (AwaitingChildEvent k c ch)"
    by (auto simp: in_set_conv_nth)
  from inv m have table: "table_ok (children w)" and live: "\<not> reaped c"
    by (auto simp: daemon_inv_def table_inv_def tasks_inv_def list_all_iff)
  from assms(3) j(2) have ij: "i \<noteq> j" by auto
  let ?w1 = "(remove_child k (log_items (LogClose k) w))
    \<lparr>kill_sent := ch # kill_sent w, tasks := (tasks w)[i := ClientTask (FinalizingTxn cm tx SM_Ok)]\<rparr>"
  let ?w2 = "(take_message tx SM_Ok ?w1)\<lparr>tasks := (tasks ?w1)[i := ClientTask (AwaitingCommand cm tx)]\<rparr>"
  let ?w3 = "(send_signals [inner_id c] (log_items (LogKillOrdered k) ?w2))
    \<lparr>tasks := (tasks ?w2)[j := MonitorTask (AwaitingChildReaped k c)]\<rparr>"
  let ?w4 = "(insert_child k (Exited None) (log_items (LogChildReaped k) ?w3))
    \<lparr>tasks := (tasks ?w3)[j := MonitorTask (NotifyingChildDied None)]\<rparr>"
  let ?e1 = "receives (CM_Close \<lparr>cp_host = k\<rparr>)"
  have "rx_answers (ses_env ?e1) = [Ready (Some (CM_Close \<lparr>cp_host = k\<rparr>))]" by (simp add: receives_def sample_task_env_def)
  moreover have "polls i ?e1 w ?w1"
    using assms(2-4) listening_monitor [OF m] by (rule receives_close)
  moreover have "polls i sample_task_env ?w1 ?w2"
    using assms(2) by (intro sends_reply) (simp_all add: sample_task_env_def sample_env_def)
  moreover have "polls j (wait_env 0 (Ready ())) ?w2 ?w3"
    using j live ij by (intro kills_child [where ch = ch]) simp_all
  moreover have "polls j (wait_env (sint (inner_id c)) NotReady) ?w3 ?w4"
    using j(1) assms(5) [OF m] live by (intro reaps_child) simp_all
  moreover have "children_get (children ?w4) = (children_get (children w))(k \<mapsto> Exited None)"
    by (simp add: table.get_ins [OF table.ok_del [OF table]] table.get_del [OF table])
  moreover have "sent ?w2 = sent w @ [(tx, SM_Ok)]" "sent ?w4 = sent ?w2" "sigkills ?w2 = sigkills w"
    "sigkills ?w3 = sigkills w @ [inner_id c]" "sigkills ?w4 = sigkills ?w3"
    "tasks ?w4 ! i = ClientTask (AwaitingCommand cm tx)"
    using assms(2) ij by simp_all
  ultimately show ?thesis using j by blast
qed

theorem close_command_is_obeyed_witness:
  "\<exists>w'. (daemon_step waits_work)\<^sup>*\<^sup>* (process_client opened_world) w' \<and> sigkills w' = [42] \<and>
     sent w' = [(0, SM_Ok), (1, SM_Ok)] \<and> children_get (children w') ''h'' = Some (Exited None)"
proof -
  let ?w = "process_client opened_world"
  have run: "reach daemon_initial (daemon_step waits_work) ?w"
    by (rule run_accept [OF run_opened, of 0]) (simp_all add: sample_worlds)
  have w: "3 < length (tasks ?w)" "tasks ?w ! 3 = ClientTask (AwaitingCommand quiet_common 1)"
    "children_get (children ?w) ''h'' = Some (Running 0)" "sent ?w = [(0, SM_Ok)]" "sigkills ?w = []"
    by (simp_all add: process_client_def spawn_def sample_worlds children_get_def)
  have only: "c = child_new 42" if "MonitorTask (AwaitingChildEvent ''h'' c 0) \<in> set (tasks ?w)" for c
    using that by (auto simp: process_client_def spawn_def sample_worlds)
  then have "0 < sint (inner_id c)" if "MonitorTask (AwaitingChildEvent ''h'' c 0) \<in> set (tasks ?w)" for c
    using that by (fastforce simp: child_new_def)
  from close_command_is_obeyed [OF run w(1-3) this] obtain j c e1 e2 e3 e4 w1 w2 w3 w4 where
    j: "j < length (tasks ?w)" "tasks ?w ! j = MonitorTask (AwaitingChildEvent ''h'' c 0)"
    and p: "polls 3 e1 ?w w1" "polls 3 e2 w1 w2" "polls j e3 w2 w3" "polls j e4 w3 w4"
    and r: "sent w2 = sent ?w @ [(1, SM_Ok)]" "sent w4 = sent w2"
      "sigkills w3 = sigkills ?w @ [inner_id c]" "sigkills w4 = sigkills w3"
      "children_get (children w4) = (children_get (children ?w))(''h'' \<mapsto> Exited None)"
    by blast
  from j(2) nth_mem [OF j(1)] have "MonitorTask (AwaitingChildEvent ''h'' c 0) \<in> set (tasks ?w)" by simp
  then have "c = child_new 42" by (rule only)
  then have "inner_id c = 42" by (simp add: child_new_def)
  with r w(4,5) have "sigkills w4 = [42]" "sent w4 = [(0, SM_Ok), (1, SM_Ok)]"
    "children_get (children w4) ''h'' = Some (Exited None)"
    by simp_all
  moreover from p have "(daemon_step waits_work)\<^sup>*\<^sup>* ?w w4"
    by (meson polls_step rtranclp.rtrancl_refl rtranclp.rtrancl_into_rtrancl)
  ultimately show ?thesis by blast
qed

end
