(* ===== verification/Shutdown.thy ===== *)
theory Shutdown
  imports DaemonLive
begin

text \<open>
  The end of the daemon: \<open>serve\<close> returns when the main task has got a message from the exit channel;
  the reactor is dropped with it, and so are the tasks, with the processes the monitors hold.
\<close>

section \<open>Dropping the tasks\<close>

fun drop_task :: "monitor_env \<Rightarrow> task \<Rightarrow> world \<Rightarrow> world" where
  "drop_task env (MonitorTask m) w = drop_monitor env m w"
| "drop_task env t w = w"

definition serve_end :: "monitor_env \<Rightarrow> world \<Rightarrow> world" where
  "serve_end env w = fold (drop_task env) (tasks w) (w\<lparr>tasks := []\<rparr>)"

fun dropped_signals :: "monitor_env \<Rightarrow> task \<Rightarrow> pid list" where
  "dropped_signals env (MonitorTask m) =
     (case child_of m of None \<Rightarrow> [] | Some c \<Rightarrow> child_drop c (os_kill env))"
| "dropped_signals env t = []"

lemma dropped_signals_held:
  "p \<in> set (dropped_signals env t) \<Longrightarrow>
   \<exists>m c. t = MonitorTask m \<and> child_of m = Some c \<and> \<not> reaped c \<and> p = inner_id c"
  by (cases "(env, t)" rule: dropped_signals.cases)
    (auto simp: child_drop_def child_kill_def split: option.split_asm if_split_asm, metis)

lemma drop_task_signals: "sigkills (drop_task env t w) = sigkills w @ dropped_signals env t"
  by (cases t) (auto simp: drop_monitor_def split: option.split)

lemma fold_drop_signals:
  "sigkills (fold (drop_task env) ts w) = sigkills w @ concat (map (dropped_signals env) ts)"
  by (induction ts arbitrary: w) (simp_all add: drop_task_signals)

lemma serve_end_signals:
  "sigkills (serve_end env w) = sigkills w @ concat (map (dropped_signals env) (tasks w))"
  by (simp add: serve_end_def fold_drop_signals)

section \<open>What a step does to a task\<close>

lemma poll_task_grows:
  assumes "poll_task env t w = Return (t', w')"
  shows "\<exists>ts. tasks w' = tasks w @ ts"
proof (cases t)
  case AcceptTask
  with assms poll_accept_adds show ?thesis by (fastforce simp: sessions_added_def)
next
  case (MonitorTask m)
  from assms [unfolded MonitorTask] show ?thesis
    by (cases rule: poll_monitor_task)
      (auto dest: move_keeps(1) simp: drop_monitor_def split: option.split)
next
  case (ClientTask cl)
  from assms [unfolded ClientTask] obtain res v where p: "poll_client (ses_env env) cl w = Return (res, v)"
    and v: "w' = v \<or> (\<exists>cm tx. res = Goto (Finished cm tx) \<and> w' = session_finished cm v) \<or>
      (\<exists>e. w' = session_failed e v)"
    by (rule poll_client_task_effect)
  from session_effect_tasks [OF poll_client_effect [OF p]] v show ?thesis
    by (auto simp: session_finished_def session_failed_def Let_def)
next
  case SshLogTask
  with assms poll_ssh_log_core show ?thesis by (fastforce simp: same_core_def)
next
  case ExitTask
  with assms show ?thesis by (auto split: poll.split_asm)
qed (use assms in auto)

lemma step_task:
  assumes "daemon_step allowed w w'" "i < length (tasks w)"
  shows "i < length (tasks w') \<and> prefix (sigkills w) (sigkills w') \<and>
    (tasks w' ! i = tasks w ! i \<or>
     (\<exists>env t v. poll_task env (tasks w ! i) w = Return (t, v) \<and> tasks w' ! i = t \<and> sigkills w' = sigkills v))"
  using assms(1)
proof (cases rule: daemon_step.cases)
  case (poll j env t v)
  from poll_task_grows [OF poll(5)] obtain ts where ts: "tasks v = tasks w @ ts" by blast
  have "prefix (sigkills w) (sigkills v)" using poll_task_signals [OF poll(5)] by auto
  with ts poll(1,5) assms(2) show ?thesis by (cases "i = j") (auto simp: nth_append)
qed (use assms(2) in \<open>simp add: on_signal_def\<close>)

text \<open>A poll of a monitor that awaits an event: it goes on waiting, sees the death, or kills.\<close>

lemma watching_poll:
  assumes "poll_task env (MonitorTask (AwaitingChildEvent key c ch)) w = Return (t, v)" "kill_on_drop c"
  shows "t = MonitorTask (AwaitingChildEvent key c ch) \<or>
    (\<exists>st. t = MonitorTask (NotifyingChildDied (Some st))) \<or> sigkills v = sigkills w @ [inner_id c]"
  using assms(1)
  by (cases rule: poll_monitor_task)
    (use assms(2) in \<open>auto simp: drop_monitor_def child_drop_def elim!: move_event\<close>)

section \<open>No process is left\<close>

text \<open>A run in which the monitor at \<open>i\<close> has seen its process end by itself.\<close>

definition saw_death :: "(task_env \<Rightarrow> task \<Rightarrow> bool) \<Rightarrow> nat \<Rightarrow> task \<Rightarrow> world \<Rightarrow> world \<Rightarrow> bool" where
  "saw_death allowed i t w w' \<longleftrightarrow>
     (\<exists>v v' st. (daemon_step allowed)\<^sup>*\<^sup>* w v \<and> daemon_step allowed v v' \<and> (daemon_step allowed)\<^sup>*\<^sup>* v' w' \<and>
       tasks v ! i = t \<and> tasks v' ! i = MonitorTask (NotifyingChildDied (Some st)))"

lemma saw_death_step: "saw_death allowed i t w v \<Longrightarrow> daemon_step allowed v v' \<Longrightarrow> saw_death allowed i t w v'"
  unfolding saw_death_def by (elim exE conjE) (intro exI conjI, auto)

lemma process_accounted:
  assumes "(daemon_step allowed)\<^sup>*\<^sup>* w w'" "reach daemon_initial (daemon_step allowed) w"
    and "i < length (tasks w)" "tasks w ! i = MonitorTask (AwaitingChildEvent key c ch)"
  shows "reach daemon_initial (daemon_step allowed) w' \<and> i < length (tasks w') \<and>
    prefix (sigkills w) (sigkills w') \<and>
    (tasks w' ! i = tasks w ! i \<or> inner_id c \<in> set (drop (length (sigkills w)) (sigkills w')) \<or>
     saw_death allowed i (tasks w ! i) w w')"
  using assms(1)
proof (induction rule: rtranclp_induct)
  case (step v v')
  from step.IH have reach: "reach daemon_initial (daemon_step allowed) v" and i: "i < length (tasks v)"
    and old: "prefix (sigkills w) (sigkills v)" by simp_all
  note s = step_task [OF step.hyps(2) i]
  from s old obtain ps qs where sig: "sigkills v = sigkills w @ ps" "sigkills v' = sigkills v @ qs"
    by (auto elim!: prefixE)
  consider (watching) "tasks v ! i = tasks w ! i"
    | (killed) "inner_id c \<in> set ps" | (died) "saw_death allowed i (tasks w ! i) w v"
    using step.IH sig by auto
  then have "tasks v' ! i = tasks w ! i \<or> inner_id c \<in> set (ps @ qs) \<or> saw_death allowed i (tasks w ! i) w v'"
  proof cases
    case watching
    from process.inv_reach [OF reach] i have "task_ok v (tasks v ! i)"
      by (simp add: daemon_inv_def tasks_inv_def list_all_length)
    with watching assms(4) have kill: "kill_on_drop c" by simp
    have death: "saw_death allowed i (tasks w ! i) w v'"
      if "tasks v' ! i = MonitorTask (NotifyingChildDied (Some st))" for st
      using step.hyps watching that unfolding saw_death_def by blast
    from s watching assms(4) consider (same) "tasks v' ! i = tasks w ! i"
      | (polled) env u where "sigkills v' = sigkills u"
        "poll_task env (MonitorTask (AwaitingChildEvent key c ch)) v = Return (tasks v' ! i, u)"
      by auto
    then show ?thesis
    proof cases
      case (polled env u)
      from watching_poll [OF polled(2) kill] polled(1) sig assms(4) death show ?thesis by auto
    qed simp
  next
    case died
    with saw_death_step step.hyps(2) show ?thesis by blast
  qed simp
  with s reach_step [OF reach step.hyps(2)] sig show ?case by auto
qed (use assms in simp)

text \<open>C14. No SSH process outlives the daemon: whatever happens between the launch of a process and the
  end of the daemon, this process has been sent a \<open>SIGKILL\<close> when \<open>serve\<close> has returned, by a close
  command, by a failing monitor, or by the dropping of the tasks, unless its monitor has seen
  it end by itself; and the dropping signals only processes that monitors hold unreaped.\<close>

theorem no_process_outlives_daemon:
  assumes "reach daemon_initial (daemon_step allowed) w" "(daemon_step allowed)\<^sup>*\<^sup>* w w'"
    and "i < length (tasks w)" "tasks w ! i = MonitorTask (AwaitingChildEvent key c ch)"
  shows "(inner_id c \<in> set (drop (length (sigkills w)) (sigkills (serve_end env w'))) \<or>
      saw_death allowed i (tasks w ! i) w w') \<and>
    (\<forall>p \<in> set (drop (length (sigkills w')) (sigkills (serve_end env w'))).
      \<exists>m c'. MonitorTask m \<in> set (tasks w') \<and> child_of m = Some c' \<and> \<not> reaped c' \<and> p = inner_id c')"
proof -
  note a = process_accounted [OF assms(2,1,3,4)]
  then obtain ps where ps: "sigkills w' = sigkills w @ ps" by (auto elim: prefixE)
  have "inner_id c \<in> set (concat (map (dropped_signals env) (tasks w')))" if "tasks w' ! i = tasks w ! i"
  proof -
    from process.inv_reach [of allowed w'] a have "task_ok w' (tasks w' ! i)"
      by (simp add: daemon_inv_def tasks_inv_def list_all_length)
    with that assms(4) have "dropped_signals env (tasks w' ! i) = [inner_id c]"
      by (simp add: child_drop_def)
    moreover from a have "tasks w' ! i \<in> set (tasks w')" by simp
    ultimately show ?thesis by force
  qed
  moreover have "\<exists>m c'. MonitorTask m \<in> set (tasks w') \<and> child_of m = Some c' \<and> \<not> reaped c' \<and> p = inner_id c'"
    if "t \<in> set (tasks w')" "p \<in> set (dropped_signals env t)" for t p
    using that dropped_signals_held by metis
  ultimately show ?thesis using a ps by (auto simp: serve_end_signals)
qed

text \<open>A signal ends the daemon while a tunnel is open.\<close>

theorem no_process_outlives_daemon_witness:
  "42 \<in> set (sigkills (serve_end (mon_env sample_task_env) (on_signal 15 opened_world)))"
proof -
  have watched: "2 < length (tasks opened_world)"
    "tasks opened_world ! 2 = MonitorTask (AwaitingChildEvent ''h'' (child_new 42) 0)"
    by (simp_all add: sample_worlds)
  have "daemon_step waits_work opened_world (on_signal 15 opened_world)"
    by (rule daemon_step.signal) (simp add: fatal_signals_def)
  from no_process_outlives_daemon [OF run_opened r_into_rtranclp [of "daemon_step waits_work", OF this] watched]
  show ?thesis
    by (simp add: sample_worlds serve_end_signals on_signal_def child_drop_def child_new_def log_items_def)
qed

end
