(* ===== verification/Split.thy ===== *)
theory Split
  imports Pty
begin

text \<open>
  Reading and writing a pseudo-terminal (\<open>AsyncPtyFile\<close> and \<open>AsyncPtyMaster\<close> in
  \<open>tokio-pty-process/src/lib.rs\<close>), and its two halves (\<open>split.rs\<close>). The file, the reactor's
  \<open>PollEvented2\<close> around it and \<open>BiLock\<close> answer through arguments: the result of an operation of
  the former two, and of \<open>poll_lock\<close> whether the other half holds the lock.
\<close>

section \<open>The whole master\<close>

text \<open>The file of a master is known by its descriptor.\<close>

datatype async_pty_file = AsyncPtyFile int

fun file_raw_fd :: "async_pty_file \<Rightarrow> int" where
  "file_raw_fd (AsyncPtyFile fd) = fd"

text \<open>A master, with the bytes read from it and written to it so far.\<close>

record pty_master =
  pm_file :: async_pty_file
  pm_read :: "byte list"
  pm_written :: "byte list"
  pm_shut :: bool

text \<open>
  What the file with a descriptor answers to each operation, and what \<open>PollEvented2\<close> makes of it (it
  may answer itself that the file is not ready). A buffer operation goes through the default
  methods of \<open>AsyncRead\<close> and \<open>AsyncWrite\<close>.
\<close>

record io_answers =
  file_read :: "int \<Rightarrow> io_error + byte list"
  file_write :: "int \<Rightarrow> io_error + nat"
  file_flush :: "int \<Rightarrow> io_error + unit"
  evented_read :: "io_error + byte list \<Rightarrow> io_error + byte list"
  evented_write :: "io_error + nat \<Rightarrow> io_error + nat"
  evented_flush :: "io_error + unit \<Rightarrow> io_error + unit"
  io_shutdown :: "(unit, io_error) poll"
  io_read_buf :: "(byte list, io_error) poll"
  io_write_buf :: "(nat, io_error) poll"

text \<open>\<open>Evented\<close> for \<open>AsyncPtyFile\<close>: every registration also asks for the hang-up event.\<close>

definition evented_register ::
  "(int \<Rightarrow> nat \<Rightarrow> 64 word \<Rightarrow> 64 word \<Rightarrow> io_error + unit) \<Rightarrow> 64 word \<Rightarrow> async_pty_file \<Rightarrow> nat \<Rightarrow>
   64 word \<Rightarrow> 64 word \<Rightarrow> io_error + unit" where
  "evented_register register_fd hup file token interest opts =
     register_fd (file_raw_fd file) token (interest OR hup) opts"

definition evented_deregister :: "(int \<Rightarrow> io_error + unit) \<Rightarrow> async_pty_file \<Rightarrow> io_error + unit" where
  "evented_deregister deregister_fd file = deregister_fd (file_raw_fd file)"

definition pty_file_read :: "io_answers \<Rightarrow> async_pty_file \<Rightarrow> io_error + byte list" where
  "pty_file_read a file = file_read a (file_raw_fd file)"

definition pty_file_write :: "io_answers \<Rightarrow> async_pty_file \<Rightarrow> io_error + nat" where
  "pty_file_write a file = file_write a (file_raw_fd file)"

definition pty_file_flush :: "io_answers \<Rightarrow> async_pty_file \<Rightarrow> io_error + unit" where
  "pty_file_flush a file = file_flush a (file_raw_fd file)"

definition master_read :: "io_answers \<Rightarrow> pty_master \<Rightarrow> (io_error + byte list) \<times> pty_master" where
  "master_read a m =
     (case evented_read a (pty_file_read a (pm_file m)) of
        Inl e \<Rightarrow> (Inl e, m)
      | Inr bs \<Rightarrow> (Inr bs, m\<lparr>pm_read := pm_read m @ bs\<rparr>))"

definition master_write :: "io_answers \<Rightarrow> byte list \<Rightarrow> pty_master \<Rightarrow> (io_error + nat) \<times> pty_master" where
  "master_write a bytes m =
     (case evented_write a (pty_file_write a (pm_file m)) of
        Inl e \<Rightarrow> (Inl e, m)
      | Inr n \<Rightarrow> (Inr n, m\<lparr>pm_written := pm_written m @ take n bytes\<rparr>))"

definition master_flush :: "io_answers \<Rightarrow> pty_master \<Rightarrow> (io_error + unit) \<times> pty_master" where
  "master_flush a m = (evented_flush a (pty_file_flush a (pm_file m)), m)"

definition master_shutdown :: "io_answers \<Rightarrow> pty_master \<Rightarrow> (unit, io_error) poll \<times> pty_master" where
  "master_shutdown a m =
     (io_shutdown a, if io_shutdown a = Ready () then m\<lparr>pm_shut := True\<rparr> else m)"

definition master_read_buf :: "io_answers \<Rightarrow> pty_master \<Rightarrow> (byte list, io_error) poll \<times> pty_master" where
  "master_read_buf a m =
     (case io_read_buf a of
        Ready bs \<Rightarrow> (Ready bs, m\<lparr>pm_read := pm_read m @ bs\<rparr>)
      | r \<Rightarrow> (r, m))"

definition master_write_buf ::
  "io_answers \<Rightarrow> byte list \<Rightarrow> pty_master \<Rightarrow> (nat, io_error) poll \<times> pty_master" where
  "master_write_buf a bytes m =
     (case io_write_buf a of
        Ready n \<Rightarrow> (Ready n, m\<lparr>pm_written := pm_written m @ take n bytes\<rparr>)
      | r \<Rightarrow> (r, m))"

definition master_raw_fd :: "pty_master \<Rightarrow> int" where
  "master_raw_fd m = file_raw_fd (pm_file m)"

definition master_as_fd :: "pty_master \<Rightarrow> (int, io_error) poll" where
  "master_as_fd m = Ready (master_raw_fd m)"

text \<open>The future \<open>AsyncPtyFd\<close> over anything that has a descriptor.\<close>

datatype 't async_pty_fd = AsyncPtyFd 't

definition async_pty_fd_from :: "'t \<Rightarrow> 't async_pty_fd" where
  "async_pty_fd_from inner = AsyncPtyFd inner"

fun async_pty_fd_poll :: "('t \<Rightarrow> (int, io_error) poll) \<Rightarrow> 't async_pty_fd \<Rightarrow> (int, io_error) poll" where
  "async_pty_fd_poll as_async_pty_fd (AsyncPtyFd inner) = as_async_pty_fd inner"

section \<open>The halves\<close>

text \<open>
  \<open>BiLock\<close> is a crate's: its two handles share one cell of some memory \<open>'s\<close>. \<open>bl_new\<close> makes them, and a
  guard reads (\<open>bl_get\<close>) and writes (\<open>bl_put\<close>) the cell.
\<close>

record ('h, 's) bilock =
  bl_new :: "pty_master \<Rightarrow> 's \<Rightarrow> ('h \<times> 'h) \<times> 's"
  bl_get :: "'h \<Rightarrow> 's \<Rightarrow> pty_master"
  bl_put :: "'h \<Rightarrow> pty_master \<Rightarrow> 's \<Rightarrow> 's"

record 'h read_half = rh_handle :: 'h

record 'h write_half = wh_handle :: 'h

definition split_master ::
  "('h, 's) bilock \<Rightarrow> pty_master \<Rightarrow> 's \<Rightarrow> ('h read_half \<times> 'h write_half) \<times> 's" where
  "split_master bl master st =
     (case bl_new bl master st of
        ((a, b), st') \<Rightarrow> ((\<lparr>rh_handle = a\<rparr>, \<lparr>wh_handle = b\<rparr>), st'))"

definition async_pty_master_split ::
  "('h, 's) bilock \<Rightarrow> pty_master \<Rightarrow> 's \<Rightarrow> ('h read_half \<times> 'h write_half) \<times> 's" where
  "async_pty_master_split bl self st = split_master bl self st"

text \<open>
  \<open>Busy\<close> is the answer \<open>NotReady\<close> of \<open>poll_lock\<close>, when the other half is in an operation; the guard is
  dropped at the end of each operation. \<open>wrap_as_io\<close> makes a \<open>Poll\<close> of the answer, for \<open>try_ready!\<close>.
\<close>

datatype async_lock = Locked | Busy

definition wrap_as_io :: "async_lock \<Rightarrow> (unit, io_error) poll" where
  "wrap_as_io t = (case t of Locked \<Rightarrow> Ready () | Busy \<Rightarrow> NotReady)"

fun try_ready :: "(unit, io_error) poll \<Rightarrow> ('a, io_error) poll \<times> 'm \<Rightarrow> 'm \<Rightarrow> ('a, io_error) poll \<times> 'm" where
  "try_ready (Ready _) k m = k"
| "try_ready NotReady k m = (NotReady, m)"
| "try_ready (PollErr e) k m = (PollErr e, m)"

definition would_block :: io_error where
  "would_block = IoError WouldBlock ''would block''"

definition half_as_fd :: "async_lock \<Rightarrow> pty_master \<Rightarrow> (int, io_error) poll" where
  "half_as_fd l m = fst (try_ready (wrap_as_io l) (Ready (master_raw_fd m), m) m)"

definition half_read :: "async_lock \<Rightarrow> io_answers \<Rightarrow> pty_master \<Rightarrow> (io_error + byte list) \<times> pty_master" where
  "half_read l a m = (case l of Locked \<Rightarrow> master_read a m | Busy \<Rightarrow> (Inl would_block, m))"

definition half_read_buf ::
  "async_lock \<Rightarrow> io_answers \<Rightarrow> pty_master \<Rightarrow> (byte list, io_error) poll \<times> pty_master" where
  "half_read_buf l a m = try_ready (wrap_as_io l) (master_read_buf a m) m"

definition half_write ::
  "async_lock \<Rightarrow> io_answers \<Rightarrow> byte list \<Rightarrow> pty_master \<Rightarrow> (io_error + nat) \<times> pty_master" where
  "half_write l a bytes m = (case l of Locked \<Rightarrow> master_write a bytes m | Busy \<Rightarrow> (Inl would_block, m))"

definition half_flush :: "async_lock \<Rightarrow> io_answers \<Rightarrow> pty_master \<Rightarrow> (io_error + unit) \<times> pty_master" where
  "half_flush l a m = (case l of Locked \<Rightarrow> master_flush a m | Busy \<Rightarrow> (Inl would_block, m))"

definition half_shutdown :: "async_lock \<Rightarrow> io_answers \<Rightarrow> pty_master \<Rightarrow> (unit, io_error) poll \<times> pty_master" where
  "half_shutdown l a m = try_ready (wrap_as_io l) (master_shutdown a m) m"

definition half_write_buf ::
  "async_lock \<Rightarrow> io_answers \<Rightarrow> byte list \<Rightarrow> pty_master \<Rightarrow> (nat, io_error) poll \<times> pty_master" where
  "half_write_buf l a bytes m = try_ready (wrap_as_io l) (master_write_buf a bytes m) m"

section \<open>Runs\<close>

text \<open>An operation of a half or of the whole master, and its result.\<close>

datatype io_op = Read | ReadBuf | Write "byte list" | WriteBuf "byte list" | FlushIt | Shutdown | AsFd

datatype io_result =
    Got "io_error + byte list"
  | GotBuf "(byte list, io_error) poll"
  | Wrote "io_error + nat"
  | WroteBuf "(nat, io_error) poll"
  | Flushed "io_error + unit"
  | ShutDown "(unit, io_error) poll"
  | Fd "(int, io_error) poll"

fun master_op :: "io_op \<Rightarrow> io_answers \<Rightarrow> pty_master \<Rightarrow> io_result \<times> pty_master" where
  "master_op Read a m = map_prod Got id (master_read a m)"
| "master_op ReadBuf a m = map_prod GotBuf id (master_read_buf a m)"
| "master_op (Write bs) a m = map_prod Wrote id (master_write a bs m)"
| "master_op (WriteBuf bs) a m = map_prod WroteBuf id (master_write_buf a bs m)"
| "master_op FlushIt a m = map_prod Flushed id (master_flush a m)"
| "master_op Shutdown a m = map_prod ShutDown id (master_shutdown a m)"
| "master_op AsFd a m = (Fd (master_as_fd m), m)"

fun half_op :: "async_lock \<Rightarrow> io_op \<Rightarrow> io_answers \<Rightarrow> pty_master \<Rightarrow> io_result \<times> pty_master" where
  "half_op l Read a m = map_prod Got id (half_read l a m)"
| "half_op l ReadBuf a m = map_prod GotBuf id (half_read_buf l a m)"
| "half_op l (Write bs) a m = map_prod Wrote id (half_write l a bs m)"
| "half_op l (WriteBuf bs) a m = map_prod WroteBuf id (half_write_buf l a bs m)"
| "half_op l FlushIt a m = map_prod Flushed id (half_flush l a m)"
| "half_op l Shutdown a m = map_prod ShutDown id (half_shutdown l a m)"
| "half_op l AsFd a m = (Fd (half_as_fd l m), m)"

lemmas half_defs = half_as_fd_def half_read_def half_read_buf_def half_write_def half_flush_def
  half_shutdown_def half_write_buf_def wrap_as_io_def

lemmas master_defs = master_as_fd_def master_read_def master_read_buf_def master_write_def
  master_flush_def master_shutdown_def master_write_buf_def master_raw_fd_def
  pty_file_read_def pty_file_write_def pty_file_flush_def

text \<open>A result that tells the caller to try again later.\<close>

fun try_again :: "io_result \<Rightarrow> bool" where
  "try_again (Got r) = (r = Inl would_block)"
| "try_again (GotBuf r) = (r = NotReady)"
| "try_again (Wrote r) = (r = Inl would_block)"
| "try_again (WroteBuf r) = (r = NotReady)"
| "try_again (Flushed r) = (r = Inl would_block)"
| "try_again (ShutDown r) = (r = NotReady)"
| "try_again (Fd r) = (r = NotReady)"

lemma half_op_locked [simp]: "half_op Locked op a m = master_op op a m"
  by (cases op) (simp_all add: half_defs master_as_fd_def)

lemma half_op_busy: "snd (half_op Busy op a m) = m \<and> try_again (fst (half_op Busy op a m))"
  by (cases op) (simp_all add: half_defs)

text \<open>The bytes an operation moved, as its caller learns from the result.\<close>

fun moved_in :: "io_result \<Rightarrow> byte list" where
  "moved_in (Got (Inr bs)) = bs"
| "moved_in (GotBuf (Ready bs)) = bs"
| "moved_in _ = []"

fun moved_out :: "io_op \<Rightarrow> io_result \<Rightarrow> byte list" where
  "moved_out (Write bs) (Wrote (Inr n)) = take n bs"
| "moved_out (WriteBuf bs) (WroteBuf (Ready n)) = take n bs"
| "moved_out _ _ = []"

lemma master_op_moves:
  "master_op op a m = (r, m') \<Longrightarrow>
   pm_read m' = pm_read m @ moved_in r \<and> pm_written m' = pm_written m @ moved_out op r \<and>
   pm_file m' = pm_file m"
  by (cases op) (auto simp: master_defs split: sum.splits poll.splits)

text \<open>
  A run is a list of operations of the two halves, with the answers of lock and file. Each goes
  through the handle of its half.
\<close>

datatype half = ReadHalf | WriteHalf

type_synonym half_call = "half \<times> async_lock \<times> io_op \<times> io_answers"

fun half_handle :: "'h read_half \<times> 'h write_half \<Rightarrow> half \<Rightarrow> 'h" where
  "half_handle (r, w) ReadHalf = rh_handle r"
| "half_handle (r, w) WriteHalf = wh_handle w"

fun run_halves ::
  "('h, 's) bilock \<Rightarrow> 'h read_half \<times> 'h write_half \<Rightarrow> half_call list \<Rightarrow> 's \<Rightarrow>
   (io_op \<times> io_result) list \<times> 's" where
  "run_halves bl hs [] st = ([], st)"
| "run_halves bl hs ((h, l, op, a) # calls) st =
     (case half_op l op a (bl_get bl (half_handle hs h) st) of (r, m') \<Rightarrow>
       (case run_halves bl hs calls (bl_put bl (half_handle hs h) m' st) of (rs, st') \<Rightarrow>
         ((op, r) # rs, st')))"

fun run_master :: "(io_op \<times> io_answers) list \<Rightarrow> pty_master \<Rightarrow> (io_op \<times> io_result) list \<times> pty_master" where
  "run_master [] m = ([], m)"
| "run_master ((op, a) # calls) m =
     (case master_op op a m of (r, m') \<Rightarrow>
       (case run_master calls m' of (rs, m'') \<Rightarrow> ((op, r) # rs, m'')))"

definition uncontended :: "half_call list \<Rightarrow> (io_op \<times> io_answers) list" where
  "uncontended calls = map (snd \<circ> snd) (filter (\<lambda>(h, l, _). l = Locked) calls)"

text \<open>What is relied on: the two handles of a new lock give the master, and what is put through one
  of them is read through both.\<close>

definition shared_cell :: "('h, 's) bilock \<Rightarrow> 'h set \<Rightarrow> bool" where
  "shared_cell bl hs \<longleftrightarrow> (\<forall>h \<in> hs. \<forall>h' \<in> hs. \<forall>m st. bl_get bl h (bl_put bl h' m st) = m)"

definition bilock_ok :: "('h, 's) bilock \<Rightarrow> bool" where
  "bilock_ok bl \<longleftrightarrow>
     (\<forall>m st a b st'. bl_new bl m st = ((a, b), st') \<longrightarrow>
       bl_get bl a st' = m \<and> bl_get bl b st' = m \<and> shared_cell bl {a, b})"

definition holds :: "('h, 's) bilock \<Rightarrow> 'h read_half \<times> 'h write_half \<Rightarrow> pty_master \<Rightarrow> 's \<Rightarrow> bool" where
  "holds bl hs m st \<longleftrightarrow> shared_cell bl (range (half_handle hs)) \<and> (\<forall>h. bl_get bl (half_handle hs h) st = m)"

lemma range_half_handle: "range (half_handle (r, w)) = {rh_handle r, wh_handle w}"
proof -
  have "(UNIV :: half set) = {ReadHalf, WriteHalf}" by (auto intro: half.exhaust)
  show ?thesis unfolding \<open>UNIV = _\<close> by simp
qed

lemma split_holds:
  assumes "bilock_ok bl" "async_pty_master_split bl m st = (hs, st')"
  shows "holds bl hs m st'"
proof -
  obtain a b st1 where new: "bl_new bl m st = ((a, b), st1)" by (metis surj_pair)
  with assms(2) have hs: "hs = (\<lparr>rh_handle = a\<rparr>, \<lparr>wh_handle = b\<rparr>)" "st' = st1"
    by (simp_all add: async_pty_master_split_def split_master_def)
  with assms(1) new have "bl_get bl (half_handle hs h) st' = m" for h
    by (cases h) (auto simp: bilock_ok_def)
  with assms(1) new hs show ?thesis by (auto simp: holds_def range_half_handle bilock_ok_def)
qed

lemma holds_put: "holds bl hs m st \<Longrightarrow> holds bl hs m' (bl_put bl (half_handle hs h) m' st)"
  by (simp add: holds_def shared_cell_def)

text \<open>A run of the halves is a run on the master they share.\<close>

fun run_shared :: "half_call list \<Rightarrow> pty_master \<Rightarrow> (io_op \<times> io_result) list \<times> pty_master" where
  "run_shared [] m = ([], m)"
| "run_shared ((h, l, op, a) # calls) m =
     (case half_op l op a m of (r, m') \<Rightarrow>
       (case run_shared calls m' of (rs, m'') \<Rightarrow> ((op, r) # rs, m'')))"

lemma run_halves_shared:
  assumes "holds bl hs m st" "run_halves bl hs calls st = (rs, st')"
  shows "\<exists>m'. run_shared calls m = (rs, m') \<and> holds bl hs m' st'"
  using assms
proof (induction calls arbitrary: m st rs)
  case (Cons c calls)
  obtain h l op a where c: "c = (h, l, op, a)" by (cases c)
  from Cons.prems(1) have get: "bl_get bl (half_handle hs h) st = m" by (simp add: holds_def)
  obtain r m1 where op: "half_op l op a m = (r, m1)" by force
  obtain rs1 st1 where rest: "run_halves bl hs calls (bl_put bl (half_handle hs h) m1 st) = (rs1, st1)"
    by force
  from Cons.prems(2) c get op rest have "rs = (op, r) # rs1" "st1 = st'" by auto
  with Cons.IH [OF holds_put [OF Cons.prems(1)], of h m1 rs1] rest c op show ?case by auto
qed simp

lemma run_shared_split:
  assumes "run_shared calls m = (rs, m')"
  shows "length rs = length calls \<and>
    run_master (uncontended calls) m =
      (map snd (filter (\<lambda>((h, l, _), _). l = Locked) (zip calls rs)), m')"
  using assms
proof (induction calls arbitrary: m rs)
  case (Cons c calls)
  obtain h l op a where c: "c = (h, l, op, a)" by (cases c)
  obtain r m1 where op: "half_op l op a m = (r, m1)" by force
  obtain rs1 m2 where rest: "run_shared calls m1 = (rs1, m2)" by force
  from Cons.prems c op rest have rs: "rs = (op, r) # rs1" "m2 = m'" by auto
  from Cons.IH [of m1 rs1] rest rs have ih: "length rs1 = length calls"
    "run_master (uncontended calls) m1 =
      (map snd (filter (\<lambda>((h, l, _), _). l = Locked) (zip calls rs1)), m')"
    by simp_all
  show ?case
  proof (cases l)
    case Locked
    with op ih c rs show ?thesis by (simp add: uncontended_def)
  next
    case Busy
    with op half_op_busy [of op a m] have "m1 = m" by simp
    with Busy ih c rs show ?thesis by (simp add: uncontended_def)
  qed
qed (simp add: uncontended_def)

lemma half_op_moves:
  assumes "half_op l op a m = (r, m')"
  shows "pm_read m' = pm_read m @ moved_in r \<and> pm_written m' = pm_written m @ moved_out op r \<and>
    pm_file m' = pm_file m"
proof (cases l)
  case Locked
  with assms show ?thesis by (simp add: master_op_moves)
next
  case Busy
  with assms half_op_busy [of op a m] have "m' = m" "try_again r" by simp_all
  then show ?thesis by (cases "(op, r)" rule: moved_out.cases; cases r rule: moved_in.cases) auto
qed

lemma run_shared_moves:
  assumes "run_shared calls m = (rs, m')"
  shows "pm_read m' = pm_read m @ concat (map (\<lambda>(op, r). moved_in r) rs) \<and>
    pm_written m' = pm_written m @ concat (map (\<lambda>(op, r). moved_out op r) rs) \<and> pm_file m' = pm_file m"
  using assms
proof (induction calls arbitrary: m rs)
  case (Cons c calls)
  obtain h l op a where c: "c = (h, l, op, a)" by (cases c)
  obtain r m1 where op: "half_op l op a m = (r, m1)" by force
  obtain rs1 m2 where rest: "run_shared calls m1 = (rs1, m2)" by force
  from Cons.prems c op rest have "rs = (op, r) # rs1" "m2 = m'" by auto
  with Cons.IH [of m1 rs1] rest half_op_moves [OF op] show ?case by simp
qed simp

section \<open>Properties\<close>

text \<open>C34. The two halves of a split master together are the master: any run of operations of both,
  however the lock is contended, has the results of the same operations on the whole master
  without the contended ones, and leaves the master so, seen through either half; each of the
  contended ones changes nothing and asks to be tried again; and what the results say has been
  read and written is what went through the terminal, in order.\<close>

theorem split_halves_act_as_master:
  assumes "bilock_ok bl" "async_pty_master_split bl m st = ((rh, wh), st1)"
    and "run_halves bl (rh, wh) calls st1 = (rs, st2)"
  shows "\<exists>m'. bl_get bl (rh_handle rh) st2 = m' \<and> bl_get bl (wh_handle wh) st2 = m' \<and>
    run_master (uncontended calls) m =
      (map snd (filter (\<lambda>((h, l, _), _). l = Locked) (zip calls rs)), m') \<and>
    (\<forall>op a. snd (half_op Busy op a m) = m \<and> try_again (fst (half_op Busy op a m))) \<and>
    pm_read m' = pm_read m @ concat (map (\<lambda>(op, r). moved_in r) rs) \<and>
    pm_written m' = pm_written m @ concat (map (\<lambda>(op, r). moved_out op r) rs)"
proof -
  from run_halves_shared [OF split_holds [OF assms(1,2)] assms(3)] obtain m'
    where run: "run_shared calls m = (rs, m')" and holds: "holds bl (rh, wh) m' st2" by auto
  from holds have "bl_get bl (half_handle (rh, wh) h) st2 = m'" for h by (simp add: holds_def)
  from this [of ReadHalf] this [of WriteHalf] run_shared_split [OF run] run_shared_moves [OF run]
    half_op_busy
  show ?thesis by (intro exI [of _ m']) simp
qed

text \<open>A lock whose handles are the numbers of cells of a memory.\<close>

definition cell_lock :: "(nat, nat \<times> (nat \<Rightarrow> pty_master)) bilock" where
  "cell_lock =
     \<lparr>bl_new = (\<lambda>m (n, cells). ((n, n), (n + 1, cells(n := m)))),
      bl_get = (\<lambda>h (n, cells). cells h),
      bl_put = (\<lambda>h m (n, cells). (n, cells(h := m)))\<rparr>"

lemma cell_lock_ok: "bilock_ok cell_lock"
  by (auto simp: bilock_ok_def shared_cell_def cell_lock_def)

definition sample_io :: io_answers where
  "sample_io =
     \<lparr>file_read = (\<lambda>_. Inr [7]), file_write = (\<lambda>_. Inr 2), file_flush = (\<lambda>_. Inr ()),
      evented_read = id, evented_write = id, evented_flush = id, io_shutdown = Ready (),
      io_read_buf = Ready [8, 9], io_write_buf = Ready 1\<rparr>"

definition sample_master :: pty_master where
  "sample_master = \<lparr>pm_file = AsyncPtyFile 5, pm_read = [], pm_written = [], pm_shut = False\<rparr>"

theorem split_halves_act_as_master_witness:
  "run_master [(Write [1, 2, 3], sample_io), (Read, sample_io)] sample_master =
   ([(Write [1, 2, 3], Wrote (Inr 2)), (Read, Got (Inr [7]))],
    \<lparr>pm_file = AsyncPtyFile 5, pm_read = [7], pm_written = [1, 2], pm_shut = False\<rparr>)"
proof -
  let ?st = "(1 :: nat, (\<lambda>_. sample_master)(0 := sample_master))"
  let ?m = "\<lparr>pm_file = AsyncPtyFile 5, pm_read = [7], pm_written = [1, 2], pm_shut = False\<rparr>"
  have split: "async_pty_master_split cell_lock sample_master (0, \<lambda>_. sample_master) =
      ((\<lparr>rh_handle = 0\<rparr>, \<lparr>wh_handle = 0\<rparr>), ?st)"
    by (simp add: async_pty_master_split_def split_master_def cell_lock_def)
  have "run_halves cell_lock (\<lparr>rh_handle = 0\<rparr>, \<lparr>wh_handle = 0\<rparr>)
      [(WriteHalf, Locked, Write [1, 2, 3], sample_io), (WriteHalf, Busy, FlushIt, sample_io),
       (ReadHalf, Locked, Read, sample_io)] ?st =
    ([(Write [1, 2, 3], Wrote (Inr 2)), (FlushIt, Flushed (Inl would_block)), (Read, Got (Inr [7]))],
      (1, (\<lambda>_. sample_master)(0 := ?m)))"
    by (simp add: cell_lock_def half_defs master_defs sample_io_def sample_master_def)
  from split_halves_act_as_master [OF cell_lock_ok split this] show ?thesis
    by (simp add: uncontended_def cell_lock_def)
qed

end
