(* ===== verification/Echo.thy ===== *)
theory Echo
  imports StdioProps StdioSamples KeyScan
begin

text \<open>
  The example program of \<open>tokio-borrow-stdio\<close> (\<open>examples/echo.rs\<close>): it answers each chunk of input
  with a text that quotes it. The standard library's \<open>from_utf8\<close> and the formatting of a list of
  bytes are modelled; \<open>forward\<close> of the futures crate sends the items of a stream one after the
  other, keeps one that the sink gives back, and ends with the stream or at an error.
\<close>

section \<open>The reply\<close>

definition cont_byte :: "byte \<Rightarrow> bool" where
  "cont_byte b \<longleftrightarrow> 0x80 \<le> b \<and> b \<le> 0xBF"

text \<open>Well-formed UTF-8: no overlong form, no surrogate, nothing above U+10FFFF.\<close>

definition two_bytes :: "byte \<Rightarrow> byte \<Rightarrow> bool" where
  "two_bytes b c \<longleftrightarrow> 0xC2 \<le> b \<and> b \<le> 0xDF \<and> cont_byte c"

definition three_bytes :: "byte \<Rightarrow> byte \<Rightarrow> byte \<Rightarrow> bool" where
  "three_bytes b c d \<longleftrightarrow> 0xE0 \<le> b \<and> b \<le> 0xEF \<and> cont_byte c \<and> cont_byte d \<and>
     (b = 0xE0 \<longrightarrow> 0xA0 \<le> c) \<and> (b = 0xED \<longrightarrow> c \<le> 0x9F)"

definition four_bytes :: "byte \<Rightarrow> byte \<Rightarrow> byte \<Rightarrow> byte \<Rightarrow> bool" where
  "four_bytes b c d e \<longleftrightarrow> 0xF0 \<le> b \<and> b \<le> 0xF4 \<and> cont_byte c \<and> cont_byte d \<and> cont_byte e \<and>
     (b = 0xF0 \<longrightarrow> 0x90 \<le> c) \<and> (b = 0xF4 \<longrightarrow> c \<le> 0x8F)"

fun utf8_ok :: "byte list \<Rightarrow> bool" where
  "utf8_ok [] = True"
| "utf8_ok (b # bs) =
     (if b < 0x80 then utf8_ok bs
      else
        case bs of
          [] \<Rightarrow> False
        | c # bs1 \<Rightarrow>
            if two_bytes b c then utf8_ok bs1
            else
              case bs1 of
                [] \<Rightarrow> False
              | d # bs2 \<Rightarrow>
                  if three_bytes b c d then utf8_ok bs2
                  else
                    case bs2 of
                      [] \<Rightarrow> False
                    | e # bs3 \<Rightarrow> four_bytes b c d e \<and> utf8_ok bs3)"

lemma utf8_ok_append: "utf8_ok as \<Longrightarrow> utf8_ok bs \<Longrightarrow> utf8_ok (as @ bs)"
  by (induction as rule: utf8_ok.induct) (auto split: list.split_asm if_split_asm)

text \<open>\<open>{:?}\<close> of a byte and of a list of bytes.\<close>

definition digit :: "nat \<Rightarrow> char" where
  "digit n = char_of (48 + n)"

definition decimal :: "byte \<Rightarrow> string" where
  "decimal b =
     (let n = unat b in
      (if n < 100 then [] else [digit (n div 100)]) @
      (if n < 10 then [] else [digit (n div 10 mod 10)]) @ [digit (n mod 10)])"

fun join :: "string \<Rightarrow> string list \<Rightarrow> string" where
  "join sep [] = []"
| "join sep [s] = s"
| "join sep (s # ss) = s @ sep @ join sep ss"

definition debug_bytes :: "byte list \<Rightarrow> string" where
  "debug_bytes bs = ''['' @ join '', '' (map decimal bs) @ '']''"

text \<open>The closure given to \<open>map\<close>.\<close>

definition echo_reply :: "byte list \<Rightarrow> byte list" where
  "echo_reply data =
     (if utf8_ok data then into_bytes ''YOU WROTE: '' @ data
      else into_bytes (''YOU WROTE: '' @ debug_bytes data @ '' [couldn'' @ [CHR 0x27] @ ''t decode as UTF8]''))"

definition is_ascii :: "string \<Rightarrow> bool" where
  "is_ascii s \<longleftrightarrow> list_all (\<lambda>c. (of_char c :: byte) < 0x80) s"

lemma utf8_ok_ascii: "is_ascii s \<Longrightarrow> utf8_ok (into_bytes s)"
  by (induction s) (auto simp: is_ascii_def into_bytes_def)

lemma is_ascii_append [simp]: "is_ascii (s @ t) \<longleftrightarrow> is_ascii s \<and> is_ascii t"
  by (simp add: is_ascii_def)

lemma digit_ascii: "n < 10 \<Longrightarrow> (of_char (digit n) :: byte) < 0x80"
proof -
  assume "n < 10"
  then have "n = 0 \<or> n = 1 \<or> n = 2 \<or> n = 3 \<or> n = 4 \<or> n = 5 \<or> n = 6 \<or> n = 7 \<or> n = 8 \<or> n = 9"
    by arith
  then show ?thesis by (auto simp: digit_def char_of_def of_char_def)
qed

lemma decimal_ascii: "is_ascii (decimal b)"
proof -
  have "unat b < 256" using unsigned_less [of b] by simp
  then have "unat b div 100 < 10" by simp
  then show ?thesis by (simp add: decimal_def Let_def is_ascii_def digit_ascii)
qed

lemma join_ascii: "is_ascii sep \<Longrightarrow> list_all is_ascii ss \<Longrightarrow> is_ascii (join sep ss)"
  by (induction sep ss rule: join.induct) (auto simp: is_ascii_def)

lemma echo_reply_utf8: "utf8_ok (echo_reply data)"
proof -
  have "is_ascii (join '', '' (map decimal data))"
    by (rule join_ascii) (simp_all add: list_all_length decimal_ascii, simp add: is_ascii_def)
  then have "is_ascii (debug_bytes data)"
    by (simp add: debug_bytes_def) (simp add: is_ascii_def)
  then have "is_ascii (''YOU WROTE: '' @ debug_bytes data @ '' [couldn'' @ [CHR 0x27] @ ''t decode as UTF8]'')"
    by simp (simp add: is_ascii_def)
  moreover have "is_ascii ''YOU WROTE: ''" by (simp add: is_ascii_def)
  ultimately show ?thesis by (simp add: echo_reply_def utf8_ok_ascii utf8_ok_append)
qed

section \<open>The program\<close>

text \<open>\<open>stdin.map(\<dots>)\<close>: the closure on what the stream gives.\<close>

fun echo_map :: "(byte list option, io_error) poll \<Rightarrow> (byte list option, io_error) poll" where
  "echo_map (Ready (Some data)) = Ready (Some (echo_reply data))"
| "echo_map r = r"

text \<open>The result of \<open>core.run\<close>, and the line \<open>main\<close> prints; \<open>debug\<close> formats an error.\<close>

definition echo_final :: "(io_error \<Rightarrow> string) \<Rightarrow> io_error + unit \<Rightarrow> string" where
  "echo_final debug r =
     ''final: '' @ (case r of Inr _ \<Rightarrow> ''Ok(())'' | Inl e \<Rightarrow> ''Err('' @ debug e @ '')'')"

text \<open>
  \<open>Pushing\<close> holds the item the sink has not yet taken. At the end \<open>forward\<close> drops stream and sink
  and the borrower returns.
\<close>

datatype echo_phase = Pulling | Pushing "byte list" | Finished "io_error + unit" | Printed

definition echo_ends :: "stdio_world \<Rightarrow> stdio_world" where
  "echo_ends w = borrow_end w\<lparr>stream_alive := False, sink_alive := False\<rparr>"

text \<open>A step of the threads leaves the borrower's ends of the channels alone.\<close>

definition threads_only :: "stdio_world \<Rightarrow> stdio_world \<Rightarrow> bool" where
  "threads_only w w' \<longleftrightarrow> received w' = received w \<and> stream_results w' = stream_results w \<and>
     accepted w' = accepted w \<and> borrowed w' = borrowed w \<and> stream_alive w' = stream_alive w \<and>
     sink_alive w' = sink_alive w"

inductive echo_step :: "stdio_world \<times> echo_phase \<Rightarrow> stdio_world \<times> echo_phase \<Rightarrow> bool" where
  threads: "stdio_step w w' \<Longrightarrow> threads_only w w' \<Longrightarrow> echo_step (w, ph) (w', ph)"
| pull: "stream_alive w \<Longrightarrow> stream_answer_ok w answer \<Longrightarrow>
    echo_map (stdin_stream_poll answer) = Ready (Some text) \<Longrightarrow>
    echo_step (w, Pulling) (poll_stream answer w, Pushing text)"
| end_of_input: "stream_alive w \<Longrightarrow> stream_answer_ok w answer \<Longrightarrow>
    echo_map (stdin_stream_poll answer) = Ready None \<Longrightarrow>
    echo_step (w, Pulling) (echo_ends (poll_stream answer w), Finished (Inr ()))"
| input_error: "stream_alive w \<Longrightarrow> stream_answer_ok w answer \<Longrightarrow>
    echo_map (stdin_stream_poll answer) = PollErr e \<Longrightarrow>
    echo_step (w, Pulling) (echo_ends (poll_stream answer w), Finished (Inl e))"
| push: "sink_alive w \<Longrightarrow> sink_answer_ok w (stdout_item text) answer \<Longrightarrow>
    stdout_start_send answer = Return (Inr Taken) \<Longrightarrow>
    echo_step (w, Pushing text) (send_to_sink text answer w, Pulling)"
| push_later: "sink_alive w \<Longrightarrow> sink_answer_ok w (stdout_item text) answer \<Longrightarrow>
    stdout_start_send answer = Return (Inr (GivenBack back)) \<Longrightarrow>
    echo_step (w, Pushing text) (send_to_sink text answer w, Pushing back)"
| output_error: "sink_alive w \<Longrightarrow> sink_answer_ok w (stdout_item text) answer \<Longrightarrow>
    stdout_start_send answer = Return (Inl e) \<Longrightarrow>
    echo_step (w, Pushing text) (echo_ends (send_to_sink text answer w), Finished (Inl e))"
| print_final: "writer w \<noteq> Writing \<Longrightarrow>
    echo_step (w, Finished r) (w\<lparr>screen := screen w @ [Line (echo_final debug r)]\<rparr>, Printed)"

definition echo_initial :: "stdio_world \<times> echo_phase \<Rightarrow> bool" where
  "echo_initial s \<longleftrightarrow> s = (borrow_start, Pulling)"

section \<open>Its run is a run of the threads\<close>

lemma stdio_steps_end: "borrowed w \<Longrightarrow> stdio_step\<^sup>*\<^sup>* w (echo_ends w)"
proof -
  assume "borrowed w"
  then have "stdio_step w (borrow_end w)" by (rule stdio_step.borrower_returns)
  moreover have "stdio_step (borrow_end w) (borrow_end w\<lparr>stream_alive := False\<rparr>)"
    by (rule stdio_step.drop_stream)
  moreover have "stdio_step (borrow_end w\<lparr>stream_alive := False\<rparr>) (echo_ends w)"
    using stdio_step.drop_sink [of "borrow_end w\<lparr>stream_alive := False\<rparr>"] by (simp add: echo_ends_def)
  ultimately show ?thesis by (meson rtranclp.rtrancl_refl rtranclp.rtrancl_into_rtrancl)
qed

fun running :: "echo_phase \<Rightarrow> bool" where
  "running Pulling = True"
| "running (Pushing _) = True"
| "running _ = False"

text \<open>What has been put into the sink, and the item at hand, are the replies to what the stream gave.\<close>

fun chunks :: "(byte list option, io_error) poll list \<Rightarrow> byte list list" where
  "chunks [] = []"
| "chunks (Ready (Some data) # rs) = data # chunks rs"
| "chunks (_ # rs) = chunks rs"

lemma chunks_append [simp]: "chunks (as @ bs) = chunks as @ chunks bs"
  by (induction as rule: chunks.induct) simp_all

fun at_hand :: "echo_phase \<Rightarrow> byte list list" where
  "at_hand (Pushing text) = [text]"
| "at_hand _ = []"

definition echo_inv :: "stdio_world \<times> echo_phase \<Rightarrow> bool" where
  "echo_inv s \<longleftrightarrow> (case s of (w, ph) \<Rightarrow>
     reach stdio_initial stdio_step w \<and> (running ph \<longrightarrow> borrowed w) \<and>
     prefix (accepted w @ map Some (at_hand ph)) (map (Some \<circ> echo_reply) (chunks (stream_results w))) \<and>
     (running ph \<longrightarrow>
       accepted w @ map Some (at_hand ph) = map (Some \<circ> echo_reply) (chunks (stream_results w))))"

lemma stdio_reach: "stdio_step w w' \<Longrightarrow> reach stdio_initial stdio_step w \<Longrightarrow> reach stdio_initial stdio_step w'"
  by (rule reach_step)

lemma reach_steps: "stdio_step\<^sup>*\<^sup>* w w' \<Longrightarrow> reach stdio_initial stdio_step w \<Longrightarrow> reach stdio_initial stdio_step w'"
  by (induction rule: rtranclp_induct) (auto intro: reach_step)

lemma poll_stream_results:
  "answer \<noteq> NotReady \<Longrightarrow>
   stream_results (poll_stream answer w) = stream_results w @ [stdin_stream_poll answer]"
  by (cases "(answer, w)" rule: poll_stream.cases) auto

lemma echo_map_some: "echo_map r = Ready (Some text) \<Longrightarrow> \<exists>data. r = Ready (Some data) \<and> text = echo_reply data"
  by (cases r rule: echo_map.cases) auto

lemma echo_map_other: "echo_map r = Ready None \<or> echo_map r = PollErr e \<Longrightarrow> r = echo_map r"
  by (cases r rule: echo_map.cases) auto

lemma stream_poll_no_NotReady: "stdin_stream_poll answer \<noteq> NotReady \<Longrightarrow> answer \<noteq> NotReady"
  by auto

lemma echo_ends_keeps [simp]:
  "accepted (echo_ends w) = accepted w" "stream_results (echo_ends w) = stream_results w"
  by (simp_all add: echo_ends_def)

lemma echo_inv_ends:
  assumes "echo_inv (w, ph)" "running ph" "stdio_step w w'"
    and "borrowed w'" "accepted w' = accepted w" "chunks (stream_results w') = chunks (stream_results w)"
  shows "echo_inv (echo_ends w', Finished r)"
proof -
  from assms have "reach stdio_initial stdio_step w'" by (auto simp: echo_inv_def intro: reach_step)
  from reach_steps [OF stdio_steps_end [OF assms(4)] this] assms show ?thesis
    by (auto simp: echo_inv_def intro: append_prefixD)
qed

lemma echo_inv_pull:
  assumes "echo_inv (w, Pulling)" "stream_alive w" "stream_answer_ok w answer"
    and "echo_map (stdin_stream_poll answer) = Ready (Some text)"
  shows "echo_inv (poll_stream answer w, Pushing text)"
proof -
  from echo_map_some [OF assms(4)] obtain data
    where data: "stdin_stream_poll answer = Ready (Some data)" "text = echo_reply data" by blast
  then have "answer \<noteq> NotReady" by auto
  from poll_stream_results [OF this, of w] data
  have "chunks (stream_results (poll_stream answer w)) = chunks (stream_results w) @ [data]" by simp
  with assms(1) data stdio_reach [OF stdio_step.stream_poll [OF assms(2,3)]] show ?thesis
    by (simp add: echo_inv_def)
qed

lemma echo_inv_stop:
  assumes "echo_inv (w, Pulling)" "stream_alive w" "stream_answer_ok w answer"
    and "echo_map (stdin_stream_poll answer) = Ready None \<or> echo_map (stdin_stream_poll answer) = PollErr e"
  shows "echo_inv (echo_ends (poll_stream answer w), Finished r)"
proof -
  from echo_map_other [OF assms(4)] assms(4)
  have end_poll: "stdin_stream_poll answer = Ready None \<or> stdin_stream_poll answer = PollErr e" by auto
  then have "answer \<noteq> NotReady" by auto
  from poll_stream_results [OF this, of w] end_poll
  have "chunks (stream_results (poll_stream answer w)) = chunks (stream_results w)" by auto
  moreover from assms(1) have "borrowed w" by (simp add: echo_inv_def)
  ultimately show ?thesis
    using assms(1) stdio_step.stream_poll [OF assms(2,3)] by (intro echo_inv_ends [of w Pulling]) simp_all
qed

lemma echo_inv_push:
  assumes "echo_inv (w, Pushing text)" "sink_alive w" "sink_answer_ok w (stdout_item text) Taken"
  shows "echo_inv (send_to_sink text Taken w, Pulling)"
  using assms(1) stdio_reach [OF stdio_step.sink_send [OF assms(2,3)]]
  by (simp add: echo_inv_def) (simp add: send_to_sink_def stdout_item_def)

lemma send_not_taken: "answer \<noteq> Taken \<Longrightarrow> send_to_sink text answer w = w"
  by (simp add: send_to_sink_def)

lemma start_send_cases:
  "stdout_start_send answer = Return (Inr Taken) \<Longrightarrow> answer = Taken"
  "stdout_start_send answer = Return (Inr (GivenBack back)) \<Longrightarrow> answer = GivenBack (Some back)"
  "stdout_start_send answer = Return (Inl e) \<Longrightarrow> answer = Refused"
  by (auto simp: stdout_start_send_def split: async_sink.split_asm option.split_asm)

lemma echo_inv_step: "echo_inv s \<Longrightarrow> echo_step s s' \<Longrightarrow> echo_inv s'"
proof (erule echo_step.cases, goal_cases)
  case (1 w w' ph)
  then show ?case by (auto simp: echo_inv_def threads_only_def intro: reach_step)
next
  case (2 w answer t)
  then show ?case by (auto intro: echo_inv_pull)
next
  case (3 w answer)
  then show ?case by (auto intro!: echo_inv_stop)
next
  case (4 w answer e)
  then show ?case by (auto intro!: echo_inv_stop)
next
  case (5 w t answer)
  then show ?case by (auto dest: start_send_cases(1) intro: echo_inv_push)
next
  case (6 w t answer b)
  from start_send_cases(2) [OF 6(6)] 6 show ?case
    by (auto simp: send_not_taken stdout_item_def)
next
  case (7 w t answer e)
  from start_send_cases(3) [OF 7(6)] have answer: "answer = Refused" .
  with 7 have inv: "echo_inv (w, Pushing t)" and "stdio_step w w" "send_to_sink t answer w = w"
    using stdio_step.sink_send [of w t Refused] by (simp_all add: send_not_taken)
  moreover from inv have "borrowed w" by (simp add: echo_inv_def)
  ultimately show ?case using 7(3) echo_inv_ends [of w "Pushing t" w] by simp
next
  case (8 w r debug)
  then have "reach stdio_initial stdio_step (w\<lparr>screen := screen w @ [Line (echo_final debug r)]\<rparr>)"
    by (auto simp: echo_inv_def intro: reach_step stdio_step.print_line)
  with 8 show ?case by (auto simp: echo_inv_def)
qed

interpretation echo: inductive_invariant echo_initial echo_step echo_inv
proof unfold_locales
  show "echo_inv s" if "echo_initial s" for s
    using that by (auto simp: echo_initial_def echo_inv_def intro: reach_start) (simp_all add: borrow_start_def)
qed (rule echo_inv_step)

section \<open>Property\<close>

text \<open>What the echo program shows is, in order and up to what is still on its way, the replies to the
  chunks the stream gave; these are a prefix of what was typed; and every reply is valid UTF-8.\<close>

theorem echo_answers_input:
  assumes "reach echo_initial echo_step (w, ph)" "whole_writes w"
  shows "prefix (shown_bytes w) (concat (map echo_reply (chunks (stream_results w)))) \<and>
    prefix (concat (chunks (stream_results w))) (concat (map packet_bytes (stdin_reads w))) \<and>
    (\<forall>data. utf8_ok (echo_reply data))"
proof -
  from echo.inv_reach [OF assms(1)] have reach: "reach stdio_initial stdio_step w"
    and sent: "prefix (accepted w) (map (Some \<circ> echo_reply) (chunks (stream_results w)))"
    by (auto simp: echo_inv_def intro: append_prefixD)
  from sent obtain rest where "map (Some \<circ> echo_reply) (chunks (stream_results w)) = accepted w @ rest"
    by (auto elim: prefixE)
  then have "concat (map item_bytes (map (Some \<circ> echo_reply) (chunks (stream_results w)))) =
      sent_bytes w @ concat (map item_bytes rest)"
    by (simp add: sent_bytes_def)
  then have "prefix (sent_bytes w) (concat (map echo_reply (chunks (stream_results w))))"
    by (simp add: o_def)
  moreover have "concat (chunks rs) = concat (map result_bytes rs)" for rs
    by (induction rs rule: chunks.induct) auto
  ultimately show ?thesis
    using stdout_delivery [OF reach assms(2)] stdin_delivery [OF reach] echo_reply_utf8
    by (metis prefix_order.trans)
qed

text \<open>A run in which \<open>hi\<close> is typed and answered.\<close>

definition sample_reply :: "byte list" where
  "sample_reply = into_bytes ''YOU WROTE: hi''"

definition echoed_world :: stdio_world where
  "echoed_world =
     typed_world\<lparr>accepted := [Some sample_reply], writer := Writing, taken := [Some sample_reply],
       screen := [Chunk sample_reply]\<rparr>"

lemma echo_step_threads:
  "reach echo_initial echo_step (w, ph) \<Longrightarrow> stdio_step w w' \<Longrightarrow> threads_only w w' \<Longrightarrow>
   reach echo_initial echo_step (w', ph)"
  by (rule reach_step) (auto intro: echo_step.threads)

lemmas sample_stdio_defs = echoed_world_def typed_world_def read_world_def blocked_world_def
  turned_world_def borrow_start_def

lemma reach_echoed: "reach echo_initial echo_step (echoed_world, Pulling)"
proof -
  let ?w = "typed_world\<lparr>accepted := [Some sample_reply]\<rparr>"
  let ?v = "?w\<lparr>writer := Writing\<rparr>"
  have "reach echo_initial echo_step (borrow_start, Pulling)"
    by (rule reach_init) (simp add: echo_initial_def)
  from echo_step_threads [OF this start_turns] have "reach echo_initial echo_step (turned_world, Pulling)"
    by (simp add: threads_only_def sample_stdio_defs)
  from echo_step_threads [OF this turned_blocks] have "reach echo_initial echo_step (blocked_world, Pulling)"
    by (simp add: threads_only_def sample_stdio_defs)
  from echo_step_threads [OF this blocked_reads] have "reach echo_initial echo_step (read_world, Pulling)"
    by (simp add: threads_only_def sample_stdio_defs)
  moreover have "echo_step (read_world, Pulling)
      (poll_stream (Ready (Some (Inr [104, 105]))) read_world, Pushing sample_reply)"
    by (rule echo_step.pull)
      (simp_all add: read_world_def borrow_start_def next_message_def echo_reply_def sample_reply_def
        into_bytes_def of_char_def)
  moreover have "poll_stream (Ready (Some (Inr [104, 105]))) read_world = typed_world"
    by (simp add: sample_stdio_defs)
  ultimately have "reach echo_initial echo_step (typed_world, Pushing sample_reply)"
    by (metis reach_step)
  moreover have "echo_step (typed_world, Pushing sample_reply)
      (send_to_sink sample_reply Taken typed_world, Pulling)"
    by (rule echo_step.push)
      (simp_all add: sample_stdio_defs undelivered_def output_room_def stdout_start_send_def)
  moreover have "send_to_sink sample_reply Taken typed_world = ?w"
    by (simp add: send_to_sink_def stdout_item_def sample_stdio_defs)
  ultimately have "reach echo_initial echo_step (?w, Pulling)" by (metis reach_step)
  moreover have "stdio_step ?w ?v" by (rule stdio_step.writer_start) (simp add: sample_stdio_defs)
  ultimately have "reach echo_initial echo_step (?v, Pulling)"
    by (rule echo_step_threads) (simp add: threads_only_def)
  moreover have "stdio_step ?v (writer_takes (Some sample_reply) (Inr (length sample_reply)) ?v)"
    by (rule stdio_step.writer_item) (simp_all add: sample_stdio_defs next_message_def)
  moreover have "writer_takes (Some sample_reply) (Inr (length sample_reply)) ?v = echoed_world"
    by (simp add: writer_takes_def sample_stdio_defs)
  ultimately have "reach echo_initial echo_step (?v, Pulling)" "stdio_step ?v echoed_world" by simp_all
  then show ?thesis by (rule echo_step_threads) (simp add: threads_only_def sample_stdio_defs)
qed

theorem echo_answers_input_witness:
  "shown_bytes echoed_world = into_bytes ''YOU WROTE: hi'' \<and>
   prefix (shown_bytes echoed_world) (echo_reply [104, 105]) \<and> utf8_ok (echo_reply [0xFF, 7])"
  using echo_answers_input [OF reach_echoed]
  by (simp add: sample_stdio_defs shown_bytes_def sample_reply_def)

end
