(* ===== verification/Spec2Isabelle.thy ===== *)
theory Spec2Isabelle
  imports Terminal Pipes OpenEnd Wakeups Shutdown Split Echo
begin

text \<open>
  A model of \<open>stund\<close>, a program that keeps SSH tunnels open in the background, with the
  properties that make its parts correct.

  \<^bold>\<open>The program.\<close> A command line program (\<open>src/main.rs\<close>) talks to a daemon (\<open>src/daemon.rs\<close>) over a
  Unix socket with the messages of \<open>protocol/src/lib.rs\<close>; \<open>protocol/src/client.rs\<close> is the client's
  API. The daemon launches one SSH process per host on a pseudo-terminal (\<open>tokio-pty-process\<close>),
  relays a dialogue between the user and SSH until SSH prints a random marker, and then keeps
  the process. The client runs that dialogue over its standard streams, which two threads
  connect to its reactor (\<open>tokio-borrow-stdio\<close>). Each process has a monitor, each connection a
  session; both are state machines polled by a single-threaded reactor, and share the table of
  tunnels. A oneshot channel leads from the table's entry of a running tunnel to its monitor; a
  close command sends on it.

  \<^bold>\<open>The theories\<close>, in the order they build on each other:
  \<^item> \<open>Prelude\<close>: the results of polls and of code that may panic, machine transitions, reachable
    states, and the contract of an inductive invariant.
  \<^item> \<open>Protocol\<close>: the messages and \<open>get_socket_path\<close> (\<open>protocol/src/lib.rs\<close>).
  \<^item> \<open>KeyScan\<close>: the marker and the byte loop that looks for it (\<open>src/daemon.rs\<close>).
  \<^item> \<open>Relay\<close>: the contract of the four byte buffers of the daemon and of the client.
  \<^item> \<open>Conduit\<close>: the contract of a channel between threads.
  \<^item> \<open>Child\<close>, \<open>Pty\<close>: processes and pseudo-terminals (\<open>tokio-pty-process/src/lib.rs\<close>).
  \<^item> \<open>Split\<close>: reading and writing a pseudo-terminal, whole or by halves (\<open>split.rs\<close>).
  \<^item> \<open>Codecs\<close>: the codec of a connection, its serializer and deserializer (\<open>protocol/src/codecs.rs\<close>);
    \<open>Schedule\<close>: what a connection delivers under any schedule of writes, arrivals of any size and
    reads.
  \<^item> \<open>DaemonState\<close>: \<open>State\<close>, \<open>TunnelState\<close>, the states of the machines, the table as a map; the
    record \<open>world\<close> is the daemon process: its \<open>State\<close>, the tasks of the reactor, and what it has
    sent, signalled and launched.
  \<^item> \<open>Monitor\<close>, \<open>MonitorProps\<close>: the machine \<open>ChildMonitor\<close>, one definition per handler.
  \<^item> \<open>Session\<close>, \<open>SessionFacts\<close>, \<open>SessionRun\<close>, \<open>SessionProps\<close>: the machine \<open>Client\<close>, one definition per
    handler and command, whole runs of an open dialogue, and the properties of the commands.
  \<^item> \<open>Replies\<close>: the conversation the daemon promises, with the reply that each command gets from the
    table of tunnels, and its implementation by the session.
  \<^item> \<open>Daemon\<close>: \<open>State::new\<close>, \<open>serve\<close>, \<open>process_client\<close>, one poll of any task, the loop over
    the incoming connections (\<open>AcceptTask\<close>) among them, and the steps of the process: a fatal signal, or
    a poll of any task.
  \<^item> \<open>DaemonInv\<close>, \<open>DaemonProps\<close>, \<open>DaemonEnd\<close>: the invariant over all interleavings, and what follows
    from it; starting, runs and ending, failures. \<open>DaemonLive\<close>: polls that obey a command to its end;
    \<open>Shutdown\<close>: the dropping of the tasks at the end. \<open>Samples\<close> and \<open>SampleRuns\<close> hold the data of the witnesses.
  \<^item> \<open>ClientApi\<close>, \<open>ClientProps\<close>: establishing a connection, the requests, \<open>OpenWorkflow\<close>.
  \<^item> \<open>Wakeups\<close>: what a task that is not ready waits for.
  \<^item> \<open>Cli\<close>, \<open>CliProps\<close>: the subcommands, the exit code, the status table, the terminal's echo.
  \<^item> \<open>Stdio\<close>, \<open>StdioRun\<close>: the threads of \<open>borrow_stdio\<close> (\<open>tokio-borrow-stdio/src/lib.rs\<close>), one definition
    per piece of code, and their steps over all interleavings; \<open>StdioSamples\<close> and \<open>StdioProps\<close>:
    reachable states, invariants, properties; \<open>Pipes\<close>: the byte pipes they refine; \<open>Echo\<close>: the
    example program over them (\<open>tokio-borrow-stdio/examples/echo.rs\<close>).
  \<^item> \<open>Conversation\<close>, \<open>Terminal\<close>, \<open>Wire\<close>, and this theory: both sides of the protocol together, over
    the borrowed standard streams, and over the codecs of the connection; \<open>OpenEnd\<close>: how an open
    ends, from what \<open>stund open\<close> prints back to what SSH has printed.

  \<^bold>\<open>Interfaces.\<close> \<open>hash_map\<close> (the table, interpreted as \<open>table\<close>), \<open>process_handle\<close> (\<open>child\<close>), \<open>byte_relay\<close>
  (\<open>to_client\<close> and \<open>to_ssh\<close> in the daemon, \<open>to_user\<close> and \<open>to_daemon\<close> in the client), \<open>conduit\<close>
  (\<open>input_channel\<close> and \<open>output_channel\<close> of the standard streams), \<open>inductive_invariant\<close> (\<open>process\<close>
  and \<open>calm\<close> for the steps of the daemon, \<open>reading\<close> and \<open>display\<close> for those of the
  standard streams, \<open>echo\<close> for those of the example), \<open>answered_request\<close> (\<open>close_request\<close>, \<open>status_request\<close>, \<open>exit_request\<close>).

  \<^bold>\<open>The environment.\<close> Sockets, channels, the kernel and the C library are not code of the
  repository. A definition that polls one takes the answers it gets during the poll as an
  argument, in the fields of an \<open>..._env\<close> or \<open>..._answers\<close> record, and the theorems hold for all
  answers. Where the code polls in a loop the answers are a list; a loop that has used up its
  list and would poll again has the value \<open>Starved\<close>. There is no other fuel: a loop returns on
  every list that holds an answer that ends it (\<open>read_user_returns\<close>, \<open>read_ssh_returns\<close>,
  \<open>poll_exit_returns\<close>), and one that is \<open>Starved\<close> on longer and longer lists of the same answer does
  not end. A panic, also of an index or an \<open>unwrap\<close>, is the value \<open>Panic\<close>. What is assumed of an
  answer is a named predicate: \<open>wait_answer_ok\<close> (\<open>waitpid\<close>), \<open>kill_rx_ok\<close> and \<open>kill_send_ok\<close>
  (oneshot channels), \<open>ptsname_ok\<close>, \<open>host_ok\<close>, \<open>bytes_codec_ok\<close>, \<open>bincode_ok\<close>, \<open>bilock_ok\<close>. The channels of the
  standard streams answer as their documentation says: \<open>reader_env_ok\<close>, \<open>stream_answer_ok\<close> and
  \<open>sink_answer_ok\<close> are conditions of the steps, with the capacities \<open>input_room\<close> and \<open>output_room\<close>.

  \<^bold>\<open>Polls and steps.\<close> A generated machine makes several transitions in one poll of its task; in the
  model each is a step, after which any other task may run, so the model has all interleavings
  of the program and more. The accepting task takes in one poll as many connections as there are. The
  main task waits for a message in the exit channel (\<open>exit_msgs\<close>); since the reactor may still poll
  other tasks after it has been sent, the model lets the process go on from there too, and signals
  may come at any time and again. The task of a reply (\<open>poll_send\<close>) gives its message to the sink
  once and then flushes. A machine whose state was taken out and not put back stays idle for
  ever (\<open>Lost\<close>), as in the code that \<open>state_machine_future\<close> generates.

  \<^bold>\<open>The connection.\<close> The bytes written and not yet read are one queue, from which the reader takes any
  number at a time; each read is decoded as one message, as in the code. \<open>delivers\<close> is a connection no
  read of which has ended inside a message, \<open>carries\<close> one in which besides no two messages have shared
  a read. Neither is promised by a socket: they are the conditions under which the theorems on both
  ends hold, and \<open>Wire\<close> and this theory show what goes wrong without.

  \<^bold>\<open>What the lemmas show.\<close> The search works across chunks and finds a marker on a line of its own;
  nothing is invented or reordered on the way between user and SSH, and nothing lost if the connection
  carries the messages and no write is short; success is told the client, and printed by the command
  line, only after SSH has printed the marker; sessions answer each command as the table says, on
  their own connection only; the table, the channels and the monitors stay consistent; only live
  processes of the daemon are signalled, each kill order is executed, each death recorded; the daemon
  panics only when the first \<open>Ok\<close> of an open is refused, and ends only when told, and no SSH
  process it holds outlives it; a second daemon refuses to start. Wherever a session waits for a
  command, an exit command can be carried through to its end, and so can a close command as long as
  \<open>waitpid\<close> has not failed; a task that is not ready has drained its inputs, given its sinks what
  they take, and flushed them. The threads of the standard streams pass bytes on in order and in
  bounded memory, stop when told, and show everything before they end if no write is short; the
  halves of a terminal act as the whole. Some theorems state defects as the code has them: a marker
  hidden by a preceding beginning of itself, a session lost to a reply that is not ready, a panic
  over a sink that is not ready, a reopened tunnel killed by the end of its predecessor, a tunnel
  stranded by a failed \<open>waitpid\<close>, an accept error that ends accepting, a client that spins when the
  daemon goes away, an error text that the user never sees, a reader thread that spins while its
  channel is full, a short write that loses output, messages that share a read of which only the
  first is seen, output that is taken for an acknowledgement.

  \<^bold>\<open>Not modelled.\<close> The effect of the linger option that both sides set, the parsing of arguments, the texts on standard
  error, the \<open>Debug\<close> output of \<open>Child\<close>, the poisoning of the daemon's mutex, the unit
  tests. Every other function of the Rust sources has a definition. That dropping a
  reactor drops its tasks is taken as given. The insides of the crates the code uses (futures, tokio, mio, bincode, serde) are arguments or conditions. The order of a hash map's
  iteration is not used. \<open>SIGKILL\<close> is in \<open>FATAL_SIGNALS\<close> but the kernel never delivers it; the
  model allows that step all the same.
\<close>

section \<open>Properties that span the components\<close>



text \<open>
  The dialogue of both sides: bytes that each has passed on, and bytes in the messages between
  them.
\<close>

lemma dialogue_bytes:
  assumes "converse_run es (wf_start params) = Return (Stay (Communicating s'))"
    and "communicate ts (opened cm tx key) w = Return (Stay (CommunicatingForOpen c'), w')"
    and "undisturbed tx ts" "sent_to tx w = [SM_Ok]"
  shows "prefix (wf_user_tx s') (ssh_data (client_reads es))"
    "prefix (user_data (wf_sent s')) (concat (map (\<lambda>e. keyed (user_rx e)) es))"
    "prefix (ssh_tx c') (user_data (session_reads ts))"
    "prefix (ssh_data (sent_to tx w')) (concat (all_printed ts))"
proof -
  from converse_run_Stay [OF assms(1)] have
    client: "wf_user_tx s' @ wf_user_buf s' = ssh_data (client_reads es)"
      "user_data (wf_sent s') @ wf_ssh_buf s' = concat (map (\<lambda>e. keyed (user_rx e)) es)"
    by (auto simp: wf_start_def client_reads_shown)
  from communicate_Stay [OF assms(2)] assms(3,4) have
    daemon: "ssh_tx c' @ ssh_buf c' = user_data (session_reads ts)"
      "ssh_data (sent_to tx w') @ cl_buf c' = concat (all_printed ts)"
    by (auto simp: opened_def all_typed_reads)
  from client daemon show "prefix (wf_user_tx s') (ssh_data (client_reads es))"
    "prefix (user_data (wf_sent s')) (concat (map (\<lambda>e. keyed (user_rx e)) es))"
    "prefix (ssh_tx c') (user_data (session_reads ts))"
    "prefix (ssh_data (sent_to tx w')) (concat (all_printed ts))"
    by (metis prefixI)+
qed

lemma dialogue_to_ssh:
  assumes "converse_run es (wf_start params) = Return (Stay (Communicating s'))"
    and "communicate ts (opened cm tx key) w = Return (Stay (CommunicatingForOpen c'), w')"
    and "undisturbed tx ts" "sent_to tx w = [SM_Ok]"
    and "prefix (CM_Open params # session_reads ts) (wf_sent s')"
  shows "prefix (ssh_tx c') (concat (map (\<lambda>e. keyed (user_rx e)) es))"
  using dialogue_bytes(2,3) [OF assms(1-4)] user_data_prefix [OF assms(5)]
  by (auto intro: prefix_order.trans)

lemma dialogue_to_user:
  assumes "converse_run es (wf_start params) = Return (Stay (Communicating s'))"
    and "communicate ts (opened cm tx key) w = Return (Stay (CommunicatingForOpen c'), w')"
    and "undisturbed tx ts" "sent_to tx w = [SM_Ok]"
    and "prefix (SM_Ok # client_reads es) (sent_to tx w')"
  shows "prefix (wf_user_tx s') (concat (all_printed ts))"
  using dialogue_bytes(1,4) [OF assms(1-4)] ssh_data_prefix [OF assms(5)]
  by (auto intro: prefix_order.trans)

lemma dialogue_subseq:
  assumes "converse_run es (wf_start params) = Return (Stay (Communicating s'))"
    and "communicate ts (opened cm tx key) w = Return (Stay (CommunicatingForOpen c'), w')"
    and "undisturbed tx ts" "sent_to tx w = [SM_Ok]"
    and "subseq (CM_Open params # session_reads ts) (wf_sent s')"
    and "subseq (SM_Ok # client_reads es) (sent_to tx w')"
  shows "subseq (ssh_tx c') (concat (map (\<lambda>e. keyed (user_rx e)) es))"
    "subseq (wf_user_tx s') (concat (all_printed ts))"
  using dialogue_bytes [OF assms(1-4)] user_data_subseq [OF assms(5)] ssh_data_subseq [OF assms(6)]
  by simp_all (blast intro: prefix_imp_subseq subseq_order.trans)+

text \<open>Concrete runs of both sides and of the terminal.\<close>

definition sample_client_run :: "wf_env list" where
  "sample_client_run =
     [sample_wf_env\<lparr>user_rx := [Ready (Some [104, 105]), NotReady]\<rparr>,
      sample_wf_env\<lparr>daemon_rx := [Ready (Some (SM_SshData [1, 2, 3])), NotReady]\<rparr>]"

definition sample_client_end :: wf_state where
  "sample_client_end =
     \<lparr>wf_user_buf = [], wf_ssh_buf = [], wf_user_tx = [1, 2, 3],
      wf_sent = [CM_Open \<lparr>op_host = ''h''\<rparr>, CM_UserData [104, 105]]\<rparr>"

definition sample_daemon_run :: "((world \<Rightarrow> world) \<times> session_env) list" where
  "sample_daemon_run =
     [(id, sample_env\<lparr>rx_answers := [Ready (Some (CM_UserData [104, 105])), NotReady],
        ssh_rx_answers := [Ready (Some [1, 2]), Ready (Some [3]), NotReady]\<rparr>)]"

lemma sample_runs:
  "converse_run sample_client_run (wf_start \<lparr>op_host = ''h''\<rparr>) =
     Return (Stay (Communicating sample_client_end))"
  "communicate sample_daemon_run (opened quiet_common 0 ''K'') (take_message 0 SM_Ok empty_world) =
     Return (Stay (CommunicatingForOpen ((opened quiet_common 0 ''K'')\<lparr>ssh_tx := [104, 105]\<rparr>)),
       take_message 0 (SM_SshData [1, 2, 3]) (take_message 0 SM_Ok empty_world))"
  "undisturbed 0 sample_daemon_run" "sent_to 0 (take_message 0 SM_Ok empty_world) = [SM_Ok]"
  "prefix (CM_Open \<lparr>op_host = ''h''\<rparr> # session_reads sample_daemon_run) (wf_sent sample_client_end)"
  "prefix (SM_Ok # client_reads sample_client_run)
     (sent_to 0 (take_message 0 (SM_SshData [1, 2, 3]) (take_message 0 SM_Ok empty_world)))"
proof -
  show "converse_run sample_client_run (wf_start \<lparr>op_host = ''h''\<rparr>) =
      Return (Stay (Communicating sample_client_end))"
    by (simp add: sample_client_run_def sample_client_end_def poll_communicating_def sample_wf_env_def
        wf_start_def flush_user_def flush_daemon_def finish_poll_def)
  show "communicate sample_daemon_run (opened quiet_common 0 ''K'') (take_message 0 SM_Ok empty_world) =
      Return (Stay (CommunicatingForOpen ((opened quiet_common 0 ''K'')\<lparr>ssh_tx := [104, 105]\<rparr>)),
        take_message 0 (SM_SshData [1, 2, 3]) (take_message 0 SM_Ok empty_world))"
    by (simp add: sample_daemon_run_def poll_communicating_for_open_def opened_def sample_env_def
        flush_cl_buf_def flush_ssh_buf_def finish_communicating_def search_key_def into_bytes_def of_char_def)
qed (simp_all add: sample_daemon_run_def sample_client_run_def sample_client_end_def sent_to_def
      empty_world_def session_reads_def client_reads_def sample_wf_env_def)

lemma sample_carries:
  "carries (wf_sent sample_client_end) (CM_Open \<lparr>op_host = ''h''\<rparr> # session_reads sample_daemon_run)"
  "carries (sent_to 0 (take_message 0 (SM_SshData [1, 2, 3]) (take_message 0 SM_Ok empty_world)))
     (SM_Ok # client_reads sample_client_run)"
  using carries_all [OF sample_command_ok] carries_all [OF sample_message_ok(2) [of "[1, 2, 3]"]]
  by (simp_all add: sample_daemon_run_def sample_client_run_def sample_client_end_def sent_to_def
      empty_world_def session_reads_def client_reads_def sample_wf_env_def)

text \<open>C1. End to end, from the keyboard to SSH and from SSH to the screen, while a tunnel is being
  opened, over all interleavings of the terminal's threads and any polls of client and daemon.
  As long as no read of the connection ends inside a message, what SSH has been given is a
  subsequence of what the reader thread has read from standard input, and what has appeared on
  standard output is a subsequence of what SSH printed: nothing is invented, repeated or
  reordered, but messages that share a read may be lost, and so may be the rest of a short write.
  If no two messages of the client have shared a read, what SSH has been given is a prefix of what
  has been read; if no two of the daemon have, and no write to standard output has been short, what has appeared
  is a prefix of what SSH printed.\<close>

theorem terminal_end_to_end:
  assumes "converse_run es (wf_start params) = Return (Stay (Communicating s'))"
    and "communicate ts (opened cm tx key) w = Return (Stay (CommunicatingForOpen c'), w')"
    and "undisturbed tx ts" "sent_to tx w = [SM_Ok]"
    and "delivers (wf_sent s') (CM_Open params # session_reads ts)"
    and "delivers (sent_to tx w') (SM_Ok # client_reads es)"
    and "reach stdio_initial stdio_step t"
    and "types_into t es" "shows_output_of t s'"
  shows "subseq (ssh_tx c') (concat (map packet_bytes (stdin_reads t))) \<and>
    subseq (shown_bytes t) (concat (all_printed ts)) \<and>
    (carries (wf_sent s') (CM_Open params # session_reads ts) \<longrightarrow>
      prefix (ssh_tx c') (concat (map packet_bytes (stdin_reads t)))) \<and>
    (carries (sent_to tx w') (SM_Ok # client_reads es) \<and> whole_writes t \<longrightarrow>
      prefix (shown_bytes t) (concat (all_printed ts)))"
proof -
  note stream = stdin_delivery [OF assms(7)] stdout_part [OF assms(7)] stdout_delivery [OF assms(7)]
  note ends = types_into_bytes [OF assms(8)] assms(9) [unfolded shows_output_of_def]
  note sub = dialogue_subseq [OF assms(1-4) conveys_subseq [OF assms(5)] conveys_subseq [OF assms(6)]]
  have "subseq (ssh_tx c') (concat (map packet_bytes (stdin_reads t)))"
    using sub stream(1) ends by (metis prefix_imp_subseq subseq_order.trans)
  moreover have "subseq (shown_bytes t) (concat (all_printed ts))"
    using sub stream(2) ends by (metis subseq_order.trans)
  moreover have "prefix (ssh_tx c') (concat (map packet_bytes (stdin_reads t)))"
    if "carries (wf_sent s') (CM_Open params # session_reads ts)"
    using dialogue_to_ssh [OF assms(1-4) carries_prefix [OF that]] stream(1) ends
    by (metis prefix_order.trans)
  moreover have "prefix (shown_bytes t) (concat (all_printed ts))"
    if "carries (sent_to tx w') (SM_Ok # client_reads es)" "whole_writes t"
    using dialogue_to_user [OF assms(1-4) carries_prefix [OF that(1)]] stream(3) [OF that(2)] ends
    by (metis prefix_order.trans)
  ultimately show ?thesis by blast
qed

theorem terminal_end_to_end_witness:
  "subseq [104, 105] (concat (map packet_bytes (stdin_reads conversing_world))) \<and>
   prefix (shown_bytes conversing_world) (concat (all_printed sample_daemon_run)) \<and>
   shown_bytes conversing_world = [1, 2, 3]"
proof -
  have "types_into conversing_world sample_client_run" "shows_output_of conversing_world sample_client_end"
    by (simp_all add: types_into_def shows_output_of_def sample_client_run_def sample_client_end_def
        sample_wf_env_def conversing_world_def typed_world_def read_world_def borrow_start_def sent_bytes_def)
  from terminal_end_to_end [OF sample_runs(1-4) sample_carries [THEN carries_delivers]
      reach_conversing this] sample_carries show ?thesis
    by (simp add: opened_def conversing_world_def typed_world_def read_world_def borrow_start_def
        shown_bytes_def)
qed

text \<open>C30. An acknowledgement that shares a read is lost: when the last output of SSH and the final
  \<open>Ok\<close> reach the client in one read of the connection, the client gets the output and never the
  acknowledgement; nothing is left to read, and the workflow goes on waiting although the
  daemon has opened the tunnel.\<close>

theorem coalesced_ack_hangs_client:
  assumes "bytes_codec_ok inner" "bincode_ok [SM_SshData data, SM_Ok] ser de"
    and "split_connection inner ser de = (tx, rx)"
    and "transfer_all (write_messages [SM_SshData data, SM_Ok] tx) rx = (tx', rx1)"
    and "read_message rx1 = (r1, rx2)" "read_message rx2 = (r2, rx3)"
    and "daemon_rx env = [wire_poll r1, wire_poll r2]"
    and "poll_communicating env s = Return m"
  shows "m \<noteq> Goto x \<and> read_message rx3 = (Inr None, rx3)"
proof -
  note reads = coalesced_ack_reads [OF assms(1-6)]
  with assms(7) have "read_daemon (daemon_rx env) s =
      Return (Inr (False, s\<lparr>wf_user_buf := wf_user_buf s @ data\<rparr>))"
    by simp
  then have "m \<noteq> Goto x" using assms(8) by (rule no_ack_no_end)
  moreover from coalesced_messages_are_lost [OF assms(1-5)] reads have "read_message rx3 = (Inr None, rx3)"
    by simp
  ultimately show ?thesis by simp
qed

definition sample_wire :: "server_message serializer \<times> server_message deserializer" where
  "sample_wire = split_connection sample_codec sample_message_ser sample_message_de"

definition sample_wire_read :: "server_message deserializer" where
  "sample_wire_read =
     snd (transfer_all (write_messages [SM_SshData [7], SM_Ok] (fst sample_wire)) (snd sample_wire))"

theorem coalesced_ack_hangs_client_witness:
  "Stay (Communicating \<lparr>wf_user_buf = [], wf_ssh_buf = [], wf_user_tx = [7], wf_sent = []\<rparr>) \<noteq>
     Goto (WFinished OpenSuccess) \<and>
   fst (read_message (snd (read_message (snd (read_message sample_wire_read))))) = Inr None"
proof -
  let ?rx1 = sample_wire_read and ?rx2 = "snd (read_message sample_wire_read)"
  let ?env = "sample_wf_env\<lparr>daemon_rx :=
    [wire_poll (fst (read_message ?rx1)), wire_poll (fst (read_message ?rx2))]\<rparr>"
  let ?s = "\<lparr>wf_user_buf = [], wf_ssh_buf = [], wf_user_tx = [], wf_sent = []\<rparr>"
  let ?m = "Stay (Communicating \<lparr>wf_user_buf = [], wf_ssh_buf = [], wf_user_tx = [7], wf_sent = []\<rparr>)"
  have conn: "split_connection sample_codec sample_message_ser sample_message_de =
      (fst sample_wire, snd sample_wire)"
    by (simp add: sample_wire_def)
  have sent: "transfer_all (write_messages [SM_SshData [7], SM_Ok] (fst sample_wire)) (snd sample_wire) =
      (fst (transfer_all (write_messages [SM_SshData [7], SM_Ok] (fst sample_wire)) (snd sample_wire)), ?rx1)"
    by (simp add: sample_wire_read_def)
  have "wire_poll (fst (read_message ?rx1)) = Ready (Some (SM_SshData [7])) \<and>
      wire_poll (fst (read_message ?rx2)) = NotReady"
    using coalesced_ack_reads [OF sample_codec_ok(1) sample_message_ok(1) conn sent prod.collapse [symmetric]
        prod.collapse [symmetric]]
    by simp
  then have "poll_communicating ?env ?s = Return ?m"
    by (simp add: poll_communicating_def sample_wf_env_def flush_user_def flush_daemon_def finish_poll_def)
  from coalesced_ack_hangs_client [OF sample_codec_ok(1) sample_message_ok(1) conn sent
      prod.collapse [symmetric] prod.collapse [symmetric] _ this]
  show ?thesis by simp
qed

end
